(* ===== verification/Git3_Errs.thy ===== *)
theory Git3_Errs
  imports Git3_Prelude
begin

text \<open>
  Errors (\<^verbatim>\<open>src/internal/errs/errors.go\<close>) and the shape of fallible code.

  A Go \<^verbatim>\<open>error\<close> is a value of \<open>goerr\<close>: a formatted text, a text that wraps another error
  (\<^verbatim>\<open>%w\<close>), an \<^verbatim>\<open>*errs.Error\<close> with its stable code, or one of the sentinel errors git3 compares
  with. A function that returns \<^verbatim>\<open>(T, error)\<close> is a \<open>goerr + T\<close>; one that returns only an
  \<^verbatim>\<open>error\<close> is a \<open>goerr option\<close>; one that also performs requests is a \<open>prog\<close>, a
  function of the world that returns its result and the next world.
\<close>

section \<open>Codes and errors\<close>

datatype Code =
    ConfigInvalid | AuthFailed | BucketNotFound | RepositoryCorrupt | FormatUnsupported
  | CASConflict | GCBarrierActive | IntegrityFailed | NetworkExhausted | PublishAmbiguous
  | LocalGitFailed | LocalResourceFailed | Cancelled

datatype goerr =
    Errorf string "string list"
  | Wrapf string "string list" goerr
  | Error Code string goerr
  | ErrNotFound | ErrNotModified | ErrPrecondition
  | ErrFormatUnsupported
  | Canceled | DeadlineExceeded
  | EOF | ErrUnexpectedEOF
  | ErrExist | ErrNotExist
  | OutOfFuel

fun Code_string :: "Code \<Rightarrow> string" where
  "Code_string ConfigInvalid = ''CONFIG_INVALID''"
| "Code_string AuthFailed = ''AUTH_FAILED''"
| "Code_string BucketNotFound = ''BUCKET_NOT_FOUND''"
| "Code_string RepositoryCorrupt = ''REPOSITORY_CORRUPT''"
| "Code_string FormatUnsupported = ''FORMAT_UNSUPPORTED''"
| "Code_string CASConflict = ''CAS_CONFLICT''"
| "Code_string GCBarrierActive = ''GC_BARRIER_ACTIVE''"
| "Code_string IntegrityFailed = ''INTEGRITY_FAILED''"
| "Code_string NetworkExhausted = ''NETWORK_EXHAUSTED''"
| "Code_string PublishAmbiguous = ''PUBLISH_AMBIGUOUS''"
| "Code_string LocalGitFailed = ''LOCAL_GIT_FAILED''"
| "Code_string LocalResourceFailed = ''LOCAL_RESOURCE_FAILED''"
| "Code_string Cancelled = ''CANCELLED''"

text \<open>
  Rendering of a format: \<^verbatim>\<open>%w\<close> takes the text of the wrapped error, every other verb the next
  argument (already in text form), \<^verbatim>\<open>%q\<close> between quotes.
\<close>

fun render :: "string \<Rightarrow> string list \<Rightarrow> string \<Rightarrow> string" where
  "render [] args w = []"
| "render [c] args w = [c]"
| "render (c # v # cs) args w =
     (if c = CHR ''%'' then
        (if v = CHR ''w'' then w @ render cs args w
         else (case args of
             [] \<Rightarrow> render cs [] w
           | a # as \<Rightarrow>
               (if v = CHR ''q'' then CHR 0x22 # a @ [CHR 0x22] else a) @ render cs as w))
      else c # render (v # cs) args w)"

text \<open>The method \<^verbatim>\<open>Error() string\<close>.\<close>

fun error_string :: "goerr \<Rightarrow> string" where
  "error_string (Errorf f args) = render f args []"
| "error_string (Wrapf f args e) = render f args (error_string e)"
| "error_string (Error c op e) =
     (if op = [] then Code_string c @ '': '' @ error_string e
      else Code_string c @ '': '' @ op @ '': '' @ error_string e)"
| "error_string ErrNotFound = ''object not found''"
| "error_string ErrNotModified = ''object not modified''"
| "error_string ErrPrecondition = ''precondition failed''"
| "error_string ErrFormatUnsupported = ''format unsupported''"
| "error_string Canceled = ''context canceled''"
| "error_string DeadlineExceeded = ''context deadline exceeded''"
| "error_string EOF = ''EOF''"
| "error_string ErrUnexpectedEOF = ''unexpected EOF''"
| "error_string ErrExist = ''file already exists''"
| "error_string ErrNotExist = ''file does not exist''"
| "error_string OutOfFuel = []"

text \<open>\<^verbatim>\<open>errors.Is\<close> against a sentinel: along the chain of \<^verbatim>\<open>Unwrap\<close>.\<close>

fun errors_Is :: "goerr \<Rightarrow> goerr \<Rightarrow> bool" where
  "errors_Is (Wrapf f args e) t = (Wrapf f args e = t \<or> errors_Is e t)"
| "errors_Is (Error c op e) t = (Error c op e = t \<or> errors_Is e t)"
| "errors_Is e t = (e = t)"

text \<open>\<^verbatim>\<open>errors.As\<close> for the target type \<^verbatim>\<open>*errs.Error\<close>: the outermost one, by its code.\<close>

fun errors_As :: "goerr \<Rightarrow> Code option" where
  "errors_As (Wrapf f args e) = errors_As e"
| "errors_As (Error c op e) = Some c"
| "errors_As e = None"

definition E :: "Code \<Rightarrow> string \<Rightarrow> goerr \<Rightarrow> goerr" where
  "E code op err = Error code op err"

definition WithDefault :: "Code \<Rightarrow> string \<Rightarrow> goerr \<Rightarrow> goerr" where
  "WithDefault code op err =
     (if errors_As err \<noteq> None \<or> errors_Is err Canceled \<or> errors_Is err DeadlineExceeded
      then err else E code op err)"

definition ExitCode :: "Code \<Rightarrow> int" where
  "ExitCode code = (case code of
      ConfigInvalid \<Rightarrow> 2
    | AuthFailed \<Rightarrow> 3 | BucketNotFound \<Rightarrow> 3
    | RepositoryCorrupt \<Rightarrow> 4 | FormatUnsupported \<Rightarrow> 4
    | CASConflict \<Rightarrow> 5 | GCBarrierActive \<Rightarrow> 5
    | IntegrityFailed \<Rightarrow> 6
    | LocalGitFailed \<Rightarrow> 7 | LocalResourceFailed \<Rightarrow> 7
    | PublishAmbiguous \<Rightarrow> 8
    | _ \<Rightarrow> 1)"

definition CodeOf :: "goerr \<Rightarrow> Code" where
  "CodeOf err = (case errors_As err of
      Some c \<Rightarrow> c
    | None \<Rightarrow>
       (if errors_Is err Canceled \<or> errors_Is err DeadlineExceeded then Cancelled
        else (let s = ToLower (error_string err) in
          if Contains s ''cancel'' then Cancelled
          else if Contains s ''cas conflict'' \<or> Contains s ''precondition'' then CASConflict
          else if Contains s ''gc barrier'' then GCBarrierActive
          else if Contains s ''integrity'' \<or> Contains s ''checksum'' then IntegrityFailed
          else if Contains s ''authorization'' \<or> Contains s ''credential'' \<or>
                  Contains s ''access denied'' then AuthFailed
          else if Contains s ''bucket not found'' then BucketNotFound
          else if Contains s ''object format'' \<or> Contains s ''unsupported format''
               then FormatUnsupported
          else if Contains s ''git '' \<or> Contains s ''index-pack'' \<or> Contains s ''pack-objects''
               then LocalGitFailed
          else if Contains s ''lock'' \<or> Contains s ''disk'' then LocalResourceFailed
          else if Contains s ''invalid'' \<or> Contains s ''usage'' \<or> Contains s ''requires''
               then ConfigInvalid
          else RepositoryCorrupt)))"

lemma errors_Is_E [simp]:
  "errors_Is (E c op e) t \<longleftrightarrow> E c op e = t \<or> errors_Is e t"
  by (simp add: E_def)

lemma errors_As_E [simp]: "errors_As (E c op e) = Some c"
  by (simp add: E_def)

lemma E_not_sentinel [simp]:
  "E c op e \<noteq> ErrNotFound" "E c op e \<noteq> ErrNotModified" "E c op e \<noteq> ErrPrecondition"
  "E c op e \<noteq> ErrFormatUnsupported" "E c op e \<noteq> Canceled" "E c op e \<noteq> DeadlineExceeded"
  "E c op e \<noteq> OutOfFuel"
  by (simp_all add: E_def)

lemma errors_As_WithDefault:
  "errors_As (WithDefault c op e) =
     (if errors_As e \<noteq> None then errors_As e
      else if errors_Is e Canceled \<or> errors_Is e DeadlineExceeded then None else Some c)"
  by (auto simp: WithDefault_def)

section \<open>Sequences of checks\<close>

text \<open>
  A validation method is a sequence of early returns. \<open>failIf\<close> is one
  \<^verbatim>\<open>if cond { return err }\<close>, and \<open>firstError\<close> runs them in order.
\<close>

definition failIf :: "bool \<Rightarrow> goerr \<Rightarrow> goerr option" where
  "failIf b e = (if b then Some e else None)"

fun firstError :: "goerr option list \<Rightarrow> goerr option" where
  "firstError [] = None"
| "firstError (c # cs) = (case c of None \<Rightarrow> firstError cs | Some e \<Rightarrow> Some e)"

declare firstError.simps(2) [simp del]

lemma firstError_step [simp, check_simps]:
  "firstError (None # cs) = firstError cs" "firstError (Some e # cs) = Some e"
  by (simp_all add: firstError.simps(2))

lemma failIf_simps [simp, check_simps]: "failIf True e = Some e" "failIf False e = None"
  by (simp_all add: failIf_def)

lemma failIf_None [simp, check_simps]: "failIf b e = None \<longleftrightarrow> \<not> b"
  by (simp add: failIf_def)

lemma firstError_Cons_None [simp, check_simps]:
  "firstError (c # cs) = None \<longleftrightarrow> c = None \<and> firstError cs = None"
  by (simp add: firstError.simps(2) split: option.splits)

lemma firstError_None_iff: "firstError cs = None \<longleftrightarrow> (\<forall>c \<in> set cs. c = None)"
  by (induction cs) auto

lemma firstError_append:
  "firstError (xs @ ys) = (case firstError xs of None \<Rightarrow> firstError ys | Some e \<Rightarrow> Some e)"
  by (induction xs) (auto simp: firstError.simps(2) split: option.splits)

section \<open>Programs\<close>

type_synonym 'a res = "goerr + 'a"
type_synonym ('w, 'a) prog = "'w \<Rightarrow> 'a res \<times> 'w"

definition returnP :: "'a \<Rightarrow> ('w, 'a) prog" where
  "returnP x w = (Inr x, w)"

definition failP :: "goerr \<Rightarrow> ('w, 'a) prog" where
  "failP e w = (Inl e, w)"

text \<open>\<^verbatim>\<open>x, e := m; if e != nil { return e }; f(x)\<close>.\<close>

definition bindP :: "('w, 'a) prog \<Rightarrow> ('a \<Rightarrow> ('w, 'b) prog) \<Rightarrow> ('w, 'b) prog" where
  "bindP m f w = (case m w of (Inl e, w') \<Rightarrow> (Inl e, w') | (Inr x, w') \<Rightarrow> f x w')"

text \<open>\<^verbatim>\<open>x, e := m\<close> where the code goes on to inspect \<^verbatim>\<open>e\<close> itself.\<close>

definition tryP :: "('w, 'a) prog \<Rightarrow> ('a res \<Rightarrow> ('w, 'b) prog) \<Rightarrow> ('w, 'b) prog" where
  "tryP m f w = (case m w of (r, w') \<Rightarrow> f r w')"

definition liftP :: "'a res \<Rightarrow> ('w, 'a) prog" where
  "liftP r w = (r, w)"

text \<open>\<^verbatim>\<open>if e := check; e != nil { return e }\<close>.\<close>

definition checkP :: "goerr option \<Rightarrow> ('w, 'a) prog \<Rightarrow> ('w, 'a) prog" where
  "checkP c m w = (case c of Some e \<Rightarrow> (Inl e, w) | None \<Rightarrow> m w)"

lemma run_basic [simp, run_simps]:
  "returnP x w = (Inr x, w)" "failP e w = (Inl e, w)" "liftP r w = (r, w)"
  by (simp_all add: returnP_def failP_def liftP_def)

lemma bindP_Inr_iff [run_simps]:
  "bindP m f w = (Inr y, w2) \<longleftrightarrow> (\<exists>x w1. m w = (Inr x, w1) \<and> f x w1 = (Inr y, w2))"
  by (auto simp: bindP_def split: prod.splits sum.splits)

lemma bindP_Inl_iff [run_simps]:
  "bindP m f w = (Inl e, w2) \<longleftrightarrow>
     m w = (Inl e, w2) \<or> (\<exists>x w1. m w = (Inr x, w1) \<and> f x w1 = (Inl e, w2))"
  by (auto simp: bindP_def split: prod.splits sum.splits)

lemma bindP_Inr [simp]: "m w = (Inr x, w1) \<Longrightarrow> bindP m f w = f x w1"
  by (simp add: bindP_def)

lemma bindP_Inl [simp]: "m w = (Inl e, w1) \<Longrightarrow> bindP m f w = (Inl e, w1)"
  by (simp add: bindP_def)

lemma bindP_pure [simp]:
  "bindP (returnP x) f w = f x w" "bindP (failP e) f w = (Inl e, w)"
  "bindP (liftP (Inr x)) f w = f x w" "bindP (liftP (Inl e)) f w = (Inl e, w)"
  by (simp_all add: bindP_def)

lemma tryP_run [simp]: "m w = (r, w1) \<Longrightarrow> tryP m f w = f r w1"
  by (simp add: tryP_def)

lemma tryP_iff [run_simps]:
  "tryP m f w = (r, w2) \<longleftrightarrow> (\<exists>x w1. m w = (x, w1) \<and> f x w1 = (r, w2))"
  by (auto simp: tryP_def split: prod.splits)

lemma checkP_simps [simp, run_simps]:
  "checkP None m w = m w" "checkP (Some e) m w = (Inl e, w)"
  by (simp_all add: checkP_def)

lemma checkP_Inr_iff [run_simps]:
  "checkP c m w = (Inr y, w2) \<longleftrightarrow> c = None \<and> m w = (Inr y, w2)"
  by (simp add: checkP_def split: option.splits)

text \<open>
  A relation between worlds that is reflexive and transitive is kept by a sequence of steps
  when each step keeps it.
\<close>

definition keeps :: "('w \<Rightarrow> 'w \<Rightarrow> bool) \<Rightarrow> ('w, 'a) prog \<Rightarrow> bool" where
  "keeps R m \<longleftrightarrow> (\<forall>w. R w (snd (m w)))"

lemma keepsD: "keeps R m \<Longrightarrow> m w = (r, w1) \<Longrightarrow> R w w1"
  by (metis keeps_def snd_conv)

lemma keeps_pure [intro]:
  assumes "reflp R"
  shows "keeps R (returnP x)" "keeps R (failP e)" "keeps R (liftP r)"
  using assms by (auto simp: keeps_def dest: reflpD)

lemma keeps_bindP [intro]:
  assumes R: "reflp R" "transp R" and m: "keeps R m" and f: "\<And>x. keeps R (f x)"
  shows "keeps R (bindP m f)"
  unfolding keeps_def
proof
  fix w
  show "R w (snd (bindP m f w))"
  proof (cases "m w")
    case (Pair r w1)
    from m Pair have 1: "R w w1" by (rule keepsD)
    show ?thesis
    proof (cases r)
      case (Inl e)
      with 1 Pair show ?thesis by (simp add: bindP_def)
    next
      case (Inr x)
      have "R w1 (snd (f x w1))" using f [of x] by (simp add: keeps_def)
      with 1 R(2) Pair Inr show ?thesis by (auto simp: bindP_def dest: transpD)
    qed
  qed
qed

lemma keeps_tryP [intro]:
  assumes R: "transp R" and m: "keeps R m" and f: "\<And>x. keeps R (f x)"
  shows "keeps R (tryP m f)"
  unfolding keeps_def
proof
  fix w
  obtain r w1 where mw: "m w = (r, w1)" by (cases "m w")
  have "R w1 (snd (f r w1))" using f [of r] by (simp add: keeps_def)
  with keepsD [OF m mw] R mw show "R w (snd (tryP m f w))"
    by (auto simp: tryP_def dest: transpD)
qed

lemma keeps_checkP [intro]:
  assumes "reflp R" "keeps R m"
  shows "keeps R (checkP c m)"
  using assms by (auto simp: keeps_def checkP_def dest: reflpD split: option.splits)

section \<open>Properties\<close>

text \<open>
  The classification made closest to a failure wins. An error that already carries a code
  keeps it through later wrapping and default classification, and so keeps its exit status; an
  unclassified error that is not a cancellation takes the default.
\<close>

theorem classification_kept:
  assumes "errors_As e = Some c"
  shows "CodeOf (WithDefault d op e) = c \<and> CodeOf (Wrapf f args e) = c \<and>
    ExitCode (CodeOf (WithDefault d op e)) = ExitCode c \<and>
    (\<forall>e'. errors_As e' = None \<and> \<not> errors_Is e' Canceled \<and> \<not> errors_Is e' DeadlineExceeded \<longrightarrow>
       CodeOf (WithDefault d op e') = d)"
  using assms by (auto simp: CodeOf_def errors_As_WithDefault)

theorem classification_kept_witness:
  "CodeOf (WithDefault RepositoryCorrupt ''read-log''
     (Wrapf ''encode: %w'' [] (E IntegrityFailed ''read-object'' ErrNotFound))) = IntegrityFailed"
  using classification_kept [of "Wrapf ''encode: %w'' [] (E IntegrityFailed ''read-object'' ErrNotFound)" IntegrityFailed]
  by simp

end
