(* ===== verification/Git3_Utf8.thy ===== *)
theory Git3_Utf8
  imports Git3_Prelude
begin

text \<open>
  Go's \<^verbatim>\<open>range\<close> over a string and \<^verbatim>\<open>utf8.ValidString\<close>. A loop \<^verbatim>\<open>for _, r := range s\<close>
  decodes runes; a byte that starts no valid encoding yields the replacement rune 0xFFFD and
  advances one byte. The lemma \<open>bex_runes_ascii\<close> says that a test that only accepts ASCII
  runes may be read over the bytes.
\<close>

definition is_cont :: "nat \<Rightarrow> bool" where
  "is_cont b \<longleftrightarrow> 0x80 \<le> b \<and> b \<le> 0xBF"

text \<open>The range of the second byte that a lead byte accepts, and the length of the encoding.\<close>

definition lead_len :: "nat \<Rightarrow> nat" where
  "lead_len b =
     (if b < 0x80 then 1 else if 0xC2 \<le> b \<and> b \<le> 0xDF then 2
      else if 0xE0 \<le> b \<and> b \<le> 0xEF then 3 else if 0xF0 \<le> b \<and> b \<le> 0xF4 then 4 else 0)"

definition second_ok :: "nat \<Rightarrow> nat \<Rightarrow> bool" where
  "second_ok b c \<longleftrightarrow>
     (if b = 0xE0 then 0xA0 \<le> c \<and> c \<le> 0xBF
      else if b = 0xED then 0x80 \<le> c \<and> c \<le> 0x9F
      else if b = 0xF0 then 0x90 \<le> c \<and> c \<le> 0xBF
      else if b = 0xF4 then 0x80 \<le> c \<and> c \<le> 0x8F
      else is_cont c)"

definition RuneError :: nat where
  "RuneError = 0xFFFD"

text \<open>\<^verbatim>\<open>utf8.DecodeRune\<close>: the rune and its width; an invalid encoding is \<open>(RuneError, 1)\<close>.\<close>

definition decode_rune :: "nat list \<Rightarrow> nat \<times> nat" where
  "decode_rune bs = (case bs of
      [] \<Rightarrow> (RuneError, 0)
    | b # r \<Rightarrow>
       (let n = lead_len b in
        if n = 1 then (b, 1)
        else if n = 0 \<or> length r < n - 1 \<or> \<not> second_ok b (r ! 0)
                \<or> \<not> list_all is_cont (take (n - 2) (drop 1 r))
        then (RuneError, 1)
        else if n = 2 then ((b - 0xC0) * 0x40 + (r ! 0 - 0x80), 2)
        else if n = 3 then ((b - 0xE0) * 0x1000 + (r ! 0 - 0x80) * 0x40 + (r ! 1 - 0x80), 3)
        else ((b - 0xF0) * 0x40000 + (r ! 0 - 0x80) * 0x1000 + (r ! 1 - 0x80) * 0x40
                + (r ! 2 - 0x80), 4)))"

lemma decode_rune_width:
  "bs \<noteq> [] \<Longrightarrow> 1 \<le> snd (decode_rune bs) \<and> snd (decode_rune bs) \<le> length bs"
proof (cases bs)
  case (Cons b r)
  have "lead_len b \<in> {0, 1, 2, 3, 4}" by (simp add: lead_len_def)
  with Cons show ?thesis by (auto simp: decode_rune_def Let_def Suc_le_eq)
qed simp

function runes_of :: "nat list \<Rightarrow> (nat \<times> nat) list" where
  "runes_of bs =
     (if bs = [] then [] else decode_rune bs # runes_of (drop (snd (decode_rune bs)) bs))"
  by pat_completeness auto
termination
proof (relation "measure length", goal_cases)
  case (2 bs)
  then show ?case using decode_rune_width [of bs] by auto
qed simp

declare runes_of.simps [simp del]

definition byte_codes :: "string \<Rightarrow> nat list" where
  "byte_codes s = map of_char s"

text \<open>The runes a \<^verbatim>\<open>range\<close> loop visits.\<close>

definition runes :: "string \<Rightarrow> nat list" where
  "runes s = map fst (runes_of (byte_codes s))"

definition ValidString :: "string \<Rightarrow> bool" where
  "ValidString s \<longleftrightarrow> (RuneError, 1) \<notin> set (runes_of (byte_codes s))"

section \<open>ASCII tests over runes are tests over bytes\<close>

lemma lead_len_cases:
  obtains "lead_len b = 1" "b < 0x80"
  | "lead_len b = 0" "0x80 \<le> b"
  | "lead_len b = 2" "0xC2 \<le> b" "b \<le> 0xDF"
  | "lead_len b = 3" "0xE0 \<le> b" "b \<le> 0xEF"
  | "lead_len b = 4" "0xF0 \<le> b" "b \<le> 0xF4"
proof -
  consider "b < 0x80" | "0x80 \<le> b" "b < 0xC2" | "0xC2 \<le> b" "b \<le> 0xDF"
    | "0xE0 \<le> b" "b \<le> 0xEF" | "0xF0 \<le> b" "b \<le> 0xF4" | "0xF4 < b"
    by linarith
  then show ?thesis by cases (auto simp: lead_len_def intro: that)
qed

lemma second_ok_cont: "second_ok b c \<Longrightarrow> is_cont c"
  by (auto simp: second_ok_def is_cont_def split: if_splits)

text \<open>
  One decoding step: either an ASCII byte is its own rune, or the rune is beyond ASCII and so
  is every byte the step consumes.
\<close>

lemma decode_rune_step:
  assumes "bs = b # r"
  shows "(b < 0x80 \<and> decode_rune bs = (b, 1)) \<or>
         (0x80 \<le> b \<and> 0x80 \<le> fst (decode_rune bs) \<and>
          (\<forall>c \<in> set (take (snd (decode_rune bs)) bs). 0x80 \<le> c))"
proof (cases rule: lead_len_cases [of b])
  case 1
  with assms show ?thesis by (simp add: decode_rune_def)
next
  case 2
  with assms show ?thesis by (simp add: decode_rune_def RuneError_def)
next
  case 3
  with assms show ?thesis
    by (cases r) (auto simp: decode_rune_def RuneError_def is_cont_def dest!: second_ok_cont)
next
  case 4
  show ?thesis
  proof (cases "length r < 2 \<or> \<not> second_ok b (r ! 0) \<or> \<not> list_all is_cont (take 1 (drop 1 r))")
    case True
    with 4 assms show ?thesis by (auto simp: decode_rune_def RuneError_def)
  next
    case False
    then obtain c d t where r: "r = c # d # t" by (cases r; cases "tl r") auto
    from False r have cd: "second_ok b c" "is_cont d" by auto
    have dec: "decode_rune bs = ((b - 0xE0) * 0x1000 + (c - 0x80) * 0x40 + (d - 0x80), 3)"
      using 4 assms r cd by (simp add: decode_rune_def)
    have "0x80 \<le> c" "0x80 \<le> d" using cd by (auto simp: is_cont_def dest: second_ok_cont)
    moreover have "b = 0xE0 \<Longrightarrow> 0xA0 \<le> c" using cd by (auto simp: second_ok_def)
    ultimately have "0x80 \<le> (b - 0xE0) * 0x1000 + (c - 0x80) * 0x40 + (d - 0x80)"
      using 4 by (cases "b = 0xE0") auto
    with dec 4 assms r \<open>0x80 \<le> c\<close> \<open>0x80 \<le> d\<close> show ?thesis
      by (simp add: take_Cons')
  qed
next
  case 5
  show ?thesis
  proof (cases "length r < 3 \<or> \<not> second_ok b (r ! 0) \<or> \<not> list_all is_cont (take 2 (drop 1 r))")
    case True
    with 5 assms show ?thesis by (auto simp: decode_rune_def RuneError_def)
  next
    case False
    then obtain c d e t where r: "r = c # d # e # t"
      by (cases r; cases "tl r"; cases "tl (tl r)") auto
    from False r have cde: "second_ok b c" "is_cont d" "is_cont e" by (auto simp: numeral_2_eq_2)
    have dec: "decode_rune bs =
        ((b - 0xF0) * 0x40000 + (c - 0x80) * 0x1000 + (d - 0x80) * 0x40 + (e - 0x80), 4)"
      using 5 assms r cde by (simp add: decode_rune_def take_Cons')
    have ge: "0x80 \<le> c" "0x80 \<le> d" "0x80 \<le> e"
      using cde by (auto simp: is_cont_def dest: second_ok_cont)
    moreover have "b = 0xF0 \<Longrightarrow> 0x90 \<le> c" using cde by (auto simp: second_ok_def)
    ultimately have
      "0x80 \<le> (b - 0xF0) * 0x40000 + (c - 0x80) * 0x1000 + (d - 0x80) * 0x40 + (e - 0x80)"
      using 5 by (cases "b = 0xF0") auto
    with dec 5 assms r ge show ?thesis by (simp add: take_Cons')
  qed
qed

lemma bex_runes_of_ascii:
  assumes P: "\<And>r. P r \<Longrightarrow> r < 0x80"
  shows "(\<exists>x \<in> set (runes_of bs). P (fst x)) \<longleftrightarrow> (\<exists>b \<in> set bs. P b)"
proof (induction bs rule: runes_of.induct)
  case (1 bs)
  show ?case
  proof (cases bs)
    case Nil
    then show ?thesis by (simp add: runes_of.simps)
  next
    case (Cons b r)
    let ?n = "snd (decode_rune bs)"
    have "runes_of bs = decode_rune bs # runes_of (drop ?n bs)"
      by (subst runes_of.simps) (simp add: Cons)
    then have "(\<exists>x \<in> set (runes_of bs). P (fst x)) \<longleftrightarrow>
        P (fst (decode_rune bs)) \<or> (\<exists>b \<in> set (drop ?n bs). P b)"
      using 1 Cons by simp
    moreover have "P (fst (decode_rune bs)) \<longleftrightarrow> (\<exists>b \<in> set (take ?n bs). P b)"
      using decode_rune_step [OF Cons] Cons P by force
    ultimately show ?thesis
      by (metis Un_iff append_take_drop_id set_append)
  qed
qed

lemma bex_runes_ascii:
  assumes "\<And>r. P r \<Longrightarrow> r < 0x80"
  shows "(\<exists>r \<in> set (runes s). P r) \<longleftrightarrow> (\<exists>c \<in> set s. P (of_char c))"
  using bex_runes_of_ascii [where P = P, of "byte_codes s"] assms
  by (auto simp: runes_def byte_codes_def)

end
