(* ===== verification/Git3_Locator.thy ===== *)
theory Git3_Locator
  imports Git3_Errs Git3_Utf8
begin

text \<open>
  Repository locators and the managed key namespace (\<^verbatim>\<open>src/internal/locator/locator.go\<close>).

  \<open>Parse\<close> takes the parsed form of the URL as the argument \<open>url_Parse\<close>, the function
  \<^verbatim>\<open>url.Parse\<close> with the accessors the code reads; its own checks and the decoding of path
  segments are modelled. The theorem at the end says that a managed key can never leave the
  reserved prefix of the repository.
\<close>

section \<open>Data\<close>

record Locator =
  loc_Bucket :: string
  loc_Prefix :: string

record URL =
  u_Scheme :: string
  u_Host :: string
  u_Port :: string
  u_User :: "string option"
  u_RawQuery :: string
  u_Fragment :: string
  u_EscapedPath :: string

section \<open>Operations\<close>

definition hex_val :: "char \<Rightarrow> nat option" where
  "hex_val c =
     (if CHR ''0'' \<le> c \<and> c \<le> CHR ''9'' then Some (of_char c - 48)
      else if CHR ''a'' \<le> c \<and> c \<le> CHR ''f'' then Some (of_char c - 87)
      else if CHR ''A'' \<le> c \<and> c \<le> CHR ''F'' then Some (of_char c - 55)
      else None)"

text \<open>\<^verbatim>\<open>url.PathUnescape\<close>: \<^verbatim>\<open>%\<close> and two hexadecimal digits stand for one byte.\<close>

fun PathUnescape :: "string \<Rightarrow> string option" where
  "PathUnescape [] = Some []"
| "PathUnescape (c # cs) =
     (if c = CHR ''%'' then
        (case cs of
           a # b # rest \<Rightarrow>
             (case (hex_val a, hex_val b) of
                (Some x, Some y) \<Rightarrow> map_option (\<lambda>r. char_of (16 * x + y) # r) (PathUnescape rest)
              | _ \<Rightarrow> None)
         | _ \<Rightarrow> None)
      else map_option (\<lambda>r. c # r) (PathUnescape cs))"

definition control_rune :: "nat \<Rightarrow> bool" where
  "control_rune r \<longleftrightarrow> r < 0x20 \<or> r = 0x7f"

text \<open>The body of the loop over the path segments, for the segment with index \<open>i\<close>.\<close>

definition decodeSegment :: "nat \<Rightarrow> string \<Rightarrow> string res" where
  "decodeSegment i p =
     (if p = [] then Inl (Errorf ''empty path segment'' [])
      else (case PathUnescape p of
          None \<Rightarrow> Inl (Wrapf ''segment %d: %w'' [dec i] (Errorf ''invalid URL escape'' []))
        | Some d \<Rightarrow>
           (if d = [] \<or> d = ''.'' \<or> d = ''..'' \<or> CHR ''/'' \<in> set d \<or> CHR 0x5C \<in> set d
                \<or> \<not> ValidString d
            then Inl (Errorf ''invalid path segment %q'' [d])
            else if \<exists>r \<in> set (runes d). control_rune r
            then Inl (Errorf ''control character in path'' [])
            else Inr d)))"

fun decodeSegments :: "nat \<Rightarrow> string list \<Rightarrow> string list res" where
  "decodeSegments i [] = Inr []"
| "decodeSegments i (p # ps) =
     (case decodeSegment i p of
        Inl e \<Rightarrow> Inl e
      | Inr d \<Rightarrow> (case decodeSegments (Suc i) ps of Inl e \<Rightarrow> Inl e | Inr ds \<Rightarrow> Inr (d # ds)))"

definition Parse :: "(string \<Rightarrow> URL res) \<Rightarrow> string \<Rightarrow> Locator res" where
  "Parse url_Parse raw =
     (if IndexByte raw (CHR 0x00) \<noteq> None then Inl (Errorf ''URL contains NUL'' [])
      else if \<exists>r \<in> set (runes raw). control_rune r
      then Inl (Errorf ''URL contains control character'' [])
      else (case url_Parse raw of
          Inl e \<Rightarrow> Inl e
        | Inr u \<Rightarrow>
           (if u_Scheme u \<noteq> ''s3'' \<or> u_Host u = []
            then Inl (Errorf ''expected s3://<bucket>[/prefix]'' [])
            else if u_Port u \<noteq> [] \<or> Contains (u_Host u) '':''
            then Inl (Errorf ''bucket must not include a port'' [])
            else if u_User u \<noteq> None \<or> u_RawQuery u \<noteq> [] \<or> u_Fragment u \<noteq> []
            then Inl (Errorf ''userinfo, query, and fragment are forbidden'' [])
            else if CHR 0x5C \<in> set (u_Host u) \<or> CHR 0x5C \<in> set (u_EscapedPath u)
            then Inl (Errorf ''backslashes are forbidden'' [])
            else (let escaped = TrimSuffix (TrimPrefix (u_EscapedPath u) ''/'') ''/'' in
              if escaped = [] then Inr \<lparr>loc_Bucket = u_Host u, loc_Prefix = []\<rparr>
              else (case decodeSegments 0 (SplitByte (CHR ''/'') escaped) of
                  Inl e \<Rightarrow> Inl e
                | Inr decoded \<Rightarrow>
                    Inr \<lparr>loc_Bucket = u_Host u, loc_Prefix = JoinByte (CHR ''/'') decoded\<rparr>)))))"

definition ReservedPrefix :: "Locator \<Rightarrow> string" where
  "ReservedPrefix l =
     (if loc_Prefix l = [] then ''.git/git3/'' else loc_Prefix l @ ''/.git/git3/'')"

definition Locator_Key :: "Locator \<Rightarrow> string \<Rightarrow> string" where
  "Locator_Key l relative =
     (if loc_Prefix l = [] then relative else loc_Prefix l @ ''/'' @ relative)"

definition Locator_String :: "Locator \<Rightarrow> string" where
  "Locator_String l =
     (if loc_Prefix l = [] then ''s3://'' @ loc_Bucket l
      else ''s3://'' @ loc_Bucket l @ ''/'' @ loc_Prefix l)"

definition ValidateManagedKey :: "string \<Rightarrow> goerr option" where
  "ValidateManagedKey key =
     firstError
       [failIf (\<not> HasPrefix key ''.git/git3/'') (Errorf ''key outside reserved prefix'' []),
        failIf (\<exists>p \<in> set (SplitByte (CHR ''/'') key). p = [] \<or> p = ''.'' \<or> p = ''..'')
          (Errorf ''invalid key segment'' [])]"

section \<open>Lemmas\<close>

text \<open>A path segment that neither is empty nor walks up or stays, and holds no separator.\<close>

definition clean_segment :: "string \<Rightarrow> bool" where
  "clean_segment p \<longleftrightarrow> p \<noteq> [] \<and> p \<noteq> ''.'' \<and> p \<noteq> ''..'' \<and> CHR ''/'' \<notin> set p"

lemma managed_key_iff:
  "ValidateManagedKey k = None \<longleftrightarrow>
     HasPrefix k ''.git/git3/'' \<and> (\<forall>p \<in> set (SplitByte (CHR ''/'') k). clean_segment p)"
proof -
  have "clean_segment p \<longleftrightarrow> \<not> (p = [] \<or> p = ''.'' \<or> p = ''..'')"
    if "p \<in> set (SplitByte (CHR ''/'') k)" for p
    using SplitByte_parts_no_sep [OF that] by (simp add: clean_segment_def)
  then show ?thesis by (simp add: ValidateManagedKey_def)
qed

lemma decodeSegments_clean:
  "decodeSegments i ps = Inr ds \<Longrightarrow> list_all clean_segment ds \<and> length ds = length ps"
proof (induction ps arbitrary: i ds)
  case (Cons p ps)
  then obtain d es where "decodeSegment i p = Inr d" "decodeSegments (Suc i) ps = Inr es"
    and ds: "ds = d # es"
    by (auto split: sum.splits)
  moreover from this have "clean_segment d"
    by (auto simp: decodeSegment_def clean_segment_def split: if_splits option.splits)
  ultimately show ?case using Cons.IH by auto
qed simp

lemma Split_Join:
  "xs \<noteq> [] \<Longrightarrow> list_all (\<lambda>x. sep \<notin> set x) xs \<Longrightarrow> SplitByte sep (JoinByte sep xs) = xs"
proof (induction xs)
  case (Cons x xs)
  then show ?case
    by (cases xs) (simp_all add: SplitByte_append_sep SplitByte_no_sep)
qed simp

lemma Split_append:
  "SplitByte sep (a @ sep # b) = SplitByte sep a @ SplitByte sep b"
  by (induction a) (auto split: list.splits)

text \<open>The segments of the prefix of a parsed locator are clean.\<close>

definition clean_locator :: "Locator \<Rightarrow> bool" where
  "clean_locator l \<longleftrightarrow>
     loc_Prefix l = [] \<or> (\<forall>p \<in> set (SplitByte (CHR ''/'') (loc_Prefix l)). clean_segment p)"

lemma Parse_clean:
  assumes "Parse up raw = Inr l"
  shows "clean_locator l"
proof -
  from assms consider "loc_Prefix l = []"
    | ps ds where "ps \<noteq> []" "decodeSegments 0 ps = Inr ds"
        "loc_Prefix l = JoinByte (CHR ''/'') ds"
    by (auto simp: Parse_def Let_def split: if_splits sum.splits) (metis SplitByte_not_Nil)
  then show ?thesis
  proof cases
    case (2 ps ds)
    from decodeSegments_clean [OF 2(2)] \<open>ps \<noteq> []\<close>
    have ds: "list_all clean_segment ds" "ds \<noteq> []" by auto
    then have "SplitByte (CHR ''/'') (loc_Prefix l) = ds"
      unfolding 2(3) by (intro Split_Join) (auto simp: list_all_iff clean_segment_def)
    with ds show ?thesis by (auto simp: clean_locator_def list_all_iff)
  qed (simp add: clean_locator_def)
qed

lemma Key_reserved:
  assumes "ValidateManagedKey k = None"
  shows "HasPrefix (Locator_Key l k) (ReservedPrefix l)"
proof -
  from assms obtain t where "k = ''.git/git3/'' @ t"
    by (auto simp: managed_key_iff HasPrefix_iff)
  then show ?thesis by (simp add: Locator_Key_def ReservedPrefix_def HasPrefix_def)
qed

lemma Key_clean:
  assumes "ValidateManagedKey k = None" "clean_locator l"
  shows "\<forall>p \<in> set (SplitByte (CHR ''/'') (Locator_Key l k)). clean_segment p"
  using assms by (auto simp: managed_key_iff Locator_Key_def clean_locator_def Split_append)

section \<open>Properties\<close>

text \<open>
  C39: a managed key stays inside the repository's reserved prefix. Under a locator that was
  parsed from a URL, the object key of a managed key starts with the reserved prefix, none of
  its segments is empty, \<^verbatim>\<open>.\<close> or \<^verbatim>\<open>..\<close>, and different managed keys have different object keys.
\<close>

theorem managed_key_contained:
  assumes "Parse url_Parse raw = Inr l" and "ValidateManagedKey k = None"
  shows "HasPrefix (Locator_Key l k) (ReservedPrefix l) \<and>
    (\<forall>p \<in> set (SplitByte (CHR ''/'') (Locator_Key l k)). clean_segment p) \<and>
    (\<forall>k'. Locator_Key l k' = Locator_Key l k \<longrightarrow> k' = k)"
  using Key_reserved [OF assms(2)] Key_clean [OF assms(2) Parse_clean [OF assms(1)]]
  by (auto simp: Locator_Key_def)

definition sample_url :: "string \<Rightarrow> URL res" where
  "sample_url raw = Inr \<lparr>u_Scheme = ''s3'', u_Host = ''bucket'', u_Port = [], u_User = None,
     u_RawQuery = [], u_Fragment = [], u_EscapedPath = ''/team/repo%20one''\<rparr>"

theorem managed_key_contained_witness:
  "HasPrefix (Locator_Key \<lparr>loc_Bucket = ''bucket'', loc_Prefix = ''team/repo one''\<rparr> ''.git/git3/HEAD'')
     ''team/repo one/.git/git3/''"
proof -
  have parse: "Parse sample_url ''s3://bucket/team/repo%20one'' =
      Inr \<lparr>loc_Bucket = ''bucket'', loc_Prefix = ''team/repo one''\<rparr>" by code_simp
  have key: "ValidateManagedKey ''.git/git3/HEAD'' = None" by code_simp
  from managed_key_contained [OF parse key] show ?thesis by (simp add: ReservedPrefix_def)
qed

end
