(* ===== verification/Git3_Model.thy ===== *)
theory Git3_Model
  imports Git3_Locator
begin

text \<open>
  The remote data model and its validation (\<^verbatim>\<open>src/internal/model/model.go\<close>): the records of
  the HEAD document, transactions, log pages, packsets, snapshots, cursors and GC plans, their
  \<^verbatim>\<open>Validate\<close> methods, and \<^verbatim>\<open>Apply\<close>, which replays transactions on a ref map.

  Two things the methods call are code outside the repository and are arguments here, grouped in
  the record \<open>ident\<close>: \<open>uuid_Parse\<close> is the canonical spelling \<^verbatim>\<open>u.String()\<close> of the UUID that
  the package \<^verbatim>\<open>google/uuid\<close> reads in a string, if any, and \<open>tail_size\<close> is the length of
  \<^verbatim>\<open>json.Marshal\<close> of a log tail, \<^const>\<open>None\<close> when it fails.
\<close>

section \<open>Data\<close>

definition MaxHead :: nat where "MaxHead = 2 * 2 ^ 20"
definition MaxTransaction :: nat where "MaxTransaction = 64 * 2 ^ 20"
definition MaxLogPage :: nat where "MaxLogPage = 128 * 2 ^ 20"
definition MaxSnapshot :: nat where "MaxSnapshot = 128 * 2 ^ 20"
definition MaxPackset :: nat where "MaxPackset = 64 * 2 ^ 20"
definition MaxRefs :: nat where "MaxRefs = 100000"

record ObjectRef =
  or_Key :: string
  or_Size :: u64
  or_SHA256 :: string

record StoragePolicy =
  sp_ServerSideEncryption :: string
  sp_KMSKeyID :: "string option"
  sp_BucketKeyEnabled :: "bool option"

record SnapshotPointer =
  snp_SnapshotID :: string
  snp_Generation :: u64
  snp_TransactionID :: "string option"
  snp_Object :: ObjectRef

record PacksetPointer =
  psp_PacksetID :: string
  psp_Generation :: u64
  psp_TransactionID :: "string option"
  psp_Object :: ObjectRef

record PagePointer =
  pp_PageID :: string
  pp_FirstGeneration :: u64
  pp_LastGeneration :: u64
  pp_Object :: ObjectRef

record Update =
  up_Ref :: string
  up_Old :: "string option"
  up_New :: "string option"
  up_Kind :: string

record ObjectData =
  od_Object :: ObjectRef
  od_GitPackChecksum :: string
  od_Thin :: bool
  od_BaseGeneration :: u64
  od_BaseTransactionID :: "string option"

record Transaction =
  tx_FormatVersion :: int
  tx_RepositoryID :: string
  tx_ObjectFormat :: string
  tx_Generation :: u64
  tx_TransactionID :: string
  tx_ParentGeneration :: u64
  tx_ParentTransactionID :: "string option"
  tx_CreatedAt :: string
  tx_WriterVersion :: string
  tx_Updates :: "Update list"
  tx_ObjectData :: "ObjectData option"

record Envelope =
  env_Descriptor :: ObjectRef
  env_Transaction :: Transaction

record Log =
  log_FloorGeneration :: u64
  log_FloorTransactionID :: "string option"
  log_TipPage :: "PagePointer option"
  log_Tail :: "Envelope list option"

record GCBarrier =
  gcb_PlanID :: string
  gcb_CreatedAt :: string
  gcb_Plan :: ObjectRef

record Head =
  h_FormatVersion :: int
  h_RequiredFeatures :: "string list option"
  h_RepositoryID :: string
  h_ObjectFormat :: string
  h_LogicalGeneration :: u64
  h_TransactionID :: "string option"
  h_ManifestRevision :: u64
  h_PublicationID :: string
  h_HeadSymref :: "string option"
  h_StoragePolicy :: StoragePolicy
  h_RefSnapshot :: SnapshotPointer
  h_Packset :: PacksetPointer
  h_Log :: Log
  h_GCBarrier :: "GCBarrier option"
  h_Extra :: "(string, bytes) fmap"

text \<open>\<^verbatim>\<open>PagePrevious\<close> has the fields of \<^verbatim>\<open>PagePointer\<close>, and the code copies between the two.\<close>

type_synonym PagePrevious = PagePointer

record LogPage =
  lp_FormatVersion :: int
  lp_RepositoryID :: string
  lp_PageID :: string
  lp_Previous :: "PagePrevious option"
  lp_BaseGeneration :: u64
  lp_BaseTransactionID :: "string option"
  lp_FirstGeneration :: u64
  lp_LastGeneration :: u64
  lp_Transactions :: "Envelope list"

record PackEntry =
  pe_GitPackChecksum :: string
  pe_ObjectCount :: u64
  pe_Pack :: ObjectRef
  pe_Index :: ObjectRef

record PackLevel =
  pl_Level :: u64
  pl_Packs :: "PackEntry list"

record Packset =
  ps_FormatVersion :: int
  ps_RepositoryID :: string
  ps_ObjectFormat :: string
  ps_PacksetID :: string
  ps_Generation :: u64
  ps_TransactionID :: "string option"
  ps_Levels :: "PackLevel list option"

record Snapshot =
  sn_RepositoryID :: string
  sn_ObjectFormat :: string
  sn_Generation :: u64
  sn_TransactionID :: "string option"
  sn_Refs :: refs

record Cursor =
  cu_FormatVersion :: int
  cu_RepositoryID :: string
  cu_ObjectFormat :: string
  cu_LogicalGeneration :: u64
  cu_TransactionID :: "string option"
  cu_LastPublicationID :: string
  cu_LastHeadETag :: string
  cu_CachedRefsSHA256 :: string

record GCCandidate =
  gcc_Key :: string
  gcc_Size :: u64
  gcc_ETag :: string
  gcc_LastModified :: string
  gcc_Category :: string

record GCPlan =
  gcp_FormatVersion :: int
  gcp_PlanID :: string
  gcp_RepositoryID :: string
  gcp_SourcePublicationID :: string
  gcp_SourceETag :: string
  gcp_Cutoff :: string
  gcp_Candidates :: "GCCandidate list"

record ident =
  uuid_Parse :: "string \<Rightarrow> string option"
  tail_size :: "Envelope list \<Rightarrow> nat option"

section \<open>Elementary checks\<close>

definition ObjectFormatGuess :: "ObjectData \<Rightarrow> string" where
  "ObjectFormatGuess d = (if length (od_GitPackChecksum d) = 64 then ''sha256'' else ''sha1'')"

definition ptrEqual :: "string option \<Rightarrow> string option \<Rightarrow> bool" where
  "ptrEqual a b \<longleftrightarrow> (a = None \<and> b = None) \<or> (a \<noteq> None \<and> b \<noteq> None \<and> the a = the b)"

definition validUUID :: "ident \<Rightarrow> string \<Rightarrow> bool" where
  "validUUID X s \<longleftrightarrow> (case uuid_Parse X s of None \<Rightarrow> False | Some t \<Rightarrow> t = s)"

text \<open>The regular expression \<^verbatim>\<open>^[0-9a-f]+$\<close>.\<close>

definition hexLower :: "string \<Rightarrow> bool" where
  "hexLower s \<longleftrightarrow> s \<noteq> [] \<and> list_all is_hex_lower s"

definition ValidOID :: "string \<Rightarrow> string \<Rightarrow> bool" where
  "ValidOID s format =
     (if format = ''sha256'' then length s = 64 \<and> hexLower s
      else if format \<noteq> ''sha1'' then False
      else length s = 40 \<and> hexLower s)"

definition validateObject :: "ObjectRef \<Rightarrow> goerr option" where
  "validateObject r =
     firstError
       [ValidateManagedKey (or_Key r),
        failIf (length (or_SHA256 r) \<noteq> 64 \<or> \<not> hexLower (or_SHA256 r))
          (Errorf ''bad SHA-256 for %s'' [or_Key r])]"

text \<open>
  \<^verbatim>\<open>time.Parse\<close> with the layout \<^verbatim>\<open>2006-01-02T15:04:05Z\<close>, followed by the test that formatting
  the result gives the string back. \<^verbatim>\<open>time.Parse\<close> also reads a fraction of a second or a
  one-digit hour, and formatting never writes them, so exactly the strings of this shape with a
  real date and time of day pass both.
\<close>

definition daysIn :: "nat \<Rightarrow> nat \<Rightarrow> nat" where
  "daysIn y m =
     (if m = 2 then (if y mod 4 = 0 \<and> (y mod 100 \<noteq> 0 \<or> y mod 400 = 0) then 29 else 28)
      else if m = 4 \<or> m = 6 \<or> m = 9 \<or> m = 11 then 30 else 31)"

definition field_at :: "string \<Rightarrow> nat \<Rightarrow> nat \<Rightarrow> nat" where
  "field_at s i n = undec 0 (take n (drop i s))"

definition validTime :: "string \<Rightarrow> bool" where
  "validTime s \<longleftrightarrow>
     length s = 20 \<and>
     s ! 4 = CHR ''-'' \<and> s ! 7 = CHR ''-'' \<and> s ! 10 = CHR ''T'' \<and> s ! 13 = CHR '':'' \<and>
     s ! 16 = CHR '':'' \<and> s ! 19 = CHR ''Z'' \<and>
     list_all (\<lambda>i. is_digit (s ! i)) [0, 1, 2, 3, 5, 6, 8, 9, 11, 12, 14, 15, 17, 18] \<and>
     (let y = field_at s 0 4; mo = field_at s 5 2; d = field_at s 8 2 in
       1 \<le> mo \<and> mo \<le> 12 \<and> 1 \<le> d \<and> d \<le> daysIn y mo) \<and>
     field_at s 11 2 < 24 \<and> field_at s 14 2 < 60 \<and> field_at s 17 2 < 60"

definition bad_ref_rune :: "nat \<Rightarrow> bool" where
  "bad_ref_rune r \<longleftrightarrow>
     r < 0x20 \<or> r = 0x7f \<or> r \<in> set (map of_char ('' ~^:?*['' @ [CHR 0x5C]))"

definition validRefBasic :: "string \<Rightarrow> bool" where
  "validRefBasic s =
     (if \<not> HasPrefix s ''refs/'' \<or> length s \<le> 5 \<or> HasSuffix s ''/'' \<or> HasSuffix s ''.'' \<or>
         Contains s ''//'' \<or> Contains s ''..'' \<or> Contains s [CHR ''@'', CHR 0x7B] then False
      else if \<exists>p \<in> set (SplitByte (CHR ''/'') s).
                p = [] \<or> HasPrefix p ''.'' \<or> HasSuffix p ''.lock'' then False
      else if \<exists>r \<in> set (runes s). bad_ref_rune r then False
      else True)"

section \<open>Validation methods\<close>

fun checkUpdates :: "string \<Rightarrow> string \<Rightarrow> Update list \<Rightarrow> goerr option" where
  "checkUpdates format prev [] = None"
| "checkUpdates format prev (u # us) =
     firstError
       [failIf (\<not> validRefBasic (up_Ref u) \<or> up_Ref u \<le> prev)
          (Errorf ''invalid or unsorted ref %q'' [up_Ref u]),
        failIf (up_Old u \<noteq> None \<and> \<not> ValidOID (the (up_Old u)) format)
          (Errorf ''invalid old oid'' []),
        failIf (up_New u \<noteq> None \<and> \<not> ValidOID (the (up_New u)) format)
          (Errorf ''invalid new oid'' []),
        (if up_Kind u = ''create'' then
           failIf (up_Old u \<noteq> None \<or> up_New u = None) (Errorf ''invalid create'' [])
         else if up_Kind u = ''delete'' then
           failIf (up_Old u = None \<or> up_New u \<noteq> None) (Errorf ''invalid delete'' [])
         else if up_Kind u = ''fast-forward'' \<or> up_Kind u = ''force'' then
           failIf (up_Old u = None \<or> up_New u = None) (Errorf ''invalid update'' [])
         else Some (Errorf ''invalid update kind'' [])),
        checkUpdates format (up_Ref u) us]"

definition Transaction_Validate :: "ident \<Rightarrow> Transaction \<Rightarrow> goerr option" where
  "Transaction_Validate X t =
     firstError
       [failIf (tx_FormatVersion t \<noteq> 1 \<or> \<not> validUUID X (tx_RepositoryID t) \<or>
                \<not> validUUID X (tx_TransactionID t) \<or>
                (tx_ObjectFormat t \<noteq> ''sha1'' \<and> tx_ObjectFormat t \<noteq> ''sha256'') \<or>
                tx_Generation t \<noteq> tx_ParentGeneration t + 1 \<or>
                \<not> validTime (tx_CreatedAt t) \<or>
                length (tx_Updates t) = 0 \<or> length (tx_Updates t) > MaxRefs)
          (Errorf ''invalid transaction header'' []),
        failIf (tx_Generation t = 1 \<and> tx_ParentTransactionID t \<noteq> None)
          (Errorf ''generation one parent must be null'' []),
        failIf (tx_Generation t > 1 \<and>
                (tx_ParentTransactionID t = None \<or>
                 \<not> validUUID X (the (tx_ParentTransactionID t))))
          (Errorf ''invalid parent transaction'' []),
        checkUpdates (tx_ObjectFormat t) [] (tx_Updates t),
        (case tx_ObjectData t of
           None \<Rightarrow> None
         | Some d \<Rightarrow>
            firstError
              [validateObject (od_Object d),
               failIf (\<not> ValidOID (od_GitPackChecksum d) (tx_ObjectFormat t) \<or> \<not> od_Thin d)
                 (Errorf ''invalid WAL pack'' []),
               failIf (od_BaseGeneration d \<noteq> tx_ParentGeneration t \<or>
                       \<not> ptrEqual (od_BaseTransactionID d) (tx_ParentTransactionID t))
                 (Errorf ''invalid WAL base'' [])])]"

definition StoragePolicy_Validate :: "StoragePolicy \<Rightarrow> goerr option" where
  "StoragePolicy_Validate p =
     (if sp_ServerSideEncryption p = ''inherit'' \<or> sp_ServerSideEncryption p = ''AES256'' then
        failIf (sp_KMSKeyID p \<noteq> None \<or> sp_BucketKeyEnabled p \<noteq> None)
          (Errorf ''KMS fields require aws:kms'' [])
      else if sp_ServerSideEncryption p = ''aws:kms'' then None
      else Some (Errorf ''invalid encryption policy'' []))"

text \<open>
  A generation and its transaction ID agree: null at generation zero, a UUID above it. Three
  tests of \<^verbatim>\<open>Head.Validate\<close> and one of \<^verbatim>\<open>Packset.Validate\<close> spell this condition out.
\<close>

definition bad_generation_id :: "ident \<Rightarrow> u64 \<Rightarrow> string option \<Rightarrow> bool" where
  "bad_generation_id X g t \<longleftrightarrow>
     g = 0 \<and> t \<noteq> None \<or> g > 0 \<and> (t = None \<or> \<not> validUUID X (the t))"

text \<open>
  The loop over \<^verbatim>\<open>h.Log.Tail\<close>: \<open>first\<close> is \<^verbatim>\<open>i == 0\<close>, and the result is the final
  \<^verbatim>\<open>(prevGen, prevID)\<close>.
\<close>

fun checkTail ::
  "ident \<Rightarrow> bool \<Rightarrow> bool \<Rightarrow> u64 \<Rightarrow> string option \<Rightarrow> Envelope list \<Rightarrow> (u64 \<times> string option) res"
where
  "checkTail X hasTip first prevGen prevID [] = Inr (prevGen, prevID)"
| "checkTail X hasTip first prevGen prevID (e # es) =
     (let tx = env_Transaction e in
      case Transaction_Validate X tx of
        Some err \<Rightarrow> Inl err
      | None \<Rightarrow>
         (if tx_Generation tx \<noteq> prevGen + 1 \<or>
             (\<not> (hasTip \<and> first) \<and> \<not> ptrEqual (tx_ParentTransactionID tx) prevID)
          then Inl (Errorf ''tail chain gap'' [])
          else checkTail X hasTip False (tx_Generation tx) (Some (tx_TransactionID tx)) es))"

definition checkTipPage :: "ident \<Rightarrow> Head \<Rightarrow> goerr option" where
  "checkTipPage X h = (case log_TipPage (h_Log h) of
      None \<Rightarrow> None
    | Some p \<Rightarrow>
       firstError
         [failIf (\<not> validUUID X (pp_PageID p) \<or> pp_FirstGeneration p > pp_LastGeneration p \<or>
                  pp_LastGeneration p > h_LogicalGeneration h)
            (Errorf ''invalid tip page'' []),
          validateObject (pp_Object p)])"

text \<open>\<^verbatim>\<open>Head.Validate\<close> from the version test to the tests of the log tail's size.\<close>

definition Head_Validate_fields :: "ident \<Rightarrow> Head \<Rightarrow> goerr option" where
  "Head_Validate_fields X h =
     firstError
       [failIf (h_FormatVersion h \<noteq> 1) (Wrapf ''%w: formatVersion %d'' [dec_int (h_FormatVersion h)]
             ErrFormatUnsupported),
        failIf (h_RequiredFeatures h = None) (Errorf ''requiredFeatures must not be null'' []),
        failIf (the (h_RequiredFeatures h) \<noteq> [])
          (Wrapf ''%w: required feature %q'' (take 1 (the (h_RequiredFeatures h)))
             ErrFormatUnsupported),
        failIf (\<not> validUUID X (h_RepositoryID h) \<or> \<not> validUUID X (h_PublicationID h))
          (Errorf ''invalid repository/publication UUID'' []),
        failIf (h_ObjectFormat h \<noteq> ''sha1'' \<and> h_ObjectFormat h \<noteq> ''sha256'')
          (Wrapf ''%w: object format %q'' [h_ObjectFormat h] ErrFormatUnsupported),
        failIf (h_ManifestRevision h < 1) (Errorf ''manifest revision must be positive'' []),
        (if h_LogicalGeneration h = 0 then
           failIf (h_TransactionID h \<noteq> None \<or> h_HeadSymref h \<noteq> None \<or>
                   snp_TransactionID (h_RefSnapshot h) \<noteq> None \<or>
                   psp_TransactionID (h_Packset h) \<noteq> None \<or>
                   log_FloorTransactionID (h_Log h) \<noteq> None)
             (Errorf ''generation-zero transaction fields must be null'' [])
         else
           failIf (h_TransactionID h = None \<or> \<not> validUUID X (the (h_TransactionID h)))
             (Errorf ''invalid tip transaction'' [])),
        failIf (\<not> validUUID X (snp_SnapshotID (h_RefSnapshot h)) \<or>
                \<not> validUUID X (psp_PacksetID (h_Packset h)))
          (Errorf ''invalid manifest UUID'' []),
        failIf (bad_generation_id X (snp_Generation (h_RefSnapshot h))
                  (snp_TransactionID (h_RefSnapshot h)))
          (Errorf ''invalid snapshot transaction'' []),
        failIf (bad_generation_id X (psp_Generation (h_Packset h)) (psp_TransactionID (h_Packset h)))
          (Errorf ''invalid packset transaction'' []),
        failIf (bad_generation_id X (log_FloorGeneration (h_Log h))
                  (log_FloorTransactionID (h_Log h)))
          (Errorf ''invalid log floor transaction'' []),
        validateObject (snp_Object (h_RefSnapshot h)),
        validateObject (psp_Object (h_Packset h)),
        failIf (psp_Generation (h_Packset h) \<noteq> log_FloorGeneration (h_Log h) \<or>
                \<not> ptrEqual (psp_TransactionID (h_Packset h)) (log_FloorTransactionID (h_Log h)))
          (Errorf ''packset/log floor mismatch'' []),
        failIf (snp_Generation (h_RefSnapshot h) < log_FloorGeneration (h_Log h) \<or>
                snp_Generation (h_RefSnapshot h) > h_LogicalGeneration h)
          (Errorf ''snapshot generation outside live range'' []),
        failIf (h_HeadSymref h \<noteq> None \<and> \<not> HasPrefix (the (h_HeadSymref h)) ''refs/heads/'')
          (Errorf ''invalid HEAD symref'' []),
        checkTipPage X h,
        failIf (length (case_option [] id (log_Tail (h_Log h))) > 32)
          (Errorf ''log tail exceeds 32 records'' []),
        failIf (log_Tail (h_Log h) = None) (Errorf ''log tail must not be null'' []),
        failIf (case tail_size X (the (log_Tail (h_Log h))) of None \<Rightarrow> True | Some n \<Rightarrow> n > 2 ^ 20)
          (Errorf ''log tail exceeds 1 MiB'' [])]"

text \<open>The tests after the loop over the tail.\<close>

definition Head_Validate_end :: "ident \<Rightarrow> Head \<Rightarrow> u64 \<Rightarrow> string option \<Rightarrow> goerr option" where
  "Head_Validate_end X h prevGen prevID =
     firstError
       [failIf (log_TipPage (h_Log h) = None \<and>
                (prevGen \<noteq> h_LogicalGeneration h \<or> \<not> ptrEqual prevID (h_TransactionID h)))
          (Errorf ''log does not end at HEAD tip'' []),
        failIf (log_TipPage (h_Log h) \<noteq> None \<and> the (log_Tail (h_Log h)) = [] \<and>
                pp_LastGeneration (the (log_TipPage (h_Log h))) \<noteq> h_LogicalGeneration h)
          (Errorf ''tip page does not reach HEAD'' []),
        failIf (log_TipPage (h_Log h) \<noteq> None \<and> the (log_Tail (h_Log h)) \<noteq> [] \<and>
                \<not> ptrEqual prevID (h_TransactionID h))
          (Errorf ''tail does not end at HEAD'' []),
        (case h_GCBarrier h of
           None \<Rightarrow> None
         | Some b \<Rightarrow>
            firstError
              [failIf (\<not> validUUID X (gcb_PlanID b) \<or> \<not> validTime (gcb_CreatedAt b))
                 (Errorf ''invalid GC barrier'' []),
               validateObject (gcb_Plan b)]),
        StoragePolicy_Validate (h_StoragePolicy h)]"

definition Head_Validate :: "ident \<Rightarrow> Head \<Rightarrow> goerr option" where
  "Head_Validate X h =
     (case Head_Validate_fields X h of
        Some e \<Rightarrow> Some e
      | None \<Rightarrow>
         (let tip = log_TipPage (h_Log h);
              prevGen = (case tip of None \<Rightarrow> log_FloorGeneration (h_Log h)
                                   | Some p \<Rightarrow> pp_LastGeneration p) in
          case (case tip of None \<Rightarrow> None | Some p \<Rightarrow> validateObject (pp_Object p)) of
            Some e \<Rightarrow> Some e
          | None \<Rightarrow>
             (case checkTail X (tip \<noteq> None) True prevGen (log_FloorTransactionID (h_Log h))
                     (the (log_Tail (h_Log h))) of
                Inl e \<Rightarrow> Some e
              | Inr (g, i) \<Rightarrow> Head_Validate_end X h g i)))"

fun checkPacks :: "string \<Rightarrow> string \<Rightarrow> PackEntry list \<Rightarrow> goerr option" where
  "checkPacks format prev [] = None"
| "checkPacks format prev (e # es) =
     firstError
       [failIf (\<not> ValidOID (pe_GitPackChecksum e) format \<or> pe_GitPackChecksum e \<le> prev)
          (Errorf ''invalid pack checksum order'' []),
        validateObject (pe_Pack e),
        validateObject (pe_Index e),
        failIf (or_Key (pe_Pack e) \<noteq> ''.git/git3/packs/pack-'' @ pe_GitPackChecksum e @ ''.pack'' \<or>
                or_Key (pe_Index e) \<noteq> ''.git/git3/packs/pack-'' @ pe_GitPackChecksum e @ ''.idx'')
          (Errorf ''pack key/checksum mismatch'' []),
        checkPacks format (pe_GitPackChecksum e) es]"

text \<open>\<^verbatim>\<open>int64(l.Level)\<close> reads the level as a signed number.\<close>

fun checkLevels :: "string \<Rightarrow> int \<Rightarrow> PackLevel list \<Rightarrow> goerr option" where
  "checkLevels format lastLevel [] = None"
| "checkLevels format lastLevel (l # ls) =
     firstError
       [failIf (sint (pl_Level l) \<le> lastLevel) (Errorf ''unsorted levels'' []),
        checkPacks format [] (pl_Packs l),
        checkLevels format (sint (pl_Level l)) ls]"

definition Packset_Validate :: "ident \<Rightarrow> Packset \<Rightarrow> goerr option" where
  "Packset_Validate X p =
     firstError
       [failIf (ps_FormatVersion p \<noteq> 1 \<or> \<not> validUUID X (ps_RepositoryID p) \<or>
                \<not> validUUID X (ps_PacksetID p) \<or>
                (ps_ObjectFormat p \<noteq> ''sha1'' \<and> ps_ObjectFormat p \<noteq> ''sha256''))
          (Errorf ''invalid packset header'' []),
        failIf (bad_generation_id X (ps_Generation p) (ps_TransactionID p))
          (Errorf ''invalid packset transaction'' []),
        failIf (ps_Levels p = None) (Errorf ''null packset levels'' []),
        checkLevels (ps_ObjectFormat p) (-1) (the (ps_Levels p))]"

fun checkCandidates :: "string \<Rightarrow> GCCandidate list \<Rightarrow> goerr option" where
  "checkCandidates prev [] = None"
| "checkCandidates prev (c # cs) =
     firstError
       [failIf (gcc_Key c \<le> prev \<or> gcc_ETag c = [] \<or> \<not> validTime (gcc_LastModified c))
          (Errorf ''invalid GC candidate'' []),
        ValidateManagedKey (gcc_Key c),
        checkCandidates (gcc_Key c) cs]"

definition GCPlan_Validate :: "ident \<Rightarrow> GCPlan \<Rightarrow> goerr option" where
  "GCPlan_Validate X p =
     firstError
       [failIf (gcp_FormatVersion p \<noteq> 1 \<or> \<not> validUUID X (gcp_PlanID p) \<or>
                \<not> validUUID X (gcp_RepositoryID p) \<or> \<not> validUUID X (gcp_SourcePublicationID p) \<or>
                gcp_SourceETag p = [] \<or> \<not> validTime (gcp_Cutoff p) \<or>
                length (gcp_Candidates p) > MaxRefs)
          (Errorf ''invalid GC plan header'' []),
        checkCandidates [] (gcp_Candidates p)]"

section \<open>Replaying transactions\<close>

text \<open>
  \<^verbatim>\<open>Apply\<close> changes the caller's map in place, also when it stops at a mismatch: the result is
  the map as it is left and the error, if any.
\<close>

definition old_mismatch :: "refs \<Rightarrow> Update \<Rightarrow> bool" where
  "old_mismatch refs u \<longleftrightarrow>
     (up_Old u = None \<and> fmlookup refs (up_Ref u) \<noteq> None) \<or>
     (up_Old u \<noteq> None \<and>
      (fmlookup refs (up_Ref u) = None \<or> fmlookup refs (up_Ref u) \<noteq> up_Old u))"

fun applyUpdates :: "refs \<Rightarrow> Update list \<Rightarrow> refs \<times> goerr option" where
  "applyUpdates refs [] = (refs, None)"
| "applyUpdates refs (u # us) =
     (if old_mismatch refs u
      then (refs, Some (Errorf ''old value mismatch for %s'' [up_Ref u]))
      else applyUpdates (fmput (up_Ref u) (up_New u) refs) us)"

fun Apply :: "refs \<Rightarrow> Transaction list \<Rightarrow> refs \<times> goerr option" where
  "Apply refs [] = (refs, None)"
| "Apply refs (tx # txs) =
     (case applyUpdates refs (tx_Updates tx) of
        (refs', Some e) \<Rightarrow> (refs', Some e)
      | (refs', None) \<Rightarrow> Apply refs' txs)"

definition SortedRefs :: "refs \<Rightarrow> string list" where
  "SortedRefs refs = sorted_keys refs"

section \<open>Lemmas\<close>

lemma ptrEqual_iff [simp]: "ptrEqual a b \<longleftrightarrow> a = b"
  by (cases a; cases b) (auto simp: ptrEqual_def)

lemma old_mismatch_iff [simp]: "old_mismatch refs u \<longleftrightarrow> fmlookup refs (up_Ref u) \<noteq> up_Old u"
  by (cases "up_Old u") (auto simp: old_mismatch_def)

lemma validUUID_iff: "validUUID X s \<longleftrightarrow> uuid_Parse X s = Some s"
  by (auto simp: validUUID_def split: option.splits)

lemma bad_generation_id_iff:
  "\<not> bad_generation_id X g t \<longleftrightarrow> (if g = 0 then t = None else t \<noteq> None \<and> validUUID X (the t))"
  by (auto simp: bad_generation_id_def word_gt_0)

lemma validateObject_None:
  "validateObject r = None \<longleftrightarrow>
     ValidateManagedKey (or_Key r) = None \<and> length (or_SHA256 r) = 64 \<and> hexLower (or_SHA256 r)"
  by (simp add: validateObject_def)

text \<open>A ref name that passes \<^const>\<open>validRefBasic\<close> holds no space and no control byte.\<close>

lemma validRefBasic_bytes:
  assumes "validRefBasic s" "c \<in> set s"
  shows "0x20 < (of_char c :: nat)" "(of_char c :: nat) \<noteq> 0x7f"
proof -
  have "\<not> (\<exists>r \<in> set (runes s). bad_ref_rune r)"
    using assms(1) by (simp add: validRefBasic_def split: if_splits)
  moreover have "(\<exists>r \<in> set (runes s). bad_ref_rune r) \<longleftrightarrow> (\<exists>c \<in> set s. bad_ref_rune (of_char c))"
    by (rule bex_runes_ascii) (auto simp: bad_ref_rune_def)
  ultimately have "\<not> bad_ref_rune (of_char c)" using assms(2) by blast
  then show "0x20 < (of_char c :: nat)" "(of_char c :: nat) \<noteq> 0x7f"
    by (auto simp: bad_ref_rune_def)
qed

lemma validRefBasic_prefix: "validRefBasic s \<Longrightarrow> HasPrefix s ''refs/''"
  by (simp add: validRefBasic_def split: if_splits)

subsection \<open>Transactions\<close>

definition update_shape :: "Update \<Rightarrow> bool" where
  "update_shape u \<longleftrightarrow>
     (up_Kind u = ''create'' \<and> up_Old u = None \<and> up_New u \<noteq> None) \<or>
     (up_Kind u = ''delete'' \<and> up_Old u \<noteq> None \<and> up_New u = None) \<or>
     (up_Kind u \<in> {''fast-forward'', ''force''} \<and> up_Old u \<noteq> None \<and> up_New u \<noteq> None)"

definition update_ok :: "string \<Rightarrow> Update \<Rightarrow> bool" where
  "update_ok format u \<longleftrightarrow>
     validRefBasic (up_Ref u) \<and> update_shape u \<and>
     (\<forall>x. up_Old u = Some x \<longrightarrow> ValidOID x format) \<and>
     (\<forall>x. up_New u = Some x \<longrightarrow> ValidOID x format)"

lemma checkUpdates_iff:
  "checkUpdates format prev us = None \<longleftrightarrow>
     sorted_wrt (<) (prev # map up_Ref us) \<and> (\<forall>u \<in> set us. update_ok format u)"
proof (induction us arbitrary: prev)
  case (Cons u us)
  have kind: "(if up_Kind u = ''create'' then
           failIf (up_Old u \<noteq> None \<or> up_New u = None) (Errorf ''invalid create'' [])
         else if up_Kind u = ''delete'' then
           failIf (up_Old u = None \<or> up_New u \<noteq> None) (Errorf ''invalid delete'' [])
         else if up_Kind u = ''fast-forward'' \<or> up_Kind u = ''force'' then
           failIf (up_Old u = None \<or> up_New u = None) (Errorf ''invalid update'' [])
         else Some (Errorf ''invalid update kind'' [])) = None \<longleftrightarrow> update_shape u"
    by (auto simp: update_shape_def)
  have sorted: "sorted_wrt (<) (prev # map up_Ref (u # us)) \<longleftrightarrow>
      prev < up_Ref u \<and> sorted_wrt (<) (up_Ref u # map up_Ref us)"
    by (fastforce dest: less_trans)
  show ?case
    unfolding checkUpdates.simps firstError_Cons_None kind Cons.IH sorted
    by (cases "up_Old u"; cases "up_New u") (auto simp: update_ok_def not_le)
qed simp

lemmas Transaction_Validate_checks =
  Transaction_Validate_def firstError_Cons_None failIf_None de_Morgan_disj not_not

lemma Transaction_Validate_header:
  assumes "Transaction_Validate X t = None"
  shows "validUUID X (tx_RepositoryID t)" "validUUID X (tx_TransactionID t)"
    "tx_Generation t = tx_ParentGeneration t + 1" "tx_Updates t \<noteq> []"
    "length (tx_Updates t) \<le> MaxRefs"
    "tx_ObjectFormat t = ''sha1'' \<or> tx_ObjectFormat t = ''sha256''"
  using assms unfolding Transaction_Validate_checks by auto

lemma Transaction_Validate_updates:
  assumes "Transaction_Validate X t = None"
  shows "sorted_wrt (<) (map up_Ref (tx_Updates t))"
    and "\<And>u. u \<in> set (tx_Updates t) \<Longrightarrow> update_ok (tx_ObjectFormat t) u"
proof -
  from assms have "checkUpdates (tx_ObjectFormat t) [] (tx_Updates t) = None"
    unfolding Transaction_Validate_checks by blast
  then show "sorted_wrt (<) (map up_Ref (tx_Updates t))"
    and "\<And>u. u \<in> set (tx_Updates t) \<Longrightarrow> update_ok (tx_ObjectFormat t) u"
    by (auto simp: checkUpdates_iff)
qed

lemma sorted_wrt_less_distinct: "sorted_wrt (<) (xs :: 'a :: linorder list) \<Longrightarrow> distinct xs"
  by (induction xs) auto

lemma Transaction_Validate_distinct:
  "Transaction_Validate X t = None \<Longrightarrow> distinct (map up_Ref (tx_Updates t))"
  by (blast intro: sorted_wrt_less_distinct Transaction_Validate_updates(1))

subsection \<open>Chains of transactions\<close>

text \<open>
  \<open>chained g i ts\<close>: the transactions continue generation \<open>g\<close> and transaction \<open>i\<close> without
  a gap; \<open>chain_id\<close> is the ID the chain ends at.
\<close>

fun chained :: "u64 \<Rightarrow> string option \<Rightarrow> Transaction list \<Rightarrow> bool" where
  "chained g i [] = True"
| "chained g i (t # ts) \<longleftrightarrow>
     tx_Generation t = g + 1 \<and> tx_ParentTransactionID t = i \<and>
     chained (tx_Generation t) (Some (tx_TransactionID t)) ts"

fun chain_id :: "string option \<Rightarrow> Transaction list \<Rightarrow> string option" where
  "chain_id i [] = i"
| "chain_id i (t # ts) = chain_id (Some (tx_TransactionID t)) ts"

lemma chain_id_append: "chain_id i (ts @ us) = chain_id (chain_id i ts) us"
  by (induction ts arbitrary: i) auto

lemma chain_id_last: "ts \<noteq> [] \<Longrightarrow> chain_id i ts = Some (tx_TransactionID (last ts))"
  by (induction ts arbitrary: i) auto

lemma chained_append:
  "chained g i (ts @ us) \<longleftrightarrow>
     chained g i ts \<and> chained (g + of_nat (length ts)) (chain_id i ts) us"
  by (induction ts arbitrary: g i) (auto simp: algebra_simps)

lemma chained_nth:
  "chained g i ts \<Longrightarrow> n < length ts \<Longrightarrow> tx_Generation (ts ! n) = g + of_nat (Suc n)"
proof (induction ts arbitrary: g i n)
  case (Cons t ts)
  then show ?case by (cases n) (auto simp: algebra_simps)
qed simp

lemma checkTail_chained:
  "checkTail X hasTip False g i es = Inr (g', i') \<Longrightarrow>
     chained g i (map env_Transaction es) \<and> g' = g + of_nat (length es) \<and>
     i' = chain_id i (map env_Transaction es) \<and>
     (\<forall>e \<in> set es. Transaction_Validate X (env_Transaction e) = None)"
proof (induction es arbitrary: g i)
  case (Cons e es)
  let ?t = "env_Transaction e"
  from Cons.prems have v: "Transaction_Validate X ?t = None"
    by (auto simp: Let_def split: option.splits)
  with Cons.prems have g: "tx_Generation ?t = g + 1" "tx_ParentTransactionID ?t = i"
    and rec: "checkTail X hasTip False (tx_Generation ?t) (Some (tx_TransactionID ?t)) es
      = Inr (g', i')"
    by (auto simp: Let_def split: if_splits)
  from Cons.IH [OF rec] v g show ?case by (simp add: algebra_simps)
qed simp

lemma checkTail_True_False:
  "\<not> hasTip \<Longrightarrow> checkTail X hasTip first g i es = checkTail X hasTip False g i es"
  by (cases es) (auto simp: Let_def split: option.splits)

lemma Head_Validate_fields_tail:
  assumes "Head_Validate_fields X h = None"
  obtains es where "log_Tail (h_Log h) = Some es" "length es \<le> 32"
  using assms unfolding Head_Validate_fields_def firstError_Cons_None failIf_None
  by (cases "log_Tail (h_Log h)") auto

lemma Head_Validate_None:
  assumes "Head_Validate X h = None"
  shows "Head_Validate_fields X h = None"
    and "\<exists>g i. checkTail X (log_TipPage (h_Log h) \<noteq> None) True
           (case log_TipPage (h_Log h) of None \<Rightarrow> log_FloorGeneration (h_Log h)
              | Some p \<Rightarrow> pp_LastGeneration p)
           (log_FloorTransactionID (h_Log h)) (the (log_Tail (h_Log h))) = Inr (g, i) \<and>
         Head_Validate_end X h g i = None"
proof -
  show f: "Head_Validate_fields X h = None"
    using assms by (cases "Head_Validate_fields X h") (simp_all add: Head_Validate_def)
  let ?tip = "log_TipPage (h_Log h)"
  have "(case ?tip of None \<Rightarrow> None | Some p \<Rightarrow> validateObject (pp_Object p)) = None"
    using assms f
    by (cases "case ?tip of None \<Rightarrow> None | Some p \<Rightarrow> validateObject (pp_Object p)")
      (simp_all add: Head_Validate_def Let_def)
  with assms f show "\<exists>g i. checkTail X (?tip \<noteq> None) True
           (case ?tip of None \<Rightarrow> log_FloorGeneration (h_Log h) | Some p \<Rightarrow> pp_LastGeneration p)
           (log_FloorTransactionID (h_Log h)) (the (log_Tail (h_Log h))) = Inr (g, i) \<and>
         Head_Validate_end X h g i = None"
    by (auto simp: Head_Validate_def Let_def simp del: checkTail.simps split: sum.splits)
qed

lemma Head_Validate_chained:
  assumes "Head_Validate X h = None" "log_TipPage (h_Log h) = None"
  obtains es where "log_Tail (h_Log h) = Some es" "length es \<le> 32"
    "chained (log_FloorGeneration (h_Log h)) (log_FloorTransactionID (h_Log h))
       (map env_Transaction es)"
    "h_LogicalGeneration h = log_FloorGeneration (h_Log h) + of_nat (length es)"
    "h_TransactionID h = chain_id (log_FloorTransactionID (h_Log h)) (map env_Transaction es)"
    "\<forall>e \<in> set es. Transaction_Validate X (env_Transaction e) = None"
proof -
  obtain es where es: "log_Tail (h_Log h) = Some es" "length es \<le> 32"
    using Head_Validate_None(1) [OF assms(1)] by (rule Head_Validate_fields_tail)
  from Head_Validate_None(2) [OF assms(1)] assms(2) es obtain g i where
    t: "checkTail X False True (log_FloorGeneration (h_Log h))
         (log_FloorTransactionID (h_Log h)) es = Inr (g, i)"
    and e: "Head_Validate_end X h g i = None"
    by auto
  from e assms(2) have gi: "g = h_LogicalGeneration h" "i = h_TransactionID h"
    unfolding Head_Validate_end_def firstError_Cons_None failIf_None by simp_all
  from t have "checkTail X False False (log_FloorGeneration (h_Log h))
      (log_FloorTransactionID (h_Log h)) es = Inr (g, i)"
    using checkTail_True_False [of False X True] by simp
  from checkTail_chained [OF this] gi es that show ?thesis by simp
qed

subsection \<open>Replaying\<close>

lemma applyUpdates_untouched:
  "applyUpdates refs us = (refs', r) \<Longrightarrow> x \<notin> up_Ref ` set us \<Longrightarrow> fmlookup refs' x = fmlookup refs x"
  by (induction us arbitrary: refs) (auto split: if_splits)

text \<open>
  With distinct refs the updates do not interfere: the replay succeeds exactly when every old
  value is the initial one, and then each updated ref has its new value.
\<close>

lemma applyUpdates_iff:
  assumes "distinct (map up_Ref us)"
  shows "snd (applyUpdates refs us) = None \<longleftrightarrow>
    (\<forall>u \<in> set us. fmlookup refs (up_Ref u) = up_Old u)"
  using assms
proof (induction us arbitrary: refs)
  case (Cons u us)
  then have "fmlookup (fmput (up_Ref u) (up_New u) refs) (up_Ref v) = fmlookup refs (up_Ref v)"
    if "v \<in> set us" for v
    using that by (metis distinct.simps(2) fmlookup_fmput image_eqI list.simps(9) list.set_map)
  with Cons show ?case by simp
qed simp

lemma applyUpdates_new:
  assumes "distinct (map up_Ref us)" "applyUpdates refs us = (refs', None)" "u \<in> set us"
  shows "fmlookup refs' (up_Ref u) = up_New u"
  using assms
proof (induction us arbitrary: refs)
  case (Cons v us)
  then have rec: "applyUpdates (fmput (up_Ref v) (up_New v) refs) us = (refs', None)"
    by (auto split: if_splits)
  show ?case
  proof (cases "u = v")
    case True
    then show ?thesis using applyUpdates_untouched [OF rec, of "up_Ref u"] Cons.prems(1) by auto
  next
    case False
    then show ?thesis using Cons.IH [OF _ rec] Cons.prems by auto
  qed
qed simp

lemma Apply_append:
  "Apply refs (ts @ us) =
     (case Apply refs ts of (r, Some e) \<Rightarrow> (r, Some e) | (r, None) \<Rightarrow> Apply r us)"
  by (induction ts arbitrary: refs) (auto split: prod.splits option.splits)

lemma SortedRefs_props:
  "sorted_wrt (<) (SortedRefs refs)" "set (SortedRefs refs) = fmdom' refs"
  "length (SortedRefs refs) = fmlen refs"
  by (simp_all add: SortedRefs_def sorted_keys_sorted length_sorted_keys)

subsection \<open>What a valid HEAD guarantees\<close>

lemma checkTail_valid:
  "checkTail X hasTip first g i es = Inr y \<Longrightarrow> e \<in> set es \<Longrightarrow>
     Transaction_Validate X (env_Transaction e) = None"
  by (induction es arbitrary: first g i) (auto simp: Let_def split: option.splits if_splits)

lemma Head_Validate_tail:
  assumes "Head_Validate X h = None"
  shows "\<exists>es. log_Tail (h_Log h) = Some es \<and> length es \<le> 32 \<and>
    (\<forall>e \<in> set es. Transaction_Validate X (env_Transaction e) = None)"
proof -
  obtain es where "log_Tail (h_Log h) = Some es" "length es \<le> 32"
    using Head_Validate_None(1) [OF assms] by (rule Head_Validate_fields_tail)
  moreover from this Head_Validate_None(2) [OF assms]
  have "\<forall>e \<in> set es. Transaction_Validate X (env_Transaction e) = None"
    by (auto dest: checkTail_valid)
  ultimately show ?thesis by blast
qed

lemma Head_Validate_bounds:
  assumes "Head_Validate X h = None"
  shows "log_FloorGeneration (h_Log h) \<le> snp_Generation (h_RefSnapshot h)"
    "snp_Generation (h_RefSnapshot h) \<le> h_LogicalGeneration h"
    "h_LogicalGeneration h = 0 \<Longrightarrow> h_TransactionID h = None"
    "psp_Generation (h_Packset h) = log_FloorGeneration (h_Log h)"
    "psp_TransactionID (h_Packset h) = log_FloorTransactionID (h_Log h)"
    "validateObject (snp_Object (h_RefSnapshot h)) = None"
    "checkTipPage X h = None"
  using Head_Validate_None(1) [OF assms]
  unfolding Head_Validate_fields_def firstError_Cons_None failIf_None
  by (auto simp: not_less split: if_splits)

lemma checkTipPage_Some:
  assumes "checkTipPage X h = None" "log_TipPage (h_Log h) = Some p"
  shows "validUUID X (pp_PageID p)" "pp_FirstGeneration p \<le> pp_LastGeneration p"
    "pp_LastGeneration p \<le> h_LogicalGeneration h" "validateObject (pp_Object p) = None"
  using assms unfolding checkTipPage_def by (auto simp: not_less)

end
