(* ===== verification/Git3_Snapshot.thy ===== *)
theory Git3_Snapshot
  imports Git3_Model
begin

text \<open>
  Ref snapshots (\<^verbatim>\<open>src/internal/model/snapshot.go\<close>): the line-oriented text that stores the
  ref map at one generation, its printer \<^verbatim>\<open>MarshalText\<close> and its parser \<^verbatim>\<open>ParseSnapshot\<close>.

  The parser reads lines with \<^verbatim>\<open>bufio.Scanner\<close>. Its buffer limit is the limit on the whole text
  and the text ends with a line feed, so the scanner itself never fails; like
  \<^verbatim>\<open>bufio.ScanLines\<close>, \<open>scanLines\<close> drops one carriage return at the end of a line.
\<close>

section \<open>Definitions\<close>

abbreviation LF :: char where "LF \<equiv> CHR 0x0A"
abbreviation CR :: char where "CR \<equiv> CHR 0x0D"
abbreviation SP :: char where "SP \<equiv> CHR 0x20"

definition Fprintln :: "string \<Rightarrow> bytes" where
  "Fprintln s = s @ [LF]"

definition unlines :: "string list \<Rightarrow> bytes" where
  "unlines ls = concat (map Fprintln ls)"

fun marshalRefs :: "string \<Rightarrow> refs \<Rightarrow> string list \<Rightarrow> bytes res" where
  "marshalRefs format refs [] = Inr []"
| "marshalRefs format refs (r # rs) =
     (let oid = the (fmlookup refs r) in
      if \<not> validRefBasic r \<or> \<not> ValidOID oid format then Inl (Errorf ''invalid ref record'' [])
      else (case marshalRefs format refs rs of
          Inl e \<Rightarrow> Inl e
        | Inr b \<Rightarrow> Inr (Fprintln (oid @ '' '' @ r) @ b)))"

text \<open>The lines the printer writes before the ref records.\<close>

definition headerLines :: "Snapshot \<Rightarrow> string list" where
  "headerLines s =
     [''git3-ref-snapshot 1'',
      ''repository '' @ sn_RepositoryID s,
      ''object-format '' @ sn_ObjectFormat s,
      ''generation '' @ dec (unat (sn_Generation s)),
      ''transaction '' @ (case sn_TransactionID s of None \<Rightarrow> ''-'' | Some t \<Rightarrow> t),
      []]"

definition MarshalText :: "ident \<Rightarrow> Snapshot \<Rightarrow> bytes res" where
  "MarshalText X s =
     (if \<not> validUUID X (sn_RepositoryID s) \<or>
         (sn_ObjectFormat s \<noteq> ''sha1'' \<and> sn_ObjectFormat s \<noteq> ''sha256'') \<or>
         fmlen (sn_Refs s) > MaxRefs
      then Inl (Errorf ''invalid snapshot header'' [])
      else if sn_TransactionID s \<noteq> None \<and> \<not> validUUID X (the (sn_TransactionID s))
      then Inl (Errorf ''invalid transaction UUID'' [])
      else (case marshalRefs (sn_ObjectFormat s) (sn_Refs s) (SortedRefs (sn_Refs s)) of
          Inl e \<Rightarrow> Inl e
        | Inr b \<Rightarrow> Inr (unlines (headerLines s) @ b)))"

definition dropCR :: "string \<Rightarrow> string" where
  "dropCR s = (if s \<noteq> [] \<and> last s = CR then butlast s else s)"

definition scanLines :: "bytes \<Rightarrow> string list" where
  "scanLines data =
     (let ps = SplitByte LF data in
      map dropCR (if last ps = [] then butlast ps else ps))"

fun parseRecords :: "string \<Rightarrow> string \<Rightarrow> refs \<Rightarrow> string list \<Rightarrow> refs res" where
  "parseRecords format prev refs [] = Inr refs"
| "parseRecords format prev refs (line # lines) =
     (case IndexByte line SP of
        None \<Rightarrow> Inl (Errorf ''invalid ref record'' [])
      | Some i \<Rightarrow>
         (if i < 1 then Inl (Errorf ''invalid ref record'' [])
          else (let oid = take i line; r = drop (i + 1) line in
            if r \<le> prev \<or> \<not> validRefBasic r \<or> \<not> ValidOID oid format
            then Inl (Errorf ''invalid or unsorted ref'' [])
            else parseRecords format r (fmupd r oid refs) lines)))"

definition pref :: "string \<Rightarrow> string \<Rightarrow> string res" where
  "pref line p =
     (if \<not> HasPrefix line p then Inl (Errorf ''invalid snapshot header'' [])
      else Inr (TrimPrefix line p))"

text \<open>The part of \<^verbatim>\<open>ParseSnapshot\<close> that works on the list of lines.\<close>

definition parseLines :: "ident \<Rightarrow> string list \<Rightarrow> Snapshot res" where
  "parseLines X lines =
     (if length lines < 6 \<or> lines ! 0 \<noteq> ''git3-ref-snapshot 1'' \<or> lines ! 5 \<noteq> []
      then Inl (Errorf ''invalid snapshot grammar'' [])
      else case pref (lines ! 1) ''repository '' of Inl e \<Rightarrow> Inl e | Inr repo \<Rightarrow>
      (case pref (lines ! 2) ''object-format '' of Inl e \<Rightarrow> Inl e | Inr format \<Rightarrow>
      (case pref (lines ! 3) ''generation '' of Inl e \<Rightarrow> Inl e | Inr gs \<Rightarrow>
      (case ParseUint gs 53 of None \<Rightarrow> Inl (Errorf ''strconv.ParseUint'' [gs]) | Some gen \<Rightarrow>
      (case pref (lines ! 4) ''transaction '' of Inl e \<Rightarrow> Inl e | Inr ts \<Rightarrow>
       (let tid = (if ts \<noteq> ''-'' then Some ts else None) in
        if \<not> validUUID X repo \<or> (format \<noteq> ''sha1'' \<and> format \<noteq> ''sha256'') \<or>
           (gen = 0 \<and> tid \<noteq> None) \<or> (gen > 0 \<and> (tid = None \<or> \<not> validUUID X (the tid)))
        then Inl (Errorf ''invalid snapshot header values'' [])
        else (case parseRecords format [] fmempty (drop 6 lines) of Inl e \<Rightarrow> Inl e | Inr refs \<Rightarrow>
          (if fmlen refs > MaxRefs then Inl (Errorf ''too many refs'' [])
           else if gen = 0 \<and> fmlen refs \<noteq> 0
           then Inl (Errorf ''generation-zero snapshot contains refs'' [])
           else Inr \<lparr>sn_RepositoryID = repo, sn_ObjectFormat = format,
                     sn_Generation = of_nat gen, sn_TransactionID = tid,
                     sn_Refs = refs\<rparr>))))))))"

definition ParseSnapshot :: "ident \<Rightarrow> bytes \<Rightarrow> Snapshot res" where
  "ParseSnapshot X data =
     (if length data > MaxSnapshot then Inl (Errorf ''snapshot too large'' [])
      else if data = [] \<or> last data \<noteq> LF then Inl (Errorf ''snapshot must end with LF'' [])
      else parseLines X (scanLines data))"

section \<open>Lines\<close>

definition clean_line :: "string \<Rightarrow> bool" where
  "clean_line s \<longleftrightarrow> LF \<notin> set s \<and> CR \<notin> set s"

lemma unlines_simps [simp]:
  "unlines [] = []" "unlines (l # ls) = Fprintln l @ unlines ls"
  "unlines (as @ bs) = unlines as @ unlines bs"
  by (simp_all add: unlines_def)

lemma dropCR_clean [simp]: "CR \<notin> set s \<Longrightarrow> dropCR s = s"
  by (metis dropCR_def last_in_set)

lemma Split_unlines:
  "list_all (\<lambda>l. LF \<notin> set l) ls \<Longrightarrow> SplitByte LF (unlines ls) = ls @ [[]]"
  by (induction ls) (simp_all add: Fprintln_def SplitByte_append_sep)

lemma scanLines_unlines:
  assumes "list_all clean_line ls"
  shows "scanLines (unlines ls) = ls"
proof -
  from assms have "list_all (\<lambda>l. LF \<notin> set l) ls" "map dropCR ls = ls"
    by (auto simp: clean_line_def list_all_iff map_idI)
  then show ?thesis by (simp add: scanLines_def Split_unlines)
qed

lemma last_unlines: "ls \<noteq> [] \<Longrightarrow> unlines ls \<noteq> [] \<and> last (unlines ls) = LF"
proof (induction ls)
  case (Cons l ls)
  then show ?case by (cases ls) (auto simp: Fprintln_def)
qed simp

section \<open>Ref records\<close>

definition record_line :: "refs \<Rightarrow> string \<Rightarrow> string" where
  "record_line refs r = the (fmlookup refs r) @ '' '' @ r"

lemma ValidOID_props:
  assumes "ValidOID oid format"
  shows "oid \<noteq> []" "SP \<notin> set oid" "LF \<notin> set oid" "CR \<notin> set oid"
proof -
  from assms have h: "oid \<noteq> []" "list_all is_hex_lower oid"
    by (auto simp: ValidOID_def hexLower_def split: if_splits)
  then show "oid \<noteq> []" "SP \<notin> set oid" "LF \<notin> set oid" "CR \<notin> set oid"
    by (auto simp: list_all_iff is_hex_lower_code)
qed

lemma validRefBasic_clean:
  assumes "validRefBasic r"
  shows "clean_line r" "r \<noteq> []"
proof -
  show "clean_line r"
    using validRefBasic_bytes(1) [OF assms, of LF] validRefBasic_bytes(1) [OF assms, of CR]
    by (auto simp: clean_line_def)
  show "r \<noteq> []" using assms by (auto simp: validRefBasic_def split: if_splits)
qed

lemma marshalRefs_Inr:
  "marshalRefs format refs rs = Inr b \<longleftrightarrow>
     (\<forall>r \<in> set rs. validRefBasic r \<and> ValidOID (the (fmlookup refs r)) format) \<and>
     b = unlines (map (record_line refs) rs)"
proof (induction rs arbitrary: b)
  case (Cons r rs)
  show ?case
  proof (cases "marshalRefs format refs rs")
    case (Inl e)
    with Cons.IH have "\<not> (\<forall>r \<in> set rs. validRefBasic r \<and> ValidOID (the (fmlookup refs r)) format)"
      by auto
    with Inl show ?thesis by (auto simp: Let_def)
  next
    case (Inr b')
    with Cons.IH [of b'] show ?thesis by (auto simp: Let_def record_line_def)
  qed
qed auto

lemma parseRecords_record_lines:
  assumes "\<forall>r \<in> set rs. validRefBasic r \<and> ValidOID (the (fmlookup R r)) format"
    and "sorted_wrt (<) (prev # rs)"
  shows "\<exists>m'. parseRecords format prev m (map (record_line R) rs) = Inr m' \<and>
    (\<forall>x. fmlookup m' x = (if x \<in> set rs then Some (the (fmlookup R x)) else fmlookup m x))"
  using assms
proof (induction rs arbitrary: prev m)
  case (Cons r rs)
  let ?oid = "the (fmlookup R r)"
  from Cons have r: "validRefBasic r" "ValidOID ?oid format" "prev < r" by auto
  note oid = ValidOID_props [OF r(2)]
  have "IndexByte (record_line R r) SP = Some (length ?oid)"
    using oid by (simp add: record_line_def IndexByte_append_hit)
  then have "parseRecords format prev m (map (record_line R) (r # rs)) =
      parseRecords format r (fmupd r ?oid m) (map (record_line R) rs)"
    using r oid r(3) [folded not_le] by (simp add: record_line_def Let_def Suc_le_eq)
  moreover obtain m' where
    "parseRecords format r (fmupd r ?oid m) (map (record_line R) rs) = Inr m'"
    "\<forall>x. fmlookup m' x = (if x \<in> set rs then Some (the (fmlookup R x))
       else fmlookup (fmupd r ?oid m) x)"
    using Cons.IH [of r "fmupd r ?oid m"] Cons.prems by auto
  ultimately show ?case by auto
qed simp

section \<open>Round trip\<close>

text \<open>
  What the code relies on of the UUID package: the canonical spelling is 36 characters of
  lower-case hexadecimal digits and hyphens.
\<close>

definition uuid_canonical :: "ident \<Rightarrow> bool" where
  "uuid_canonical X \<longleftrightarrow>
     (\<forall>s t. uuid_Parse X s = Some t \<longrightarrow>
        length t = 36 \<and> (\<forall>c \<in> set t. is_hex_lower c \<or> c = CHR ''-''))"

lemma uuid_clean:
  assumes "uuid_canonical X" "validUUID X s"
  shows "clean_line s" "s \<noteq> ''-''"
proof -
  from assms have "length s = 36" "\<forall>c \<in> set s. is_hex_lower c \<or> c = CHR ''-''"
    by (auto simp: uuid_canonical_def validUUID_iff)
  then show "clean_line s" "s \<noteq> ''-''"
    by (auto simp: clean_line_def is_hex_lower_code)
qed

lemma dec_clean: "clean_line (dec n)"
  by (simp add: clean_line_def dec_char_not is_digit_code)

lemma MarshalText_Inr:
  "MarshalText X s = Inr b \<longleftrightarrow>
     validUUID X (sn_RepositoryID s) \<and>
     (sn_ObjectFormat s = ''sha1'' \<or> sn_ObjectFormat s = ''sha256'') \<and>
     fmlen (sn_Refs s) \<le> MaxRefs \<and>
     (\<forall>t. sn_TransactionID s = Some t \<longrightarrow> validUUID X t) \<and>
     (\<forall>r \<in> set (SortedRefs (sn_Refs s)).
        validRefBasic r \<and> ValidOID (the (fmlookup (sn_Refs s) r)) (sn_ObjectFormat s)) \<and>
     b = unlines (headerLines s @ map (record_line (sn_Refs s)) (SortedRefs (sn_Refs s)))"
proof (cases "marshalRefs (sn_ObjectFormat s) (sn_Refs s) (SortedRefs (sn_Refs s))")
  case (Inl e)
  then have "\<not> (\<forall>r \<in> set (SortedRefs (sn_Refs s)).
        validRefBasic r \<and> ValidOID (the (fmlookup (sn_Refs s) r)) (sn_ObjectFormat s))"
    using marshalRefs_Inr by (metis sum.distinct(1))
  with Inl show ?thesis unfolding MarshalText_def by (simp split: if_splits)
next
  case (Inr rb)
  moreover from this have
    "\<forall>r \<in> set (SortedRefs (sn_Refs s)).
        validRefBasic r \<and> ValidOID (the (fmlookup (sn_Refs s) r)) (sn_ObjectFormat s)"
    "rb = unlines (map (record_line (sn_Refs s)) (SortedRefs (sn_Refs s)))"
    using marshalRefs_Inr by blast+
  ultimately show ?thesis
    unfolding MarshalText_def by (cases "sn_TransactionID s") auto
qed

lemma headerLines_clean:
  assumes "uuid_canonical X" "MarshalText X s = Inr b"
  shows "list_all clean_line (headerLines s)"
proof -
  from assms(2) have h: "validUUID X (sn_RepositoryID s)"
      "sn_ObjectFormat s = ''sha1'' \<or> sn_ObjectFormat s = ''sha256''"
      "\<And>t. sn_TransactionID s = Some t \<Longrightarrow> validUUID X t"
    by (auto simp: MarshalText_Inr)
  have "clean_line (case sn_TransactionID s of None \<Rightarrow> ''-'' | Some t \<Rightarrow> t)"
    using h(3) uuid_clean [OF assms(1)]
    by (cases "sn_TransactionID s") (auto simp: clean_line_def)
  with uuid_clean(1) [OF assms(1) h(1)] h(2) dec_clean [of "unat (sn_Generation s)"]
  show ?thesis by (auto simp: headerLines_def clean_line_def)
qed

lemma record_lines_clean:
  assumes "MarshalText X s = Inr b"
  shows "list_all clean_line (map (record_line (sn_Refs s)) (SortedRefs (sn_Refs s)))"
proof -
  have "clean_line (record_line (sn_Refs s) r)" if "r \<in> set (SortedRefs (sn_Refs s))" for r
  proof -
    from assms that have "validRefBasic r" "ValidOID (the (fmlookup (sn_Refs s) r)) (sn_ObjectFormat s)"
      by (auto simp: MarshalText_Inr)
    with ValidOID_props(3,4) [OF this(2)] validRefBasic_clean(1) [OF this(1)]
    show ?thesis by (simp add: record_line_def clean_line_def)
  qed
  then show ?thesis by (simp add: list_all_iff)
qed

lemma pref_append: "pref (p @ s) p = Inr s"
  by (simp add: pref_def)

lemma parseLines_headerLines:
  assumes "uuid_canonical X" "MarshalText X s = Inr b"
    and "unat (sn_Generation s) < 2 ^ 53"
    and "sn_Generation s = 0 \<longleftrightarrow> sn_TransactionID s = None"
    and recs: "parseRecords (sn_ObjectFormat s) [] fmempty rl = Inr (sn_Refs s)"
    and "sn_Generation s = 0 \<longrightarrow> sn_Refs s = fmempty"
  shows "parseLines X (headerLines s @ rl) = Inr s"
proof -
  let ?tx = "case sn_TransactionID s of None \<Rightarrow> ''-'' | Some t \<Rightarrow> t"
  let ?ls = "headerLines s @ rl"
  have ls: "length ?ls \<ge> 6" "?ls ! 0 = ''git3-ref-snapshot 1''"
    "?ls ! 1 = ''repository '' @ sn_RepositoryID s"
    "?ls ! 2 = ''object-format '' @ sn_ObjectFormat s"
    "?ls ! 3 = ''generation '' @ dec (unat (sn_Generation s))"
    "?ls ! 4 = ''transaction '' @ ?tx" "?ls ! 5 = []" "drop 6 ?ls = rl"
    by (simp_all add: headerLines_def)
  have tid: "(if ?tx \<noteq> ''-'' then Some ?tx else None) = sn_TransactionID s"
    using assms(2) uuid_clean(2) [OF assms(1)]
    by (cases "sn_TransactionID s") (auto simp: MarshalText_Inr)
  have gen: "unat (sn_Generation s) = 0 \<longleftrightarrow> sn_Generation s = 0" by (simp add: unat_eq_0)
  have ok: "\<not> (\<not> validUUID X (sn_RepositoryID s) \<or>
      (sn_ObjectFormat s \<noteq> ''sha1'' \<and> sn_ObjectFormat s \<noteq> ''sha256'') \<or>
      (unat (sn_Generation s) = 0 \<and> sn_TransactionID s \<noteq> None) \<or>
      (unat (sn_Generation s) > 0 \<and>
        (sn_TransactionID s = None \<or> \<not> validUUID X (the (sn_TransactionID s)))))"
    using assms(2,4) gen by (auto simp: MarshalText_Inr)
  have n: "\<not> fmlen (sn_Refs s) > MaxRefs" using assms(2) by (auto simp: MarshalText_Inr)
  have z: "\<not> (unat (sn_Generation s) = 0 \<and> fmlen (sn_Refs s) \<noteq> 0)" using assms(6) gen by auto
  show ?thesis
    unfolding parseLines_def Let_def ls pref_append sum.case tid
      ParseUint_dec [OF assms(3)] option.case recs
    using ls(1) ok n z by simp
qed

lemma MarshalText_Parse:
  assumes "uuid_canonical X" "MarshalText X s = Inr b"
    and "unat (sn_Generation s) < 2 ^ 53"
    and "sn_Generation s = 0 \<longleftrightarrow> sn_TransactionID s = None"
    and "sn_Generation s = 0 \<longrightarrow> sn_Refs s = fmempty" "length b \<le> MaxSnapshot"
  shows "ParseSnapshot X b = Inr s"
proof -
  let ?rs = "SortedRefs (sn_Refs s)" and ?rl = "map (record_line (sn_Refs s)) (SortedRefs (sn_Refs s))"
  note rs = SortedRefs_props [of "sn_Refs s"]
  have b: "b = unlines (headerLines s @ ?rl)" and
    v: "\<forall>r \<in> set ?rs. validRefBasic r \<and> ValidOID (the (fmlookup (sn_Refs s) r)) (sn_ObjectFormat s)"
    using assms(2) by (auto simp: MarshalText_Inr)
  have clean: "list_all clean_line (headerLines s @ ?rl)"
    using headerLines_clean [OF assms(1,2)] record_lines_clean [OF assms(2)] by simp
  have "sorted_wrt (<) ([] # ?rs)"
    using rs(1) v validRefBasic_clean(2) by (auto intro: Nil_less_string)
  with v obtain m where m: "parseRecords (sn_ObjectFormat s) [] fmempty ?rl = Inr m"
    "\<forall>x. fmlookup m x = (if x \<in> set ?rs then Some (the (fmlookup (sn_Refs s) x)) else None)"
    using parseRecords_record_lines [of ?rs "sn_Refs s" "sn_ObjectFormat s" "[]" fmempty] by auto
  then have "m = sn_Refs s"
    using rs(2) by (intro fmap_ext) (auto simp: fmlookup_dom'_iff)
  with m(1) have "parseLines X (headerLines s @ ?rl) = Inr s"
    using assms by (intro parseLines_headerLines) auto
  moreover have "scanLines b = headerLines s @ ?rl" unfolding b using clean by (rule scanLines_unlines)
  moreover have "b \<noteq> [] \<and> last b = LF" unfolding b by (rule last_unlines) (simp add: headerLines_def)
  ultimately show ?thesis using assms(6) by (simp add: ParseSnapshot_def)
qed

section \<open>What the parser accepts\<close>

definition refs_ok :: "string \<Rightarrow> refs \<Rightarrow> bool" where
  "refs_ok format m \<longleftrightarrow>
     (\<forall>r oid. fmlookup m r = Some oid \<longrightarrow> validRefBasic r \<and> ValidOID oid format)"

lemma parseRecords_ok:
  "parseRecords format prev m ls = Inr m' \<Longrightarrow> refs_ok format m \<Longrightarrow> refs_ok format m'"
proof (induction ls arbitrary: prev m)
  case (Cons l ls)
  then obtain i where "IndexByte l SP = Some i" "validRefBasic (drop (i + 1) l)"
    "ValidOID (take i l) format"
    and rec: "parseRecords format (drop (i + 1) l) (fmupd (drop (i + 1) l) (take i l) m) ls = Inr m'"
    by (auto simp: Let_def split: option.splits if_splits)
  with Cons.prems(2) have "refs_ok format (fmupd (drop (i + 1) l) (take i l) m)"
    by (auto simp: refs_ok_def)
  with Cons.IH [OF rec] show ?case .
qed simp

lemma parseLines_Inr:
  assumes "parseLines X ls = Inr s"
  shows "validUUID X (sn_RepositoryID s)"
    "sn_ObjectFormat s = ''sha1'' \<or> sn_ObjectFormat s = ''sha256''"
    "fmlen (sn_Refs s) \<le> MaxRefs" "refs_ok (sn_ObjectFormat s) (sn_Refs s)"
    "unat (sn_Generation s) < 2 ^ 53"
    "sn_Generation s = 0 \<longleftrightarrow> sn_TransactionID s = None"
    "\<And>t. sn_TransactionID s = Some t \<Longrightarrow> validUUID X t"
    "sn_Generation s = 0 \<longrightarrow> sn_Refs s = fmempty"
proof -
  from assms obtain repo format gs gen ts refs where
    gen: "ParseUint gs 53 = Some gen"
    and ok: "validUUID X repo" "format = ''sha1'' \<or> format = ''sha256''"
      "gen = 0 \<longrightarrow> ts = ''-''" "gen > 0 \<longrightarrow> ts \<noteq> ''-'' \<and> validUUID X ts"
    and refs: "parseRecords format [] fmempty (drop 6 ls) = Inr refs" "fmlen refs \<le> MaxRefs"
      "gen = 0 \<longrightarrow> fmlen refs = 0"
    and s: "s = \<lparr>sn_RepositoryID = repo, sn_ObjectFormat = format, sn_Generation = of_nat gen,
        sn_TransactionID = (if ts \<noteq> ''-'' then Some ts else None), sn_Refs = refs\<rparr>"
    unfolding parseLines_def Let_def
    by (auto split: if_splits sum.splits option.splits)
  from ParseUint_bound [OF gen] have "unat (of_nat gen :: u64) = gen"
    by (simp add: unsigned_of_nat take_bit_nat_eq_self)
  moreover from this have "of_nat gen = (0 :: u64) \<longleftrightarrow> gen = 0" by (metis unat_eq_0)
  moreover have "refs_ok format refs" using parseRecords_ok [OF refs(1)] by (simp add: refs_ok_def)
  ultimately show "validUUID X (sn_RepositoryID s)"
    "sn_ObjectFormat s = ''sha1'' \<or> sn_ObjectFormat s = ''sha256''"
    "fmlen (sn_Refs s) \<le> MaxRefs" "refs_ok (sn_ObjectFormat s) (sn_Refs s)"
    "unat (sn_Generation s) < 2 ^ 53"
    "sn_Generation s = 0 \<longleftrightarrow> sn_TransactionID s = None"
    "\<And>t. sn_TransactionID s = Some t \<Longrightarrow> validUUID X t"
    "sn_Generation s = 0 \<longrightarrow> sn_Refs s = fmempty"
    using ok refs ParseUint_bound [OF gen] by (auto simp: s split: if_splits)
qed

lemma ParseSnapshot_Inr_parseLines:
  "ParseSnapshot X b = Inr s \<Longrightarrow> parseLines X (scanLines b) = Inr s"
  by (simp add: ParseSnapshot_def split: if_splits)

text \<open>Line feeds replaced by carriage return and line feed.\<close>

definition crlf :: "bytes \<Rightarrow> bytes" where
  "crlf b = concat (map (\<lambda>c. if c = LF then [CR, LF] else [c]) b)"

lemma crlf_no_LF: "LF \<notin> set l \<Longrightarrow> crlf l = l"
  by (induction l) (auto simp: crlf_def)

lemma crlf_unlines:
  "list_all clean_line ls \<Longrightarrow> crlf (unlines ls) = unlines (map (\<lambda>l. l @ [CR]) ls)"
proof (induction ls)
  case (Cons l ls)
  then have "crlf l = l" by (simp add: crlf_no_LF clean_line_def)
  with Cons show ?case by (simp add: crlf_def Fprintln_def)
qed (simp add: crlf_def)

lemma scanLines_crlf:
  assumes "list_all clean_line ls"
  shows "scanLines (crlf (unlines ls)) = ls"
proof -
  have "list_all (\<lambda>l. LF \<notin> set l) (map (\<lambda>l. l @ [CR]) ls)"
    using assms by (auto simp: list_all_iff clean_line_def)
  then show ?thesis
    by (simp add: crlf_unlines [OF assms] scanLines_def Split_unlines dropCR_def comp_def)
qed

lemma last_crlf_unlines:
  "list_all clean_line ls \<Longrightarrow> ls \<noteq> [] \<Longrightarrow> crlf (unlines ls) \<noteq> [] \<and> last (crlf (unlines ls)) = LF"
  using last_unlines [of "map (\<lambda>l. l @ [CR]) ls"] by (simp add: crlf_unlines)

section \<open>Sample data\<close>

definition sample_uuid :: string where
  "sample_uuid = ''73bcb050-8b53-4e47-a5a4-e661bd5c8faf''"

definition sample_ident :: ident where
  "sample_ident =
     \<lparr>uuid_Parse = (\<lambda>s. if length s = 36 \<and> list_all (\<lambda>c. is_hex_lower c \<or> c = CHR ''-'') s
                      then Some s else None),
      tail_size = (\<lambda>es. Some (1000 * length es))\<rparr>"

definition sample_oid :: string where
  "sample_oid = replicate 40 (CHR ''1'')"

definition sample_snapshot :: Snapshot where
  "sample_snapshot =
     \<lparr>sn_RepositoryID = sample_uuid, sn_ObjectFormat = ''sha1'', sn_Generation = 1,
      sn_TransactionID = Some sample_uuid, sn_Refs = fmap_of_list [(''refs/heads/main'', sample_oid)]\<rparr>"

lemma sample_ident_canonical: "uuid_canonical sample_ident"
  by (auto simp: uuid_canonical_def sample_ident_def list_all_iff split: if_splits)

definition sample_text :: bytes where
  "sample_text = unlines (headerLines sample_snapshot @ [sample_oid @ '' refs/heads/main''])"

lemma sample_checks:
  "validUUID sample_ident sample_uuid" "validRefBasic ''refs/heads/main''"
  "ValidOID sample_oid ''sha1''"
  by code_simp+

lemma sample_keys: "SortedRefs (sn_Refs sample_snapshot) = [''refs/heads/main'']"
  by code_simp

lemma sample_MarshalText: "MarshalText sample_ident sample_snapshot = Inr sample_text"
proof -
  have "fmlen (sn_Refs sample_snapshot) = 1"
    using length_sorted_keys [of "sn_Refs sample_snapshot"] sample_keys
    by (simp add: SortedRefs_def)
  then show ?thesis
    unfolding MarshalText_Inr sample_keys sample_text_def
    using sample_checks
    by (simp add: MaxRefs_def sample_snapshot_def record_line_def)
qed

lemma sample_text_length: "length sample_text \<le> MaxSnapshot"
proof -
  have "length sample_text = 207" by code_simp
  then show ?thesis by (simp add: MaxSnapshot_def)
qed

section \<open>Properties\<close>



text \<open>
  C37: whatever the parser accepts is a well-formed snapshot that the printer accepts: refs and
  object IDs are valid, generation and transaction agree, and the generation is below
  \<open>2 ^ 53\<close>.
\<close>

theorem snapshot_parse_sound:
  assumes "ParseSnapshot X b = Inr s"
  shows "(\<exists>b'. MarshalText X s = Inr b') \<and>
    unat (sn_Generation s) < 2 ^ 53 \<and>
    (sn_Generation s = 0 \<longleftrightarrow> sn_TransactionID s = None) \<and>
    (sn_Generation s = 0 \<longrightarrow> sn_Refs s = fmempty)"
proof -
  note p = parseLines_Inr [OF ParseSnapshot_Inr_parseLines [OF assms]]
  have "\<forall>r \<in> set (SortedRefs (sn_Refs s)).
      validRefBasic r \<and> ValidOID (the (fmlookup (sn_Refs s) r)) (sn_ObjectFormat s)"
    using p(4) SortedRefs_props(2) [of "sn_Refs s"]
    by (auto simp: refs_ok_def fmlookup_dom'_iff)
  with p have "\<exists>b'. MarshalText X s = Inr b'" by (auto simp: MarshalText_Inr)
  with p(5,6,8) show ?thesis by blast
qed

theorem snapshot_parse_sound_witness:
  "\<exists>b'. MarshalText sample_ident sample_snapshot = Inr b'"
  using snapshot_parse_sound [OF MarshalText_Parse [OF sample_ident_canonical sample_MarshalText]]
    sample_text_length
  by (simp add: sample_snapshot_def)

text \<open>
  The parser does not insist on line-feed endings: the text of any snapshot with every line
  feed replaced by carriage return and line feed is a different text that is read as the same
  snapshot.
\<close>

theorem snapshot_accepts_crlf:
  assumes "uuid_canonical X" and "MarshalText X s = Inr b"
    and "length (crlf b) \<le> MaxSnapshot" and "length b \<le> MaxSnapshot"
  shows "ParseSnapshot X (crlf b) = ParseSnapshot X b \<and> crlf b \<noteq> b"
proof -
  let ?ls = "headerLines s @ map (record_line (sn_Refs s)) (SortedRefs (sn_Refs s))"
  have b: "b = unlines ?ls" using assms(2) by (simp add: MarshalText_Inr)
  have clean: "list_all clean_line ?ls"
    using headerLines_clean [OF assms(1,2)] record_lines_clean [OF assms(2)] by simp
  have ne: "?ls \<noteq> []" by (simp add: headerLines_def)
  have "scanLines (crlf b) = scanLines b"
    unfolding b scanLines_crlf [OF clean] scanLines_unlines [OF clean] ..
  moreover have "crlf b \<noteq> [] \<and> last (crlf b) = LF"
    unfolding b using clean ne by (rule last_crlf_unlines)
  moreover have "b \<noteq> [] \<and> last b = LF" unfolding b using ne by (rule last_unlines)
  ultimately have "ParseSnapshot X (crlf b) = ParseSnapshot X b"
    using assms(3,4) by (simp add: ParseSnapshot_def)
  moreover have "CR \<in> set (crlf b)"
    unfolding b crlf_unlines [OF clean] by (simp add: headerLines_def Fprintln_def)
  moreover have "CR \<notin> set b"
    unfolding b using clean by (auto simp: unlines_def Fprintln_def list_all_iff clean_line_def)
  ultimately show ?thesis by metis
qed

theorem snapshot_accepts_crlf_witness:
  "ParseSnapshot sample_ident (crlf sample_text) = ParseSnapshot sample_ident sample_text"
proof -
  have "length (crlf sample_text) = 214" by code_simp
  then have "length (crlf sample_text) \<le> MaxSnapshot" by (simp add: MaxSnapshot_def)
  with snapshot_accepts_crlf [OF sample_ident_canonical sample_MarshalText] sample_text_length
  show ?thesis by blast
qed

end
