(* ===== verification/Git3_Store.thy ===== *)
theory Git3_Store
  imports Git3_Errs
begin

text \<open>
  The object-storage contract (\<^verbatim>\<open>src/internal/store/store.go\<close>) and the in-memory store
  (\<^verbatim>\<open>src/internal/store/memory.go\<close>).

  A \<^verbatim>\<open>store.Store\<close> is a record of operations over an unspecified state \<open>'s\<close>, so the engine is
  modelled for every implementation of the interface. What a client may rely on is the locale
  \<open>object_store\<close>; the in-memory store is an interpretation of it. The contract allows a failed
  \<^verbatim>\<open>Put\<close> to have been performed (a lost response), except when the error says that the
  precondition failed.

  A reader argument is the bytes it yields and the error it ends with, if any. Times are
  integers (nanoseconds); the clock of the in-memory store is a field of its state.
\<close>

section \<open>The interface\<close>

type_synonym time = int
type_synonym Reader = "bytes \<times> goerr option"

record Object =
  ob_Body :: bytes
  ob_ETag :: string
  ob_Size :: int
  ob_LastModified :: time

record Range =
  rg_Body :: Reader
  rg_Size :: int
  rg_TotalSize :: int

record Metadata =
  md_Key :: string
  md_ETag :: string
  md_Size :: int
  md_LastModified :: time

record PutOptions =
  po_IfMatch :: string
  po_IfNoneMatch :: bool
  po_ContentSHA256 :: string

record DeleteOptions =
  do_IfMatch :: string

text \<open>
  \<^verbatim>\<open>Walk\<close> passes the listed metadata to a callback. The field \<open>st_List\<close> is the listing: the
  metadata in the order of the visits, and the error the listing itself ends with.
\<close>

record 's Store =
  st_Get :: "string \<Rightarrow> string \<Rightarrow> ('s, Object) prog"
  st_OpenRange :: "string \<Rightarrow> int \<Rightarrow> int \<Rightarrow> ('s, Range) prog"
  st_Head :: "string \<Rightarrow> ('s, Metadata) prog"
  st_Put :: "string \<Rightarrow> Reader \<Rightarrow> int \<Rightarrow> PutOptions \<Rightarrow> ('s, Metadata) prog"
  st_Delete :: "string \<Rightarrow> DeleteOptions \<Rightarrow> ('s, unit) prog"
  st_List :: "string \<Rightarrow> 's \<Rightarrow> (Metadata list \<times> goerr option) \<times> 's"

fun visitAll :: "(Metadata \<Rightarrow> 'a \<Rightarrow> 'a res) \<Rightarrow> Metadata list \<Rightarrow> 'a \<Rightarrow> 'a res" where
  "visitAll visit [] acc = Inr acc"
| "visitAll visit (m # ms) acc =
     (case visit m acc of Inl e \<Rightarrow> Inl e | Inr acc' \<Rightarrow> visitAll visit ms acc')"

definition Walk ::
  "'s Store \<Rightarrow> string \<Rightarrow> (Metadata \<Rightarrow> 'a \<Rightarrow> 'a res) \<Rightarrow> 'a \<Rightarrow> ('s, 'a) prog"
where
  "Walk S prefix visit acc s =
     (case st_List S prefix s of
        ((ms, err), s') \<Rightarrow>
          (case visitAll visit ms acc of
             Inl e \<Rightarrow> (Inl e, s')
           | Inr acc' \<Rightarrow> (case err of Some e \<Rightarrow> (Inl e, s') | None \<Rightarrow> (Inr acc', s'))))"

section \<open>The in-memory store\<close>

record memoryEntry =
  me_body :: bytes
  me_etag :: string
  me_modified :: time

record Memory =
  m_objects :: "(string, memoryEntry) fmap"
  m_Requests :: "string list"
  m_now :: time

definition NewMemory :: "time \<Rightarrow> Memory" where
  "NewMemory t = \<lparr>m_objects = fmempty, m_Requests = [], m_now = t\<rparr>"

definition logRequest :: "string \<Rightarrow> Memory \<Rightarrow> Memory" where
  "logRequest r m = m\<lparr>m_Requests := m_Requests m @ [r]\<rparr>"

definition Memory_Get :: "string \<Rightarrow> string \<Rightarrow> (Memory, Object) prog" where
  "Memory_Get key ifNone m0 =
     (let m = logRequest (''GET '' @ key) m0 in
      case fmlookup (m_objects m) key of
        None \<Rightarrow> (Inl ErrNotFound, m)
      | Some e \<Rightarrow>
         (if ifNone \<noteq> [] \<and> ifNone = me_etag e then (Inl ErrNotModified, m)
          else (Inr \<lparr>ob_Body = me_body e, ob_ETag = me_etag e,
                     ob_Size = int (length (me_body e)), ob_LastModified = me_modified e\<rparr>, m)))"

definition Memory_OpenRange :: "string \<Rightarrow> int \<Rightarrow> int \<Rightarrow> (Memory, Range) prog" where
  "Memory_OpenRange key start end m0 =
     (let m = logRequest (''RANGE '' @ key) m0 in
      case fmlookup (m_objects m) key of
        None \<Rightarrow> (Inl ErrNotFound, m)
      | Some e \<Rightarrow>
         (if start < 0 \<or> end < start \<or> end \<ge> int (length (me_body e))
          then (Inl (Errorf ''invalid range'' []), m)
          else (let b = take (nat (end + 1) - nat start) (drop (nat start) (me_body e)) in
            (Inr \<lparr>rg_Body = (b, None), rg_Size = int (length b),
                  rg_TotalSize = int (length (me_body e))\<rparr>, m))))"

definition Memory_Head :: "string \<Rightarrow> (Memory, Metadata) prog" where
  "Memory_Head key m0 =
     (let m = logRequest (''HEAD '' @ key) m0 in
      case fmlookup (m_objects m) key of
        None \<Rightarrow> (Inl ErrNotFound, m)
      | Some e \<Rightarrow>
          (Inr \<lparr>md_Key = key, md_ETag = me_etag e, md_Size = int (length (me_body e)),
                md_LastModified = me_modified e\<rparr>, m))"

text \<open>The entity tag: the first 16 bytes of the SHA-256 digest, in hexadecimal, in quotes.\<close>

definition memory_etag :: "(bytes \<Rightarrow> bytes) \<Rightarrow> bytes \<Rightarrow> string" where
  "memory_etag Sum256 b = CHR 0x22 # EncodeToString (take 16 (Sum256 b)) @ [CHR 0x22]"

definition Memory_Put ::
  "(bytes \<Rightarrow> bytes) \<Rightarrow> string \<Rightarrow> Reader \<Rightarrow> int \<Rightarrow> PutOptions \<Rightarrow> (Memory, Metadata) prog"
where
  "Memory_Put Sum256 key r sz opts m0 =
     (case snd r of
        Some e \<Rightarrow> (Inl e, m0)
      | None \<Rightarrow>
         (let b = fst r in
          if sz \<ge> 0 \<and> int (length b) \<noteq> sz then (Inl (Errorf ''size mismatch'' []), m0)
          else
           (let m = logRequest (''PUT '' @ key) m0; old = fmlookup (m_objects m) key in
            if po_IfNoneMatch opts \<and> old \<noteq> None then (Inl ErrPrecondition, m)
            else if po_IfMatch opts \<noteq> [] \<and>
                    (old = None \<or> me_etag (the old) \<noteq> po_IfMatch opts)
            then (Inl ErrPrecondition, m)
            else (let etag = memory_etag Sum256 b; now = m_now m in
              (Inr \<lparr>md_Key = key, md_ETag = etag, md_Size = int (length b),
                    md_LastModified = now\<rparr>,
               m\<lparr>m_objects := fmupd key
                   \<lparr>me_body = b, me_etag = etag, me_modified = now\<rparr> (m_objects m)\<rparr>)))))"

definition Memory_Delete :: "string \<Rightarrow> DeleteOptions \<Rightarrow> (Memory, unit) prog" where
  "Memory_Delete key opts m0 =
     (let m = logRequest (''DELETE '' @ key) m0 in
      case fmlookup (m_objects m) key of
        None \<Rightarrow> (Inl ErrNotFound, m)
      | Some old \<Rightarrow>
         (if do_IfMatch opts \<noteq> [] \<and> do_IfMatch opts \<noteq> me_etag old
          then (Inl ErrPrecondition, m)
          else (Inr (), m\<lparr>m_objects := fmdrop key (m_objects m)\<rparr>)))"

definition Memory_List ::
  "string \<Rightarrow> Memory \<Rightarrow> (Metadata list \<times> goerr option) \<times> Memory"
where
  "Memory_List prefix m0 =
     (let m = logRequest (''LIST '' @ prefix) m0;
          keys = filter (\<lambda>k. HasPrefix k prefix) (sorted_keys (m_objects m));
          out = map (\<lambda>k. let e = the (fmlookup (m_objects m) k) in
                  \<lparr>md_Key = k, md_ETag = me_etag e, md_Size = int (length (me_body e)),
                   md_LastModified = me_modified e\<rparr>) keys in
      ((out, None), m))"

definition Memory_Set :: "(bytes \<Rightarrow> bytes) \<Rightarrow> string \<Rightarrow> bytes \<Rightarrow> Memory \<Rightarrow> Memory" where
  "Memory_Set Sum256 key b m =
     snd (Memory_Put Sum256 key (b, None) (int (length b))
            \<lparr>po_IfMatch = [], po_IfNoneMatch = False, po_ContentSHA256 = []\<rparr> m)"

definition MemoryStore :: "(bytes \<Rightarrow> bytes) \<Rightarrow> Memory Store" where
  "MemoryStore Sum256 =
     \<lparr>st_Get = Memory_Get, st_OpenRange = Memory_OpenRange, st_Head = Memory_Head,
      st_Put = Memory_Put Sum256, st_Delete = Memory_Delete, st_List = Memory_List\<rparr>"

section \<open>The contract\<close>

text \<open>Whether the preconditions of a conditional write admit the current object.\<close>

definition put_allowed :: "PutOptions \<Rightarrow> (bytes \<times> string) option \<Rightarrow> bool" where
  "put_allowed opts old \<longleftrightarrow>
     (po_IfNoneMatch opts \<longrightarrow> old = None) \<and>
     (po_IfMatch opts \<noteq> [] \<longrightarrow> (\<exists>b. old = Some (b, po_IfMatch opts)))"

locale object_store =
  fixes S :: "'s Store"
    and view :: "'s \<Rightarrow> string \<rightharpoonup> bytes \<times> string"
  assumes get_view: "st_Get S k none s = (r, s') \<Longrightarrow> view s' = view s"
    and get_body: "st_Get S k none s = (Inr ob, s') \<Longrightarrow> view s k = Some (ob_Body ob, ob_ETag ob)"
    and get_missing: "view s k = None \<Longrightarrow> \<exists>e s'. st_Get S k none s = (Inl e, s')"
    and range_view: "st_OpenRange S k lo hi s = (rr, s') \<Longrightarrow> view s' = view s"
    and head_view: "st_Head S k s = (rh, s') \<Longrightarrow> view s' = view s"
    and head_meta: "st_Head S k s = (Inr m, s') \<Longrightarrow>
      \<exists>b. view s k = Some (b, md_ETag m) \<and> md_Size m = int (length b)"
    and list_view: "st_List S p s = (rl, s') \<Longrightarrow> view s' = view s"
    and put_ok: "st_Put S k rd n opts s = (Inr m, s') \<Longrightarrow>
      put_allowed opts (view s k) \<and> view s' = (view s)(k \<mapsto> (fst rd, md_ETag m))"
    and put_err: "st_Put S k rd n opts s = (Inl e, s') \<Longrightarrow>
      view s' = view s \<or>
      (put_allowed opts (view s k) \<and> (\<exists>t. view s' = (view s)(k \<mapsto> (fst rd, t))))"
    and put_precondition: "st_Put S k rd n opts s = (Inl e, s') \<Longrightarrow> errors_Is e ErrPrecondition \<Longrightarrow>
      view s' = view s"
    and delete_view: "st_Delete S k dopts s = (rd', s') \<Longrightarrow>
      view s' = view s \<or>
      ((\<exists>b t. view s k = Some (b, t) \<and> (do_IfMatch dopts \<noteq> [] \<longrightarrow> t = do_IfMatch dopts)) \<and>
       view s' = (view s)(k := None))"
begin

text \<open>An unconditional listing walk leaves the objects alone, whatever the visitor does.\<close>

lemma walk_view: "Walk S p visit acc s = (r, s') \<Longrightarrow> view s' = view s"
  by (auto simp: Walk_def split: prod.splits sum.splits option.splits dest: list_view)

text \<open>A write that requires absence never replaces an object.\<close>

lemma put_absent_grows:
  assumes "st_Put S k rd n opts s = (r, s')" "po_IfNoneMatch opts" "view s x = Some v"
  shows "view s' x = Some v"
proof (cases r)
  case (Inl e)
  with assms put_err [of k rd n opts s e s'] show ?thesis
    by (cases "x = k") (auto simp: put_allowed_def)
next
  case (Inr m)
  with assms put_ok [of k rd n opts s m s'] show ?thesis
    by (cases "x = k") (auto simp: put_allowed_def)
qed

text \<open>A write touches one key.\<close>

lemma put_other:
  assumes "st_Put S k rd n opts s = (r, s')" "x \<noteq> k"
  shows "view s' x = view s x"
  using assms put_err [of k rd n opts s _ s'] put_ok [of k rd n opts s _ s']
  by (cases r) fastforce+

text \<open>
  Compare-and-swap: a conditional write succeeds only on the version that carries the expected
  tag.
\<close>

lemma put_cas:
  assumes "st_Put S k rd n opts s = (Inr m, s')" "po_IfMatch opts \<noteq> []"
  obtains b where "view s k = Some (b, po_IfMatch opts)"
    "view s' = (view s)(k \<mapsto> (fst rd, md_ETag m))"
  using put_ok [OF assms(1)] assms(2) by (auto simp: put_allowed_def)

text \<open>A conditional delete removes only the version it names, and nothing else.\<close>

lemma delete_other: "st_Delete S k opts s = (r, s') \<Longrightarrow> x \<noteq> k \<Longrightarrow> view s' x = view s x"
  using delete_view [of k opts s r s'] by auto

end

section \<open>The in-memory store meets the contract\<close>

definition memory_view :: "Memory \<Rightarrow> string \<rightharpoonup> bytes \<times> string" where
  "memory_view m k = map_option (\<lambda>e. (me_body e, me_etag e)) (fmlookup (m_objects m) k)"

lemma logRequest_objects [simp]:
  "m_objects (logRequest r m) = m_objects m" "m_now (logRequest r m) = m_now m"
  by (simp_all add: logRequest_def)

lemma memory_view_log [simp]: "memory_view (logRequest r m) = memory_view m"
  by (simp add: memory_view_def fun_eq_iff)

lemma memory_view_upd [simp]:
  "memory_view (m\<lparr>m_objects := fmupd k e (m_objects m')\<rparr>) =
     (memory_view m')(k \<mapsto> (me_body e, me_etag e))"
  "memory_view (m\<lparr>m_objects := fmdrop k (m_objects m')\<rparr>) = (memory_view m')(k := None)"
  by (auto simp: memory_view_def fun_eq_iff)

lemmas memory_defs =
  Memory_Get_def Memory_OpenRange_def Memory_Head_def Memory_Delete_def Memory_List_def

lemma Memory_Put_Inr:
  assumes "Memory_Put H k rd n opts m0 = (Inr md, m')"
  shows "put_allowed opts (memory_view m0 k)"
    and "memory_view m' = (memory_view m0)(k \<mapsto> (fst rd, md_ETag md))"
    and "md_ETag md = memory_etag H (fst rd)" "snd rd = None"
    and "n \<ge> 0 \<longrightarrow> int (length (fst rd)) = n"
  using assms
  by (auto simp: Memory_Put_def Let_def put_allowed_def memory_view_def
      split: option.splits if_splits)

lemma Memory_Put_Inl:
  assumes "Memory_Put H k rd n opts m0 = (Inl e, m')"
  shows "memory_view m' = memory_view m0"
  using assms by (auto simp: Memory_Put_def Let_def split: option.splits if_splits)

interpretation memory: object_store "MemoryStore H" memory_view for H
proof unfold_locales
  fix k none a b p s s' r
  show "st_Get (MemoryStore H) k none s = (r, s') \<Longrightarrow> memory_view s' = memory_view s"
    by (auto simp: MemoryStore_def memory_defs Let_def split: option.splits if_splits)
  show "st_OpenRange (MemoryStore H) k a b s = (r', s') \<Longrightarrow> memory_view s' = memory_view s" for r'
    by (auto simp: MemoryStore_def memory_defs Let_def split: option.splits if_splits)
  show "st_Head (MemoryStore H) k s = (r', s') \<Longrightarrow> memory_view s' = memory_view s" for r'
    by (auto simp: MemoryStore_def memory_defs Let_def split: option.splits)
  show "st_List (MemoryStore H) p s = (r', s') \<Longrightarrow> memory_view s' = memory_view s" for r'
    by (auto simp: MemoryStore_def memory_defs Let_def)
next
  fix k none s ob s'
  show "st_Get (MemoryStore H) k none s = (Inr ob, s') \<Longrightarrow>
      memory_view s k = Some (ob_Body ob, ob_ETag ob)"
    by (auto simp: MemoryStore_def memory_defs memory_view_def Let_def
        split: option.splits if_splits)
next
  fix k none s
  show "memory_view s k = None \<Longrightarrow> \<exists>e s'. st_Get (MemoryStore H) k none s = (Inl e, s')"
    by (auto simp: MemoryStore_def memory_defs memory_view_def Let_def)
next
  fix k s m s'
  show "st_Head (MemoryStore H) k s = (Inr m, s') \<Longrightarrow>
      \<exists>b. memory_view s k = Some (b, md_ETag m) \<and> md_Size m = int (length b)"
    by (auto simp: MemoryStore_def memory_defs memory_view_def Let_def split: option.splits)
next
  fix k rd n opts s m s'
  show "st_Put (MemoryStore H) k rd n opts s = (Inr m, s') \<Longrightarrow>
      put_allowed opts (memory_view s k) \<and>
      memory_view s' = (memory_view s)(k \<mapsto> (fst rd, md_ETag m))"
    by (simp add: MemoryStore_def Memory_Put_Inr)
next
  fix k rd n opts s e s'
  assume "st_Put (MemoryStore H) k rd n opts s = (Inl e, s')"
  then have "memory_view s' = memory_view s" by (simp add: MemoryStore_def Memory_Put_Inl)
  then show "memory_view s' = memory_view s \<or> (put_allowed opts (memory_view s k) \<and>
      (\<exists>t. memory_view s' = (memory_view s)(k \<mapsto> (fst rd, t))))"
    and "memory_view s' = memory_view s" by simp_all
next
  fix k opts s s' and r :: "unit res"
  show "st_Delete (MemoryStore H) k opts s = (r, s') \<Longrightarrow> memory_view s' = memory_view s \<or>
      ((\<exists>b t. memory_view s k = Some (b, t) \<and> (do_IfMatch opts \<noteq> [] \<longrightarrow> t = do_IfMatch opts)) \<and>
       memory_view s' = (memory_view s)(k := None))"
    by (auto simp: MemoryStore_def memory_defs memory_view_def Let_def fun_eq_iff
        split: option.splits if_splits)
qed

text \<open>
  A store that answers: an object that is there is returned, one that is not is reported as
  missing. Reads through such a store are a function of its view.
\<close>

locale reliable_store = object_store S view
  for S :: "'s Store" and view :: "'s \<Rightarrow> string \<rightharpoonup> bytes \<times> string" +
  assumes get_present: "view s k = Some (b, t) \<Longrightarrow>
      \<exists>ob s'. st_Get S k [] s = (Inr ob, s') \<and> ob_Body ob = b \<and> ob_ETag ob = t"
    and get_absent: "view s k = None \<Longrightarrow> \<exists>s'. st_Get S k [] s = (Inl ErrNotFound, s')"
begin

lemma get_cases:
  obtains (absent) s' where "view s k = None" "st_Get S k [] s = (Inl ErrNotFound, s')"
      "view s' = view s"
    | (present) ob s' where "view s k = Some (ob_Body ob, ob_ETag ob)"
      "st_Get S k [] s = (Inr ob, s')" "view s' = view s"
proof (cases "view s k")
  case None
  then obtain s' where "st_Get S k [] s = (Inl ErrNotFound, s')" using get_absent by blast
  with None get_view [OF this] show thesis by (intro absent)
next
  case (Some v)
  then obtain ob s' where "st_Get S k [] s = (Inr ob, s')" "ob_Body ob = fst v" "ob_ETag ob = snd v"
    using get_present [of s k "fst v" "snd v"] by auto
  with Some get_view [OF this(1)] show thesis by (intro present [of ob s']) simp_all
qed

end

interpretation memory_reliable: reliable_store "MemoryStore H" memory_view for H
  by unfold_locales
    (auto simp: MemoryStore_def Memory_Get_def memory_view_def Let_def)

text \<open>
  A store whose writes are never lost: a complete body is refused only because its precondition
  does not hold.
\<close>

locale atomic_store = reliable_store S view
  for S :: "'s Store" and view :: "'s \<Rightarrow> string \<rightharpoonup> bytes \<times> string" +
  assumes put_refused: "st_Put S k (b, None) n opts s = (Inl e, s') \<Longrightarrow>
      n < 0 \<or> n = int (length b) \<Longrightarrow>
      errors_Is e ErrPrecondition \<and> \<not> put_allowed opts (view s k)"

interpretation memory_atomic: atomic_store "MemoryStore H" memory_view for H
  by unfold_locales
    (auto simp: MemoryStore_def Memory_Put_def memory_view_def put_allowed_def Let_def
      split: if_splits option.splits)

text \<open>A store whose range reads return the bytes of the object.\<close>

locale ranged_store = object_store S view
  for S :: "'s Store" and view :: "'s \<Rightarrow> string \<rightharpoonup> bytes \<times> string" +
  assumes range_exact: "st_OpenRange S k lo hi s = (Inr part, s') \<Longrightarrow> 0 \<le> lo \<Longrightarrow> lo \<le> hi \<Longrightarrow>
    \<exists>b t. view s k = Some (b, t) \<and> rg_TotalSize part = int (length b) \<and>
      (snd (rg_Body part) = None \<longrightarrow> fst (rg_Body part) = take (nat (hi - lo + 1)) (drop (nat lo) b))"

lemma range_width: "0 \<le> lo \<Longrightarrow> lo \<le> hi \<Longrightarrow> nat (hi + 1) - nat lo = nat (hi - lo + 1)"
  by linarith

interpretation memory_ranged: ranged_store "MemoryStore H" memory_view for H
  by unfold_locales
    (auto simp: MemoryStore_def Memory_OpenRange_def memory_view_def Let_def range_width
      split: option.splits if_splits)

section \<open>Properties\<close>

text \<open>
  The in-memory store is a compare-and-swap register per key. A conditional write succeeds
  exactly when the object under the key is absent, for a write that requires absence, or carries
  the expected tag, for a write that names one; after a success a read returns the written body
  with the returned tag, after a failure the objects are as before, and other keys never change.
\<close>

theorem memory_cas:
  "(case Memory_Put H k (b, None) (int (length b)) opts m of
      (Inl e, m') \<Rightarrow> e = ErrPrecondition \<and> \<not> put_allowed opts (memory_view m k) \<and>
        memory_view m' = memory_view m
    | (Inr md, m') \<Rightarrow> put_allowed opts (memory_view m k) \<and>
        (\<exists>ob. fst (Memory_Get k [] m') = Inr ob \<and> ob_Body ob = b \<and> ob_ETag ob = md_ETag md) \<and>
        (\<forall>x. x \<noteq> k \<longrightarrow> memory_view m' x = memory_view m x))"
  by (auto simp: Memory_Put_def Memory_Get_def memory_view_def put_allowed_def Let_def split: option.splits)

theorem memory_cas_witness:
  "\<exists>md m'. Memory_Put (\<lambda>b. b) ''k'' (''v'', None) 1
       \<lparr>po_IfMatch = [], po_IfNoneMatch = True, po_ContentSHA256 = []\<rparr> (NewMemory 0) = (Inr md, m') \<and>
     (\<exists>ob. fst (Memory_Get ''k'' [] m') = Inr ob \<and> ob_Body ob = ''v'')"
proof -
  let ?o = "\<lparr>po_IfMatch = [], po_IfNoneMatch = True, po_ContentSHA256 = []\<rparr>"
  have "put_allowed ?o (memory_view (NewMemory 0) ''k'')"
    by (simp add: put_allowed_def memory_view_def NewMemory_def)
  with memory_cas [where H = "\<lambda>b. b" and k = "''k''" and b = "''v''" and opts = ?o and m = "NewMemory 0"] show ?thesis
    by (cases "Memory_Put (\<lambda>b. b) ''k'' (''v'', None) 1 ?o (NewMemory 0)") (auto split: sum.splits)
qed

text \<open>
  A conditional delete of the in-memory store removes the object it names only in the version
  it names, reports a missing object and a changed one as different errors, and touches no other
  key.
\<close>

theorem memory_delete_exact:
  "(case memory_view m k of
      None \<Rightarrow> fst (Memory_Delete k opts m) = Inl ErrNotFound \<and>
        memory_view (snd (Memory_Delete k opts m)) = memory_view m
    | Some (b, t) \<Rightarrow>
        (if do_IfMatch opts = [] \<or> do_IfMatch opts = t
         then fst (Memory_Delete k opts m) = Inr () \<and>
           memory_view (snd (Memory_Delete k opts m)) = (memory_view m)(k := None)
         else fst (Memory_Delete k opts m) = Inl ErrPrecondition \<and>
           memory_view (snd (Memory_Delete k opts m)) = memory_view m))"
  by (auto simp: Memory_Delete_def memory_view_def Let_def fun_eq_iff split: option.splits)

end
