(* ===== verification/Git3_Canonical.thy ===== *)
theory Git3_Canonical
  imports Git3_Utf8 Git3_Errs
begin

text \<open>
  Canonical JSON (\<^verbatim>\<open>src/internal/canonical/json.go\<close>).

  The package \<^verbatim>\<open>gowebpki/jcs\<close> is code outside the repository, and the reflection-based
  encoder and decoder of \<^verbatim>\<open>encoding/json\<close> depend on the Go type of a document, so both are
  arguments: a \<open>json_lib\<close> holds what does not depend on the type (the token stream of a text,
  \<^verbatim>\<open>jcs.Transform\<close>, and \<^verbatim>\<open>jcs.NumberToJSON\<close> after \<^verbatim>\<open>strconv.ParseFloat\<close>), and a
  \<open>codec\<close> holds the encoder and the decoders of one document type. What the package itself
  does, the size and UTF-8 tests, the scan that rejects duplicate keys and non-canonical
  numbers, and the test for trailing values, is modelled.
\<close>

section \<open>Data\<close>

datatype jtoken = Delim char | StringTok string | Number string | BoolTok bool | NullTok

definition LBRACE :: char where "LBRACE = CHR 0x7B"
definition RBRACE :: char where "RBRACE = CHR 0x7D"
definition LBRACK :: char where "LBRACK = CHR 0x5B"
definition RBRACK :: char where "RBRACK = CHR 0x5D"

text \<open>
  \<open>tokens data\<close>: the tokens a decoder yields on \<^verbatim>\<open>data\<close> and the error it then ends with.
  \<open>number_json s\<close>: \<^const>\<open>None\<close> when \<^verbatim>\<open>strconv.ParseFloat\<close> refuses \<^verbatim>\<open>s\<close>, otherwise the
  result of \<^verbatim>\<open>jcs.NumberToJSON\<close>.
\<close>

record json_lib =
  tokens :: "bytes \<Rightarrow> jtoken list \<times> goerr"
  number_json :: "string \<Rightarrow> string option option"
  jcs_Transform :: "bytes \<Rightarrow> bytes res"

text \<open>
  \<open>cd_encode v\<close> is the output of \<^verbatim>\<open>Encoder.Encode\<close> without its final newline; a decoder
  returns the value and the error of the next \<^verbatim>\<open>Decode\<close> on the same input, \<^const>\<open>None\<close> when
  that reads another value.
\<close>

record 'a codec =
  cd_encode :: "'a \<Rightarrow> bytes res"
  cd_decode :: "bytes \<Rightarrow> ('a \<times> goerr option) res"
  cd_decode_strict :: "bytes \<Rightarrow> ('a \<times> goerr option) res"

section \<open>Operations\<close>

definition MaxSafeInteger :: nat where
  "MaxSafeInteger = 9007199254740991"

definition Marshal :: "json_lib \<Rightarrow> 'a codec \<Rightarrow> 'a \<Rightarrow> bytes res" where
  "Marshal J c v = (case cd_encode c v of
      Inl e \<Rightarrow> Inl e
    | Inr out \<Rightarrow>
       (if \<not> ValidString out then Inl (Errorf ''invalid UTF-8'' []) else jcs_Transform J out))"

definition checkNumber :: "json_lib \<Rightarrow> string \<Rightarrow> goerr option" where
  "checkNumber J s =
     firstError
       [failIf (\<not> (\<exists>c \<in> set ''.eE''. c \<in> set s) \<and> \<not> HasPrefix s ''-'' \<and>
                (case ParseUint s 64 of None \<Rightarrow> True | Some u \<Rightarrow> u > MaxSafeInteger))
          (Errorf ''integer out of range %q'' [s]),
        failIf (number_json J s = None) (Errorf ''invalid number %q'' [s]),
        failIf (the (number_json J s) \<noteq> Some s) (Errorf ''non-canonical number %q'' [s])]"

text \<open>
  \<^verbatim>\<open>scanValue\<close> and its two loops, on the tokens left and the error \<open>e0\<close> the decoder ends with;
  the result is the tokens not yet read. \<^verbatim>\<open>d.More()\<close> is false at a closing delimiter. The
  first argument bounds the number of calls; twice the number of tokens is enough.
\<close>

fun scanValue :: "nat \<Rightarrow> json_lib \<Rightarrow> goerr \<Rightarrow> jtoken list \<Rightarrow> jtoken list res"
  and scanObject :: "nat \<Rightarrow> json_lib \<Rightarrow> goerr \<Rightarrow> string list \<Rightarrow> jtoken list \<Rightarrow> jtoken list res"
  and scanArray :: "nat \<Rightarrow> json_lib \<Rightarrow> goerr \<Rightarrow> jtoken list \<Rightarrow> jtoken list res"
where
  "scanValue 0 J e0 ts = Inl OutOfFuel"
| "scanValue (Suc n) J e0 [] = Inl e0"
| "scanValue (Suc n) J e0 (t # ts) = (case t of
      Delim x \<Rightarrow>
       (if x = LBRACE then scanObject n J e0 [] ts
        else if x = LBRACK then scanArray n J e0 ts
        else Inl (Errorf ''unexpected delimiter'' []))
    | Number s \<Rightarrow> (case checkNumber J s of Some e \<Rightarrow> Inl e | None \<Rightarrow> Inr ts)
    | _ \<Rightarrow> Inr ts)"
| "scanObject 0 J e0 seen ts = Inl OutOfFuel"
| "scanObject (Suc n) J e0 seen [] = Inl e0"
| "scanObject (Suc n) J e0 seen (t # ts) =
     (if t = Delim RBRACE \<or> t = Delim RBRACK then Inr ts
      else (case t of
          StringTok s \<Rightarrow>
           (if s \<in> set seen then Inl (Errorf ''duplicate key %q'' [s])
            else (case scanValue n J e0 ts of
                Inl e \<Rightarrow> Inl e
              | Inr ts' \<Rightarrow> scanObject n J e0 (s # seen) ts'))
        | _ \<Rightarrow> Inl (Errorf ''non-string key'' [])))"
| "scanArray 0 J e0 ts = Inl OutOfFuel"
| "scanArray (Suc n) J e0 [] = Inl e0"
| "scanArray (Suc n) J e0 (t # ts) =
     (if t = Delim RBRACE \<or> t = Delim RBRACK then Inr ts
      else (case scanValue n J e0 (t # ts) of
          Inl e \<Rightarrow> Inl e
        | Inr ts' \<Rightarrow> scanArray n J e0 ts'))"

text \<open>The same equations without patterns on the number, for evaluation.\<close>

lemma scan_code [code]:
  "scanValue n J e0 ts = (if n = 0 then Inl OutOfFuel else (case ts of
      [] \<Rightarrow> Inl e0
    | t # ts \<Rightarrow> (case t of
        Delim x \<Rightarrow>
         (if x = LBRACE then scanObject (n - 1) J e0 [] ts
          else if x = LBRACK then scanArray (n - 1) J e0 ts
          else Inl (Errorf ''unexpected delimiter'' []))
      | Number s \<Rightarrow> (case checkNumber J s of Some e \<Rightarrow> Inl e | None \<Rightarrow> Inr ts)
      | _ \<Rightarrow> Inr ts)))"
  "scanObject n J e0 seen ts = (if n = 0 then Inl OutOfFuel else (case ts of
      [] \<Rightarrow> Inl e0
    | t # ts \<Rightarrow>
       (if t = Delim RBRACE \<or> t = Delim RBRACK then Inr ts
        else (case t of
            StringTok s \<Rightarrow>
             (if s \<in> set seen then Inl (Errorf ''duplicate key %q'' [s])
              else (case scanValue (n - 1) J e0 ts of
                  Inl e \<Rightarrow> Inl e
                | Inr ts' \<Rightarrow> scanObject (n - 1) J e0 (s # seen) ts'))
          | _ \<Rightarrow> Inl (Errorf ''non-string key'' [])))))"
  "scanArray n J e0 ts = (if n = 0 then Inl OutOfFuel else (case ts of
      [] \<Rightarrow> Inl e0
    | t # ts \<Rightarrow>
       (if t = Delim RBRACE \<or> t = Delim RBRACK then Inr ts
        else (case scanValue (n - 1) J e0 (t # ts) of
            Inl e \<Rightarrow> Inl e
          | Inr ts' \<Rightarrow> scanArray (n - 1) J e0 ts'))))"
  by (cases n; cases ts, simp_all only: scanValue.simps scanObject.simps scanArray.simps list.case
      nat.distinct diff_Suc_1 if_False if_True simp_thms)+

definition scan_fuel :: "jtoken list \<Rightarrow> nat" where
  "scan_fuel ts = 2 * length ts + 2"

definition rejectDuplicatesAndNumbers :: "json_lib \<Rightarrow> bytes \<Rightarrow> goerr option" where
  "rejectDuplicatesAndNumbers J data = (case tokens J data of
      (ts, e0) \<Rightarrow> (case scanValue (scan_fuel ts) J e0 ts of Inl e \<Rightarrow> Some e | Inr _ \<Rightarrow> None))"

definition ensureEOF :: "'a \<times> goerr option \<Rightarrow> 'a res" where
  "ensureEOF r = (case r of
      (v, None) \<Rightarrow> Inl (Errorf ''trailing JSON value'' [])
    | (v, Some e) \<Rightarrow> if e = EOF then Inr v else Inl e)"

definition unmarshalWith ::
  "json_lib \<Rightarrow> (bytes \<Rightarrow> ('a \<times> goerr option) res) \<Rightarrow> bytes \<Rightarrow> nat \<Rightarrow> 'a res"
where
  "unmarshalWith J decode data mx =
     (case firstError
        [failIf (length data > mx) (Errorf ''document exceeds %d bytes'' [dec mx]),
         failIf (\<not> ValidString data) (Errorf ''invalid UTF-8'' []),
         rejectDuplicatesAndNumbers J data] of
        Some e \<Rightarrow> Inl e
      | None \<Rightarrow> (case decode data of Inl e \<Rightarrow> Inl e | Inr r \<Rightarrow> ensureEOF r))"

definition UnmarshalStrict :: "json_lib \<Rightarrow> 'a codec \<Rightarrow> bytes \<Rightarrow> nat \<Rightarrow> 'a res" where
  "UnmarshalStrict J c data mx = unmarshalWith J (cd_decode_strict c) data mx"

definition UnmarshalForward :: "json_lib \<Rightarrow> 'a codec \<Rightarrow> bytes \<Rightarrow> nat \<Rightarrow> 'a res" where
  "UnmarshalForward J c data mx = unmarshalWith J (cd_decode c) data mx"

section \<open>The scan decides well-formedness\<close>

text \<open>JSON values as trees, the token stream of a value, and what the scan is meant to test.\<close>

datatype json =
    JObject "(string \<times> json) list" | JArray "json list" | JString string | JNumber string
  | JBool bool | JNull

fun toks :: "json \<Rightarrow> jtoken list" where
  "toks (JObject kvs) =
     Delim LBRACE # concat (map (\<lambda>(k, v). StringTok k # toks v) kvs) @ [Delim RBRACE]"
| "toks (JArray vs) = Delim LBRACK # concat (map toks vs) @ [Delim RBRACK]"
| "toks (JString s) = [StringTok s]"
| "toks (JNumber s) = [Number s]"
| "toks (JBool b) = [BoolTok b]"
| "toks JNull = [NullTok]"

fun json_ok :: "json_lib \<Rightarrow> json \<Rightarrow> bool" where
  "json_ok J (JObject kvs) \<longleftrightarrow> distinct (map fst kvs) \<and> (\<forall>kv \<in> set kvs. json_ok J (snd kv))"
| "json_ok J (JArray vs) \<longleftrightarrow> (\<forall>v \<in> set vs. json_ok J v)"
| "json_ok J (JNumber s) \<longleftrightarrow> checkNumber J s = None"
| "json_ok J _ \<longleftrightarrow> True"

lemma delim_distinct [simp]:
  "LBRACE \<noteq> RBRACE" "LBRACE \<noteq> RBRACK" "LBRACK \<noteq> RBRACE" "LBRACK \<noteq> RBRACK" "LBRACK \<noteq> LBRACE"
  by (simp_all add: LBRACE_def RBRACE_def LBRACK_def RBRACK_def)

lemma toks_Cons: obtains t ts where "toks v = t # ts" "t \<noteq> Delim RBRACE" "t \<noteq> Delim RBRACK"
  by (cases v) auto

definition scans :: "(jtoken list \<Rightarrow> jtoken list res) \<Rightarrow> bool \<Rightarrow> jtoken list \<Rightarrow> jtoken list \<Rightarrow> bool" where
  "scans f ok ts us \<longleftrightarrow> (if ok then f (ts @ us) = Inr us else \<exists>e. f (ts @ us) = Inl e)"

lemma scanArray_values:
  assumes "\<And>v n us. v \<in> set vs \<Longrightarrow> 2 * length (toks v) \<le> n \<Longrightarrow>
      scans (scanValue n J e0) (json_ok J v) (toks v) us"
    and "2 * length (concat (map toks vs)) + 1 \<le> n"
  shows "scans (scanArray n J e0) (\<forall>v \<in> set vs. json_ok J v)
    (concat (map toks vs) @ [Delim RBRACK]) us"
  using assms
proof (induction vs arbitrary: n)
  case Nil
  then show ?case by (cases n) (auto simp: scans_def)
next
  case (Cons v vs)
  obtain t ts where t: "toks v = t # ts" "t \<noteq> Delim RBRACE" "t \<noteq> Delim RBRACK" by (rule toks_Cons)
  obtain n' where n: "n = Suc n'" using Cons.prems(2) by (cases n) auto
  have "scans (scanValue n' J e0) (json_ok J v) (toks v)
      (concat (map toks vs) @ Delim RBRACK # us)"
    using Cons.prems(2) t n by (intro Cons.prems(1)) auto
  moreover have "scans (scanArray n' J e0) (\<forall>v \<in> set vs. json_ok J v)
      (concat (map toks vs) @ [Delim RBRACK]) us"
    using Cons.prems t n by (intro Cons.IH) auto
  ultimately show ?case
    using t n by (auto simp: scans_def split: if_splits)
qed

lemma scanObject_values:
  assumes "\<And>kv n us. kv \<in> set kvs \<Longrightarrow> 2 * length (toks (snd kv)) \<le> n \<Longrightarrow>
      scans (scanValue n J e0) (json_ok J (snd kv)) (toks (snd kv)) us"
    and "2 * length (concat (map (\<lambda>(k, v). StringTok k # toks v) kvs)) + 1 \<le> n"
  shows "scans (scanObject n J e0 seen)
    (distinct (map fst kvs) \<and> set (map fst kvs) \<inter> set seen = {} \<and>
     (\<forall>kv \<in> set kvs. json_ok J (snd kv)))
    (concat (map (\<lambda>(k, v). StringTok k # toks v) kvs) @ [Delim RBRACE]) us"
  using assms
proof (induction kvs arbitrary: n seen)
  case Nil
  then show ?case by (cases n) (auto simp: scans_def)
next
  case (Cons kv kvs)
  obtain k v where kv: "kv = (k, v)" by (cases kv)
  obtain n' where n: "n = Suc n'" using Cons.prems(2) by (cases n) auto
  let ?more = "concat (map (\<lambda>(k, v). StringTok k # toks v) kvs)"
  have "scans (scanValue n' J e0) (json_ok J v) (toks v) (?more @ Delim RBRACE # us)"
    using Cons.prems(1) [of kv n'] Cons.prems(2) kv n by simp
  moreover have "scans (scanObject n' J e0 (k # seen))
      (distinct (map fst kvs) \<and> set (map fst kvs) \<inter> set (k # seen) = {} \<and>
       (\<forall>kv \<in> set kvs. json_ok J (snd kv))) (?more @ [Delim RBRACE]) us"
    using Cons.prems kv n by (intro Cons.IH) auto
  ultimately show ?case
    using kv n by (auto simp: scans_def split: if_splits)
qed

lemma scanValue_toks:
  "2 * length (toks v) \<le> n \<Longrightarrow> scans (scanValue n J e0) (json_ok J v) (toks v) us"
proof (induction v arbitrary: n us)
  case (JObject kvs n us)
  obtain n' where n: "n = Suc n'" using JObject.prems by (cases n) auto
  have "scans (scanObject n' J e0 [])
      (distinct (map fst kvs) \<and> set (map fst kvs) \<inter> set [] = {} \<and>
       (\<forall>kv \<in> set kvs. json_ok J (snd kv)))
      (concat (map (\<lambda>(k, v). StringTok k # toks v) kvs) @ [Delim RBRACE]) us"
    using JObject n by (intro scanObject_values) (auto simp: snds.simps)
  with n show ?case by (auto simp: scans_def split: if_splits)
next
  case (JArray vs n us)
  obtain n' where n: "n = Suc n'" using JArray.prems by (cases n) auto
  have "scans (scanArray n' J e0) (\<forall>v \<in> set vs. json_ok J v)
      (concat (map toks vs) @ [Delim RBRACK]) us"
    using JArray n by (intro scanArray_values) auto
  with n show ?case by (auto simp: scans_def split: if_splits)
next
  case (JNumber s n us)
  then show ?case by (cases n) (auto simp: scans_def split: option.splits)
qed (case_tac n; simp add: scans_def)+

lemma scanValue_iff:
  assumes "2 * length (toks v) \<le> n"
  shows "scanValue n J e0 (toks v @ us) = Inr ws \<longleftrightarrow> json_ok J v \<and> ws = us"
  using scanValue_toks [OF assms, of J e0 us] by (auto simp: scans_def split: if_splits)

section \<open>The round trip the engine relies on\<close>

text \<open>
  \<open>codec_ok J c mx\<close>: what \<^const>\<open>Marshal\<close> writes, \<^const>\<open>UnmarshalForward\<close> reads back, up to
  the size limit the reader is given. This is the documented behaviour of the encoder, the
  decoder and the canonicaliser on one document type.
\<close>

definition codec_ok :: "json_lib \<Rightarrow> 'a codec \<Rightarrow> nat \<Rightarrow> bool" where
  "codec_ok J c mx \<longleftrightarrow>
     (\<forall>v b. Marshal J c v = Inr b \<longrightarrow> length b \<le> mx \<longrightarrow> UnmarshalForward J c b mx = Inr v)"

lemma codec_okD:
  "codec_ok J c mx \<Longrightarrow> Marshal J c v = Inr b \<Longrightarrow> length b \<le> mx \<Longrightarrow> UnmarshalForward J c b mx = Inr v"
  by (simp add: codec_ok_def)

lemma codec_ok_inj:
  assumes "codec_ok J c mx" "Marshal J c v = Inr b" "Marshal J c w = Inr b" "length b \<le> mx"
  shows "v = w"
  using codec_okD [OF assms(1,2,4)] codec_okD [OF assms(1,3,4)] by simp

section \<open>Properties\<close>


definition sample_json_lib :: json_lib where
  "sample_json_lib =
     \<lparr>tokens = (\<lambda>d. (toks (JObject [(''a'', JNumber ''1''), (''b'', JArray [JNull, JNumber d])]), EOF)),
      number_json = (\<lambda>s. Some (Some s)), jcs_Transform = Inr\<rparr>"


end
