(* ===== verification/Git3_Git.thy ===== *)
theory Git3_Git
  imports Git3_Errs
begin

text \<open>
  The local side: what git3 uses of the operating system, and the wrapper around the native
  \<^verbatim>\<open>git\<close> program (\<^verbatim>\<open>src/internal/git/git.go\<close>).

  The operating system and the \<^verbatim>\<open>git\<close> program are outside the repository: they are the
  record \<open>OS\<close> of operations over an unspecified local state \<open>'g\<close>. A process is started with
  its environment, directory, arguments and standard input, and yields its outputs and its exit
  error. The functions of the wrapper build the command lines, interpret the outputs and
  classify the errors, and are modelled one by one. Progress output is not modelled.
\<close>

section \<open>The operating system\<close>

text \<open>
  \<open>xr_start\<close> is the error of creating the pipes or starting the process, \<open>xr_exit\<close> the error
  of \<^verbatim>\<open>Wait\<close> with the exit status \<open>xr_code\<close> when it is an \<^verbatim>\<open>*exec.ExitError\<close>.
\<close>

record exec_result =
  xr_start :: "goerr option"
  xr_out :: bytes
  xr_err :: bytes
  xr_exit :: "goerr option"
  xr_code :: "int option"

record 'g OS =
  os_Exec :: "string list \<Rightarrow> string \<Rightarrow> string list \<Rightarrow> bytes \<times> goerr option \<Rightarrow> 'g \<Rightarrow> exec_result \<times> 'g"
  os_Environ :: "'g \<Rightarrow> string list"
  os_CtxErr :: "'g \<Rightarrow> goerr option"
  os_MkdirAll :: "string \<Rightarrow> ('g, unit) prog"
  os_MkdirTemp :: "string \<Rightarrow> string \<Rightarrow> ('g, string) prog"
  os_OpenExcl :: "string \<Rightarrow> ('g, unit) prog"
  os_CreateTemp :: "string \<Rightarrow> string \<Rightarrow> ('g, string) prog"
  os_Chmod :: "string \<Rightarrow> nat \<Rightarrow> ('g, unit) prog"
  os_WriteFile :: "string \<Rightarrow> bytes \<Rightarrow> ('g, unit) prog"
  os_Sync :: "string \<Rightarrow> ('g, unit) prog"
  os_Close :: "string \<Rightarrow> ('g, unit) prog"
  os_SyncDir :: "string \<Rightarrow> ('g, unit) prog"
  os_Rename :: "string \<Rightarrow> string \<Rightarrow> ('g, unit) prog"
  os_Remove :: "string \<Rightarrow> ('g, unit) prog"
  os_RemoveAll :: "string \<Rightarrow> ('g, unit) prog"
  os_ReadFile :: "string \<Rightarrow> ('g, bytes) prog"
  os_Stat :: "string \<Rightarrow> ('g, unit) prog"
  os_Lock :: "string \<Rightarrow> ('g, unit) prog"
  os_Unlock :: "string \<Rightarrow> ('g, unit) prog"

section \<open>Strings and paths\<close>

definition is_space :: "char \<Rightarrow> bool" where
  "is_space c \<longleftrightarrow> (of_char c :: nat) = 32 \<or> (9 \<le> (of_char c :: nat) \<and> (of_char c :: nat) \<le> 13)"

text \<open>\<^verbatim>\<open>strings.TrimSpace\<close> and \<^verbatim>\<open>strings.Fields\<close> on ASCII white space.\<close>

definition TrimSpace :: "string \<Rightarrow> string" where
  "TrimSpace s = rev (dropWhile is_space (rev (dropWhile is_space s)))"

fun fieldsFrom :: "string \<Rightarrow> string \<Rightarrow> string list" where
  "fieldsFrom acc [] = (if acc = [] then [] else [rev acc])"
| "fieldsFrom acc (c # cs) =
     (if is_space c then (if acc = [] then [] else [rev acc]) @ fieldsFrom [] cs
      else fieldsFrom (c # acc) cs)"

definition Fields :: "string \<Rightarrow> string list" where
  "Fields s = fieldsFrom [] s"

fun JoinSep :: "string \<Rightarrow> string list \<Rightarrow> string" where
  "JoinSep sep [] = []"
| "JoinSep sep [x] = x"
| "JoinSep sep (x # y # ys) = x @ sep @ JoinSep sep (y # ys)"

text \<open>\<^verbatim>\<open>strconv.Atoi\<close>: an optional sign and decimal digits within the range of \<^verbatim>\<open>int\<close>.\<close>

definition Atoi :: "string \<Rightarrow> int option" where
  "Atoi s =
     (let neg = HasPrefix s ''-'';
          d = (if neg \<or> HasPrefix s ''+'' then drop 1 s else s) in
      case ParseUint d 64 of
        None \<Rightarrow> None
      | Some n \<Rightarrow>
         (if neg then (if n \<le> 2 ^ 63 then Some (- int n) else None)
          else if n < 2 ^ 63 then Some (int n) else None))"

text \<open>
  \<^verbatim>\<open>filepath.Clean\<close>, \<^verbatim>\<open>Join\<close>, \<^verbatim>\<open>Base\<close> and \<^verbatim>\<open>Dir\<close>: \<open>cleanSegs\<close> keeps the reversed
  segments of the result.
\<close>

fun cleanSegs :: "bool \<Rightarrow> string list \<Rightarrow> string list \<Rightarrow> string list" where
  "cleanSegs rooted acc [] = rev acc"
| "cleanSegs rooted acc (p # ps) =
     (if p = [] \<or> p = ''.'' then cleanSegs rooted acc ps
      else if p = ''..'' then
        (case acc of
           [] \<Rightarrow> cleanSegs rooted (if rooted then [] else [''..'']) ps
         | q # qs \<Rightarrow> cleanSegs rooted (if q = ''..'' then ''..'' # acc else qs) ps)
      else cleanSegs rooted (p # acc) ps)"

definition Clean :: "string \<Rightarrow> string" where
  "Clean p =
     (let rooted = HasPrefix p ''/'';
          s = (if rooted then ''/'' else []) @ JoinSep ''/'' (cleanSegs rooted [] (SplitByte (CHR ''/'') p)) in
      if s = [] then ''.'' else s)"

definition filepath_Join :: "string \<Rightarrow> string \<Rightarrow> string" where
  "filepath_Join a b =
     (if a = [] \<and> b = [] then [] else if a = [] then Clean b else Clean (a @ ''/'' @ b))"

definition filepath_Base :: "string \<Rightarrow> string" where
  "filepath_Base p =
     (if p = [] then ''.''
      else (let q = rev (dropWhile (\<lambda>c. c = CHR ''/'') (rev p)) in
        if q = [] then ''/'' else last (SplitByte (CHR ''/'') q)))"

definition filepath_Dir :: "string \<Rightarrow> string" where
  "filepath_Dir p = Clean (rev (dropWhile (\<lambda>c. c \<noteq> CHR ''/'') (rev p)))"

text \<open>Lines as \<^verbatim>\<open>fmt.Fprintln\<close> writes them and as \<^verbatim>\<open>bufio.Scanner\<close> reads them.\<close>

definition NL :: char where "NL = CHR 0x0A"

definition println_lines :: "string list \<Rightarrow> bytes" where
  "println_lines ls = concat (map (\<lambda>l. l @ [NL]) ls)"

definition dropTrailingCR :: "string \<Rightarrow> string" where
  "dropTrailingCR s = (if s \<noteq> [] \<and> last s = CHR 0x0D then butlast s else s)"

definition ScanText :: "bytes \<Rightarrow> string list" where
  "ScanText b =
     (let ls = SplitByte NL b in
      map dropTrailingCR (if last ls = [] then butlast ls else ls))"

section \<open>Running git\<close>

definition repositoryVariables :: "string list" where
  "repositoryVariables =
     [''GIT_ALTERNATE_OBJECT_DIRECTORIES'', ''GIT_COMMON_DIR'', ''GIT_DIR'', ''GIT_GRAFT_FILE'',
      ''GIT_INDEX_FILE'', ''GIT_OBJECT_DIRECTORY'', ''GIT_PREFIX'', ''GIT_REPLACE_REF_BASE'',
      ''GIT_SHALLOW_FILE'', ''GIT_WORK_TREE'']"

definition withoutRepositoryEnvironment :: "string list \<Rightarrow> string list" where
  "withoutRepositoryEnvironment env =
     filter (\<lambda>v. fst (CutByte v (CHR ''='')) \<notin> set repositoryVariables) env"

definition git_cmd ::
  "'g OS \<Rightarrow> string \<Rightarrow> string list \<Rightarrow> bytes \<times> goerr option \<Rightarrow> 'g \<Rightarrow> exec_result \<times> 'g"
where
  "git_cmd Os dir args stdin g =
     (let env = (if dir \<noteq> [] then withoutRepositoryEnvironment (os_Environ Os g)
                 else os_Environ Os g) in
      os_Exec Os (env @ [''GIT_OPTIONAL_LOCKS=0'']) dir args stdin g)"

definition exec_error :: "exec_result \<Rightarrow> goerr option" where
  "exec_error r = (case xr_start r of Some e \<Rightarrow> Some e | None \<Rightarrow> xr_exit r)"

text \<open>The error of a failed process: that of the context first.\<close>

definition git_failure :: "'g OS \<Rightarrow> 'g \<Rightarrow> string \<Rightarrow> goerr \<Rightarrow> bytes \<Rightarrow> goerr" where
  "git_failure Os g op e stderr =
     (case os_CtxErr Os g of
        Some c \<Rightarrow> c
      | None \<Rightarrow> E LocalGitFailed op (Wrapf ''%w: %s'' [stderr] e))"

definition git_Run :: "'g OS \<Rightarrow> string \<Rightarrow> string list \<Rightarrow> ('g, bytes) prog" where
  "git_Run Os dir args g =
     (case git_cmd Os dir args ([], None) g of
        (r, g') \<Rightarrow>
          (case exec_error r of
             Some e \<Rightarrow>
               (Inl (git_failure Os g' (''git '' @ JoinSep '' '' args) e (TrimSpace (xr_err r))), g')
           | None \<Rightarrow> (Inr (xr_out r), g')))"

definition git_text :: "'g OS \<Rightarrow> string \<Rightarrow> string list \<Rightarrow> ('g, string) prog" where
  "git_text Os dir args = bindP (git_Run Os dir args) (\<lambda>b. returnP (TrimSpace b))"

definition git_unit :: "'g OS \<Rightarrow> string \<Rightarrow> string list \<Rightarrow> ('g, unit) prog" where
  "git_unit Os dir args = bindP (git_Run Os dir args) (\<lambda>_. returnP ())"

definition git_Version :: "'g OS \<Rightarrow> string \<Rightarrow> ('g, string) prog" where
  "git_Version Os dir = git_text Os dir [''--version'']"

definition version_ok :: "int \<Rightarrow> int \<Rightarrow> string \<Rightarrow> goerr option" where
  "version_ok major minor v =
     (let fields = Fields v; parts = SplitByte (CHR ''.'') (fields ! 2) in
      if length fields < 3 \<or> length parts < 2
      then Some (Errorf ''unrecognized Git version %q'' [v])
      else (case (Atoi (parts ! 0), Atoi (parts ! 1)) of
          (Some ma, Some mi) \<Rightarrow>
            failIf (ma < major \<or> ma = major \<and> mi < minor)
              (Errorf ''Git %d.%d or newer is required (found %s)'' [dec_int major, dec_int minor, v])
        | _ \<Rightarrow>
            Some (Errorf ''Git %d.%d or newer is required (found %s)''
              [dec_int major, dec_int minor, v])))"

definition git_RequireVersion :: "'g OS \<Rightarrow> string \<Rightarrow> int \<Rightarrow> int \<Rightarrow> ('g, unit) prog" where
  "git_RequireVersion Os dir major minor =
     bindP (git_Version Os dir) (\<lambda>v. checkP (version_ok major minor v) (returnP ()))"

definition git_ObjectFormat :: "'g OS \<Rightarrow> string \<Rightarrow> ('g, string) prog" where
  "git_ObjectFormat Os dir = git_text Os dir [''rev-parse'', ''--show-object-format'']"

definition git_GitPath :: "'g OS \<Rightarrow> string \<Rightarrow> string \<Rightarrow> ('g, string) prog" where
  "git_GitPath Os dir path =
     git_text Os dir [''rev-parse'', ''--path-format=absolute'', ''--git-path'', path]"

definition git_Resolve :: "'g OS \<Rightarrow> string \<Rightarrow> string \<Rightarrow> ('g, string) prog" where
  "git_Resolve Os dir name =
     git_text Os dir [''rev-parse'', ''--verify'', name @ ''^'' @ [CHR 0x7B] @ ''object'' @ [CHR 0x7D]]"

text \<open>The loop over the unique object IDs and the output lines; the result is the set that exists.\<close>

fun matchObjects :: "string list \<Rightarrow> string list \<Rightarrow> string list res" where
  "matchObjects [] [] = Inr []"
| "matchObjects [] (l # ls) = Inl (Errorf ''git cat-file returned too many results'' [])"
| "matchObjects (oid # oids) [] = Inl (Errorf ''git cat-file returned too few results'' [])"
| "matchObjects (oid # oids) (l # ls) =
     (if l = oid then
        (case matchObjects oids ls of Inl e \<Rightarrow> Inl e | Inr xs \<Rightarrow> Inr (oid # xs))
      else if l \<noteq> oid @ '' missing'' then Inl (Errorf ''unexpected git cat-file result %q'' [l])
      else matchObjects oids ls)"

fun uniqueFrom :: "string list \<Rightarrow> string list \<Rightarrow> string list" where
  "uniqueFrom seen [] = []"
| "uniqueFrom seen (x # xs) =
     (if x \<in> set seen then uniqueFrom seen xs else x # uniqueFrom (x # seen) xs)"

definition git_ExistingObjects :: "'g OS \<Rightarrow> string \<Rightarrow> string list \<Rightarrow> ('g, string list) prog" where
  "git_ExistingObjects Os dir oids g =
     (if oids = [] then (Inr [], g)
      else (let unique = uniqueFrom [] oids in
        case git_cmd Os dir [''cat-file'', ''--batch-check=%(objectname)'']
               (println_lines unique, None) g of
          (r, g') \<Rightarrow>
            (case exec_error r of
               Some e \<Rightarrow>
                 (Inl (git_failure Os g' ''git cat-file --batch-check'' e (TrimSpace (xr_err r))), g')
             | None \<Rightarrow> (matchObjects unique (ScanText (xr_out r)), g'))))"

definition git_HasObject :: "'g OS \<Rightarrow> string \<Rightarrow> string \<Rightarrow> 'g \<Rightarrow> bool \<times> 'g" where
  "git_HasObject Os dir oid g =
     (case git_ExistingObjects Os dir [oid] g of
        (Inl e, g') \<Rightarrow> (False, g') | (Inr ex, g') \<Rightarrow> (oid \<in> set ex, g'))"

definition git_IsAncestor :: "'g OS \<Rightarrow> string \<Rightarrow> string \<Rightarrow> string \<Rightarrow> ('g, bool) prog" where
  "git_IsAncestor Os dir old new g =
     (case git_cmd Os dir [''merge-base'', ''--is-ancestor'', old, new] ([], None) g of
        (r, g') \<Rightarrow>
          (case exec_error r of
             None \<Rightarrow> (Inr True, g')
           | Some e \<Rightarrow>
              (if xr_start r = None \<and> xr_code r = Some 1 then (Inr False, g')
               else (case os_CtxErr Os g' of
                   Some c \<Rightarrow> (Inl c, g')
                 | None \<Rightarrow> (Inl (E LocalGitFailed ''git merge-base --is-ancestor'' e), g')))))"

definition git_CheckRef :: "'g OS \<Rightarrow> string \<Rightarrow> string \<Rightarrow> ('g, unit) prog" where
  "git_CheckRef Os dir ref g =
     (case git_cmd Os dir [''check-ref-format'', ref] ([], None) g of
        (r, g') \<Rightarrow> (case exec_error r of Some e \<Rightarrow> (Inl e, g') | None \<Rightarrow> (Inr (), g')))"

definition git_SymbolicHEAD :: "'g OS \<Rightarrow> string \<Rightarrow> ('g, string) prog" where
  "git_SymbolicHEAD Os dir = git_text Os dir [''symbolic-ref'', ''-q'', ''HEAD'']"

text \<open>The values of a map, in the order of its keys: Go's own order is unspecified.\<close>

definition ref_values :: "refs \<Rightarrow> string list" where
  "ref_values m = map (\<lambda>k. the (fmlookup m k)) (sorted_keys m)"

definition git_VerifyConnectivity :: "'g OS \<Rightarrow> string \<Rightarrow> refs \<Rightarrow> ('g, unit) prog" where
  "git_VerifyConnectivity Os dir refs g =
     (if fmlen refs = 0 then (Inr (), g)
      else (case git_cmd Os dir [''rev-list'', ''--objects'', ''--stdin'', ''--missing=print'']
                   (println_lines (ref_values refs), None) g of
          (r, g') \<Rightarrow>
            (case xr_start r of
               Some e \<Rightarrow> (Inl e, g')
             | None \<Rightarrow>
                (case xr_exit r of
                   Some e \<Rightarrow> (Inl (git_failure Os g' ''git connectivity'' e (xr_err r)), g')
                 | None \<Rightarrow>
                    (case find (\<lambda>l. HasPrefix l ''?'') (ScanText (xr_out r)) of
                       Some l \<Rightarrow>
                         (Inl (E IntegrityFailed ''git connectivity''
                            (Errorf ''missing object %s'' [TrimPrefix l ''?''])), g')
                     | None \<Rightarrow> (Inr (), g'))))))"

section \<open>Packs\<close>

text \<open>
  \<^verbatim>\<open>ProcessReader\<close>: the bytes the process writes and the result of \<^verbatim>\<open>Wait\<close>.
\<close>

record ProcessReader =
  pr_Reader :: "bytes \<times> goerr option"
  pr_Wait :: "goerr option"

definition ProcessReader_Wait :: "exec_result \<Rightarrow> goerr option" where
  "ProcessReader_Wait r = (case xr_exit r of
      None \<Rightarrow> None
    | Some e \<Rightarrow> Some (E LocalGitFailed ''git pack-objects'' (Wrapf ''%w: %s'' [xr_err r] e)))"

definition revs_input :: "string list \<Rightarrow> string list \<Rightarrow> bytes" where
  "revs_input positive negative =
     println_lines (positive @ map (\<lambda>x. ''^'' @ x) negative)"

definition git_PackObjects ::
  "'g OS \<Rightarrow> string \<Rightarrow> string list \<Rightarrow> string list \<Rightarrow> bool \<Rightarrow> ('g, ProcessReader) prog"
where
  "git_PackObjects Os dir positive negative thin g =
     (case git_cmd Os dir
             ([''pack-objects'', ''--revs'', ''--stdout''] @ (if thin then [''--thin''] else []))
             (revs_input positive negative, None) g of
        (r, g') \<Rightarrow>
          (case xr_start r of
             Some e \<Rightarrow> (Inl e, g')
           | None \<Rightarrow>
              (Inr \<lparr>pr_Reader = (xr_out r, None), pr_Wait = ProcessReader_Wait r\<rparr>, g')))"

definition git_IndexPack ::
  "'g OS \<Rightarrow> string \<Rightarrow> bytes \<times> goerr option \<Rightarrow> bool \<Rightarrow> string \<Rightarrow> ('g, string) prog"
where
  "git_IndexPack Os dir stdin fixThin keep g =
     (case git_cmd Os dir
             ([''index-pack'', ''--stdin'', ''--strict''] @
              (if fixThin then [''--fix-thin''] else []) @
              (if keep \<noteq> [] then [''--keep='' @ keep] else [])) stdin g of
        (r, g') \<Rightarrow>
          (case exec_error r of
             Some e \<Rightarrow> (Inl (git_failure Os g' ''git index-pack'' e (xr_err r)), g')
           | None \<Rightarrow> (Inr (TrimSpace (xr_out r)), g')))"

definition git_IndexPackFile :: "'g OS \<Rightarrow> string \<Rightarrow> string \<Rightarrow> ('g, unit) prog" where
  "git_IndexPackFile Os dir pack = git_unit Os dir [''index-pack'', ''--strict'', pack]"

definition git_VerifyPack :: "'g OS \<Rightarrow> string \<Rightarrow> string \<Rightarrow> ('g, unit) prog" where
  "git_VerifyPack Os dir index = git_unit Os dir [''verify-pack'', index]"

text \<open>\<^verbatim>\<open>binary.BigEndian.Uint32\<close>.\<close>

definition BigEndian32 :: "bytes \<Rightarrow> nat" where
  "BigEndian32 b = foldl (\<lambda>a c. a * 256 + of_char c) 0 (take 4 b)"

text \<open>The object count of a pack index: the last entry of its fan-out table.\<close>

definition countIndex :: "bytes \<Rightarrow> u64 res" where
  "countIndex b =
     (if length b < 8 then
        Inl (Wrapf ''read pack index header: %w'' [] (if b = [] then EOF else ErrUnexpectedEOF))
      else
        (let v2 = take 4 b = [CHR 0xFF, CHR ''t'', CHR ''O'', CHR ''c''];
             version = BigEndian32 (drop 4 b);
             offset = 255 * 4 + (if v2 then 8 else 0) in
         if v2 \<and> version \<noteq> 2 then Inl (Errorf ''unsupported pack index version %d'' [dec version])
         else if length b < offset + 4 then Inl (Wrapf ''read pack index fanout: %w'' [] EOF)
         else Inr (of_nat (BigEndian32 (drop offset b)))))"

definition git_CountPackObjects :: "'g OS \<Rightarrow> string \<Rightarrow> ('g, u64) prog" where
  "git_CountPackObjects Os index = bindP (os_ReadFile Os index) (\<lambda>b. liftP (countIndex b))"

definition git_WriteMIDX :: "'g OS \<Rightarrow> string \<Rightarrow> ('g, unit) prog" where
  "git_WriteMIDX Os dir = git_unit Os dir [''multi-pack-index'', ''write'']"

definition git_IsComplete :: "'g OS \<Rightarrow> string \<Rightarrow> ('g, unit) prog" where
  "git_IsComplete Os dir =
     tryP (git_Run Os dir [''rev-parse'', ''--is-shallow-repository'']) (\<lambda>shallow.
     checkP (case shallow of
         Inr b \<Rightarrow> failIf (TrimSpace b = ''true'') (Errorf ''shallow or partial repository'' [])
       | Inl _ \<Rightarrow> None)
     (tryP (git_Run Os dir [''config'', ''--get'', ''extensions.partialClone'']) (\<lambda>partial.
     checkP (case partial of
         Inr b \<Rightarrow> failIf (TrimSpace b = ''true'' \<or> length (TrimSpace b) > 0)
                  (Errorf ''shallow or partial repository'' [])
       | Inl _ \<Rightarrow> None)
     (git_unit Os dir [''fsck'', ''--connectivity-only'', ''--no-dangling'']))))"

definition git_PackDir :: "'g OS \<Rightarrow> string \<Rightarrow> ('g, string) prog" where
  "git_PackDir Os dir = bindP (git_GitPath Os dir ''objects/pack'') (\<lambda>p. returnP (Clean p))"

text \<open>The common part of \<^verbatim>\<open>CreatePack\<close> and \<^verbatim>\<open>MergePacks\<close> after the directory is made.\<close>

definition git_writePack ::
  "'g OS \<Rightarrow> string \<Rightarrow> string list \<Rightarrow> string \<Rightarrow> string \<Rightarrow> bytes \<Rightarrow> ('g, string \<times> string) prog"
where
  "git_writePack Os dir args op base stdin g =
     (case git_cmd Os dir (args @ [base]) (stdin, None) g of
        (r, g') \<Rightarrow>
          (case xr_start r of
             Some e \<Rightarrow> (Inl e, g')
           | None \<Rightarrow>
              (case xr_exit r of
                 Some e \<Rightarrow> (Inl (git_failure Os g' op e (xr_err r)), g')
               | None \<Rightarrow>
                  (let sum = TrimSpace (xr_out r) in
                   (Inr (base @ ''-'' @ sum @ ''.pack'', base @ ''-'' @ sum @ ''.idx''), g')))))"

definition git_CreatePack ::
  "'g OS \<Rightarrow> string \<Rightarrow> string \<Rightarrow> string list \<Rightarrow> string list \<Rightarrow> ('g, string \<times> string) prog"
where
  "git_CreatePack Os dir tmp positive negative =
     bindP (os_MkdirAll Os tmp) (\<lambda>_.
       git_writePack Os dir [''pack-objects'', ''--revs''] ''git pack-objects''
         (filepath_Join tmp ''pack'') (revs_input positive negative))"

definition git_MergePacks ::
  "'g OS \<Rightarrow> string \<Rightarrow> string \<Rightarrow> string list \<Rightarrow> ('g, string \<times> string) prog"
where
  "git_MergePacks Os dir tmp packNames =
     bindP (os_MkdirAll Os tmp) (\<lambda>_.
       git_writePack Os dir [''pack-objects'', ''--stdin-packs''] ''git pack-objects --stdin-packs''
         (filepath_Join tmp ''merge'') (println_lines packNames))"

text \<open>\<^verbatim>\<open>Git{}.Run(ctx, "init", "--bare", "--object-format="+format, dir)\<close>.\<close>

definition git_InitBare :: "'g OS \<Rightarrow> string \<Rightarrow> string \<Rightarrow> ('g, unit) prog" where
  "git_InitBare Os format tmp =
     git_unit Os [] [''init'', ''--bare'', ''--object-format='' @ format, tmp]"

section \<open>Lemmas\<close>

lemma Split_println:
  "list_all (\<lambda>l. NL \<notin> set l) ls \<Longrightarrow> SplitByte NL (println_lines ls) = ls @ [[]]"
  by (induction ls) (auto simp: println_lines_def SplitByte_append_sep)

lemma ScanText_println:
  assumes "list_all (\<lambda>l. NL \<notin> set l \<and> CHR 0x0D \<notin> set l) ls"
  shows "ScanText (println_lines ls) = ls"
proof -
  have "map dropTrailingCR ls = ls"
    using assms by (intro map_idI) (auto simp: dropTrailingCR_def list_all_iff dest: last_in_set)
  moreover have "SplitByte NL (println_lines ls) = ls @ [[]]"
    using assms by (intro Split_println) (auto simp: list_all_iff)
  ultimately show ?thesis by (simp add: ScanText_def)
qed

lemma uniqueFrom_set: "set (uniqueFrom seen xs) = set xs - set seen"
  by (induction xs arbitrary: seen) auto

lemma uniqueFrom_distinct: "distinct (uniqueFrom seen xs)"
  by (induction xs arbitrary: seen) (auto simp: uniqueFrom_set)

definition batch_answer :: "(string \<Rightarrow> bool) \<Rightarrow> string \<Rightarrow> string" where
  "batch_answer P oid = (if P oid then oid else oid @ '' missing'')"

lemma matchObjects_answers:
  "matchObjects oids (map (batch_answer P) oids) = Inr (filter P oids)"
  by (induction oids) (auto simp: batch_answer_def)

text \<open>Whatever the process prints, only IDs that were asked for are reported.\<close>

lemma matchObjects_subset: "matchObjects oids ls = Inr xs \<Longrightarrow> set xs \<subseteq> set oids"
  by (induction oids ls arbitrary: xs rule: matchObjects.induct)
    (auto split: sum.splits if_splits)

lemma ExistingObjects_subset:
  "git_ExistingObjects Os dir oids g = (Inr xs, g') \<Longrightarrow> set xs \<subseteq> set oids"
  by (auto simp: git_ExistingObjects_def Let_def uniqueFrom_set
      split: prod.splits option.splits if_splits dest!: matchObjects_subset)

lemma of_char_less_256: "(of_char c :: nat) < 256"
  by simp

lemma BigEndian32_less: "BigEndian32 b < 2 ^ 32"
proof -
  have step: "foldl (\<lambda>a c. a * 256 + of_char c) (k :: nat) cs < (k + 1) * 256 ^ length cs" for k and cs :: string
  proof (induction cs arbitrary: k)
    case (Cons c cs k)
    have "x < 256 \<Longrightarrow> k * 256 + x + 1 \<le> (k + 1) * 256" for x :: nat by simp
    from this [OF of_char_less_256] have "k * 256 + of_char c + 1 \<le> (k + 1) * 256" .
    then have "(k * 256 + of_char c + 1) * 256 ^ length cs \<le> (k + 1) * 256 * 256 ^ length cs"
      by (intro mult_right_mono) simp_all
    from less_le_trans [OF Cons.IH this] show ?case by (simp add: distrib_right)
  qed simp
  have "(256 :: nat) ^ length (take 4 b) \<le> 256 ^ 4"
    by (intro power_increasing) simp_all
  with step [of 0 "take 4 b"] show ?thesis by (simp add: BigEndian32_def)
qed

section \<open>Properties\<close>

text \<open>
  C33: when \<^verbatim>\<open>git cat-file\<close> answers every object ID with the ID or with the ID and
  \<^verbatim>\<open>missing\<close>, \<^verbatim>\<open>ExistingObjects\<close> reports exactly the requested IDs that exist, each once,
  however often it was requested.
\<close>

theorem existing_objects_exact:
  assumes "oids \<noteq> []"
    and "list_all (\<lambda>l. NL \<notin> set l \<and> CHR 0x0D \<notin> set l) oids"
    and "git_cmd Os dir [''cat-file'', ''--batch-check=%(objectname)'']
           (println_lines (uniqueFrom [] oids), None) g =
         (\<lparr>xr_start = None, xr_out = println_lines (map (batch_answer P) (uniqueFrom [] oids)),
           xr_err = [], xr_exit = None, xr_code = Some 0\<rparr>, g')"
  shows "\<exists>xs. git_ExistingObjects Os dir oids g = (Inr xs, g') \<and>
    set xs = {oid \<in> set oids. P oid} \<and> distinct xs"
proof -
  have "list_all (\<lambda>l. NL \<notin> set l \<and> CHR 0x0D \<notin> set l) (map (batch_answer P) (uniqueFrom [] oids))"
    using assms(2) by (auto simp: list_all_iff batch_answer_def uniqueFrom_set NL_def)
  from ScanText_println [OF this] show ?thesis
    using assms(1,3)
    by (auto simp: git_ExistingObjects_def Let_def exec_error_def matchObjects_answers
        uniqueFrom_set uniqueFrom_distinct)
qed

text \<open>A sample operating system: a process that answers \<^verbatim>\<open>cat-file\<close>, and nothing else.\<close>

definition no_op :: "(unit, 'a) prog" where
  "no_op = failP (Errorf ''not available'' [])"

definition sample_batch_OS :: "unit OS" where
  "sample_batch_OS =
     \<lparr>os_Exec = (\<lambda>env dir args stdin g.
        (\<lparr>xr_start = None,
          xr_out = println_lines (map (batch_answer (\<lambda>x. x = ''aa'')) (ScanText (fst stdin))),
          xr_err = [], xr_exit = None, xr_code = Some 0\<rparr>, g)),
      os_Environ = (\<lambda>g. []), os_CtxErr = (\<lambda>g. None), os_MkdirAll = (\<lambda>p. no_op),
      os_MkdirTemp = (\<lambda>d p. no_op), os_OpenExcl = (\<lambda>p. no_op),
      os_CreateTemp = (\<lambda>d p. no_op), os_Chmod = (\<lambda>p m. no_op),
      os_WriteFile = (\<lambda>p b. no_op), os_Sync = (\<lambda>p. no_op), os_Close = (\<lambda>p. no_op),
      os_SyncDir = (\<lambda>p. no_op), os_Rename = (\<lambda>p q. no_op), os_Remove = (\<lambda>p. no_op),
      os_RemoveAll = (\<lambda>p. no_op), os_ReadFile = (\<lambda>p. no_op), os_Stat = (\<lambda>p. no_op),
      os_Lock = (\<lambda>p. no_op), os_Unlock = (\<lambda>p. no_op)\<rparr>"

theorem existing_objects_exact_witness:
  "\<exists>xs. git_ExistingObjects sample_batch_OS [] [''aa'', ''bb'', ''aa''] () = (Inr xs, ()) \<and>
     set xs = {''aa''}"
proof -
  let ?oids = "[''aa'', ''bb'', ''aa'']"
  have lines: "list_all (\<lambda>l. NL \<notin> set l \<and> CHR 0x0D \<notin> set l) ?oids" by (simp add: NL_def)
  have "ScanText (println_lines (uniqueFrom [] ?oids)) = uniqueFrom [] ?oids"
    by (rule ScanText_println) (simp add: NL_def)
  then have "git_cmd sample_batch_OS [] [''cat-file'', ''--batch-check=%(objectname)'']
      (println_lines (uniqueFrom [] ?oids), None) () =
    (\<lparr>xr_start = None,
      xr_out = println_lines (map (batch_answer (\<lambda>x. x = ''aa'')) (uniqueFrom [] ?oids)),
      xr_err = [], xr_exit = None, xr_code = Some 0\<rparr>, ())"
    by (simp add: git_cmd_def sample_batch_OS_def)
  from existing_objects_exact [OF _ lines this] obtain xs where
    "git_ExistingObjects sample_batch_OS [] ?oids () = (Inr xs, ())"
    "set xs = {oid \<in> set ?oids. oid = ''aa''}" by blast
  then show ?thesis by auto
qed

end
