(* ===== verification/Git3_Lib.thy ===== *)
theory Git3_Lib
  imports Git3_Snapshot Git3_Store Git3_Canonical Git3_Git
begin

text \<open>
  What the engine takes from outside the repository, in one record: the operating system, the
  digest, the UUID generator, the clock and the JSON codec of each document; and the world an
  engine operation runs in, a pair of the state of the object store and the local state.
\<close>

section \<open>Libraries\<close>

record 'g lib =
  x_page_fuel :: nat
  x_OS :: "'g OS"
  x_ident :: ident
  x_Sum256 :: "bytes \<Rightarrow> bytes"
  x_NewString :: "'g \<Rightarrow> string \<times> 'g"
  x_Now :: "'g \<Rightarrow> time \<times> 'g"
  x_json :: json_lib
  x_Head :: "Head codec"
  x_Transaction :: "Transaction codec"
  x_Envelopes :: "Envelope list codec"
  x_LogPage :: "LogPage codec"
  x_Packset :: "Packset codec"
  x_GCPlan :: "GCPlan codec"
  x_Cursor :: "Cursor codec"

text \<open>
  \<open>x_page_fuel\<close> is not part of the program: it bounds how many log pages the model follows.
\<close>

text \<open>\<^verbatim>\<open>hex.EncodeToString\<close> of \<^verbatim>\<open>sha256.Sum256\<close>.\<close>

definition digest :: "'g lib \<Rightarrow> bytes \<Rightarrow> string" where
  "digest X b = EncodeToString (x_Sum256 X b)"

section \<open>Worlds\<close>

definition onStore :: "('s, 'a) prog \<Rightarrow> ('s \<times> 'g, 'a) prog" where
  "onStore m w = (case m (fst w) of (r, s) \<Rightarrow> (r, (s, snd w)))"

definition onLocal :: "('g, 'a) prog \<Rightarrow> ('s \<times> 'g, 'a) prog" where
  "onLocal m w = (case m (snd w) of (r, g) \<Rightarrow> (r, (fst w, g)))"

text \<open>An operation that cannot fail.\<close>

definition total :: "('g \<Rightarrow> 'a \<times> 'g) \<Rightarrow> ('g, 'a) prog" where
  "total f g = (case f g of (x, g') \<Rightarrow> (Inr x, g'))"

text \<open>\<^verbatim>\<open>defer c\<close>: the clean-up runs on every way out and its own result is dropped.\<close>

definition finallyP :: "('w, 'a) prog \<Rightarrow> ('w, unit) prog \<Rightarrow> ('w, 'a) prog" where
  "finallyP m c = tryP m (\<lambda>r. tryP c (\<lambda>_. liftP r))"

definition NewString :: "'g lib \<Rightarrow> ('s \<times> 'g, string) prog" where
  "NewString X = onLocal (total (x_NewString X))"

lemma onStore_run: "onStore m (s, g) = (fst (m s), (snd (m s), g))"
  by (simp add: onStore_def split: prod.splits)

lemma onStore_iff [run_simps]:
  "onStore m (s, g) = (r, w) \<longleftrightarrow> (\<exists>s'. m s = (r, s') \<and> w = (s', g))"
  by (auto simp: onStore_def split: prod.splits)

lemma onLocal_iff [run_simps]:
  "onLocal m (s, g) = (r, w) \<longleftrightarrow> (\<exists>g'. m g = (r, g') \<and> w = (s, g'))"
  by (auto simp: onLocal_def split: prod.splits)

lemma onStore_snd [simp]: "snd (snd (onStore m w)) = snd w"
  by (simp add: onStore_def split: prod.splits)

lemma onLocal_fst [simp]: "fst (snd (onLocal m w)) = fst w"
  by (simp add: onLocal_def split: prod.splits)

lemma total_iff [run_simps]: "total f g = (r, g') \<longleftrightarrow> (\<exists>x. f g = (x, g') \<and> r = Inr x)"
  by (auto simp: total_def split: prod.splits)

lemma finallyP_iff [run_simps]:
  "finallyP m c w = (r, w2) \<longleftrightarrow> (\<exists>w1 r1. m w = (r, w1) \<and> c w1 = (r1, w2))"
  by (auto simp: finallyP_def tryP_def split: prod.splits)

lemma finallyP_fst [simp]: "fst (finallyP m c w) = fst (m w)"
  by (simp add: finallyP_def tryP_def split: prod.splits)

text \<open>A relation between store states that a program keeps, whatever it does locally.\<close>

definition store_rel :: "('s \<Rightarrow> 's \<Rightarrow> bool) \<Rightarrow> 's \<times> 'g \<Rightarrow> 's \<times> 'g \<Rightarrow> bool" where
  "store_rel R w w' \<longleftrightarrow> R (fst w) (fst w')"

lemma store_rel_po:
  "reflp R \<Longrightarrow> reflp (store_rel R)" "transp R \<Longrightarrow> transp (store_rel R)"
  by (auto simp: store_rel_def reflp_def transp_def)

lemma keeps_onLocal [intro]: "reflp R \<Longrightarrow> keeps (store_rel R) (onLocal m)"
  by (auto simp: keeps_def store_rel_def dest: reflpD)

lemma keeps_onStore [intro]: "keeps R m \<Longrightarrow> keeps (store_rel R) (onStore m)"
  by (auto simp: keeps_def store_rel_def onStore_run)

lemma keeps_finallyP [intro]:
  assumes "reflp R" "transp R" "keeps R m" "keeps R c"
  shows "keeps R (finallyP m c)"
  unfolding finallyP_def using assms by (intro keeps_tryP keeps_pure)

section \<open>Times\<close>

text \<open>
  \<^verbatim>\<open>t.UTC().Truncate(time.Second).Format("2006-01-02T15:04:05Z")\<close> of a time in nanoseconds
  since 1970: the day is counted from the first of January of the year zero, whole cycles of
  400 years are divided out, and the years and months of the remainder are walked.
\<close>

definition yearDays :: "nat \<Rightarrow> nat" where
  "yearDays y = (if y mod 4 = 0 \<and> (y mod 100 \<noteq> 0 \<or> y mod 400 = 0) then 366 else 365)"

function yearFrom :: "nat \<Rightarrow> nat \<Rightarrow> nat \<times> nat" where
  "yearFrom y d = (if d < yearDays y then (y, d) else yearFrom (Suc y) (d - yearDays y))"
  by pat_completeness auto
termination by (relation "measure snd") (auto simp: yearDays_def)

function monthFrom :: "nat \<Rightarrow> nat \<Rightarrow> nat \<Rightarrow> nat \<times> nat" where
  "monthFrom y m d =
     (if d < daysIn y m \<or> 12 \<le> m then (m, d) else monthFrom y (Suc m) (d - daysIn y m))"
  by pat_completeness auto
termination by (relation "measure (\<lambda>(y, m, d). 12 - m)") auto

declare yearFrom.simps [simp del] monthFrom.simps [simp del]

definition pad :: "nat \<Rightarrow> nat \<Rightarrow> string" where
  "pad w n = replicate (w - length (dec n)) (CHR ''0'') @ dec n"

definition FormatTime :: "time \<Rightarrow> string" where
  "FormatTime t =
     (let secs = t div 1000000000;
          day = secs div 86400 + 719528;
          s = nat (secs mod 86400);
          (y, doy) = yearFrom (400 * nat (day div 146097)) (nat (day mod 146097));
          (mo, d) = monthFrom y 1 doy in
      pad 4 y @ ''-'' @ pad 2 mo @ ''-'' @ pad 2 (Suc d) @ ''T'' @
      pad 2 (s div 3600) @ '':'' @ pad 2 (s div 60 mod 60) @ '':'' @ pad 2 (s mod 60) @ ''Z'')"

end
