(* ===== verification/Git3_Local.thy ===== *)
theory Git3_Local
  imports Git3_Lib
begin

text \<open>
  Repository-local state (\<^verbatim>\<open>src/internal/local/state.go\<close>): the cursor, the cached refs and the
  cached HEAD document, written atomically, and the mapping from a remote to its repository.
  The lock file's retry loop is the operation \<open>os_Lock\<close> of the operating system.
\<close>

section \<open>Operations\<close>

record State =
  ls_Root :: string
  ls_PackDir :: string

definition Resolve :: "'g lib \<Rightarrow> string \<Rightarrow> string \<Rightarrow> ('g, State) prog" where
  "Resolve X dir repoID =
     bindP (git_GitPath (x_OS X) dir (''git3/'' @ repoID)) (\<lambda>root.
     bindP (git_PackDir (x_OS X) dir) (\<lambda>packs.
     returnP \<lparr>ls_Root = root, ls_PackDir = packs\<rparr>))"

definition State_Lock :: "'g lib \<Rightarrow> State \<Rightarrow> ('g, unit) prog" where
  "State_Lock X s =
     bindP (os_MkdirAll (x_OS X) (ls_Root s)) (\<lambda>_.
       os_Lock (x_OS X) (filepath_Join (ls_Root s) ''state.lock''))"

definition Lock_Close :: "'g lib \<Rightarrow> State \<Rightarrow> ('g, unit) prog" where
  "Lock_Close X s = os_Unlock (x_OS X) (filepath_Join (ls_Root s) ''state.lock'')"

text \<open>The next step of a chain \<^verbatim>\<open>if e == nil { e = ... }\<close>.\<close>

definition ifOk :: "'a res \<Rightarrow> ('w, 'b) prog \<Rightarrow> ('w, 'b) prog" where
  "ifOk r m = (case r of Inl e \<Rightarrow> failP e | Inr _ \<Rightarrow> m)"

definition atomicWrite :: "'g OS \<Rightarrow> string \<Rightarrow> bytes \<Rightarrow> ('g, unit) prog" where
  "atomicWrite Os path b =
     bindP (os_MkdirAll Os (filepath_Dir path)) (\<lambda>_.
     bindP (os_CreateTemp Os (filepath_Dir path) ''.git3-tmp-'') (\<lambda>name.
     finallyP
       (tryP (os_Chmod Os name 384) (\<lambda>r1.
        tryP (ifOk r1 (os_WriteFile Os name b)) (\<lambda>r2.
        tryP (ifOk r2 (os_Sync Os name)) (\<lambda>r3.
        tryP (os_Close Os name) (\<lambda>r4.
        ifOk r3 (ifOk r4
          (bindP (os_Rename Os name path) (\<lambda>_.
           tryP (os_SyncDir Os (filepath_Dir path)) (\<lambda>_. returnP ())))))))))
       (os_Remove Os name)))"

definition ReadCursor :: "'g lib \<Rightarrow> State \<Rightarrow> ('g, Cursor) prog" where
  "ReadCursor X s =
     bindP (os_ReadFile (x_OS X) (filepath_Join (ls_Root s) ''cursor.json'')) (\<lambda>b.
       liftP (UnmarshalStrict (x_json X) (x_Cursor X) b (2 ^ 20)))"

definition State_Write :: "'g lib \<Rightarrow> State \<Rightarrow> Cursor \<Rightarrow> bytes \<Rightarrow> string \<Rightarrow> ('g, unit) prog" where
  "State_Write X s c refs etag =
     (let c' = c\<lparr>cu_CachedRefsSHA256 := digest X refs\<rparr> in
      bindP (liftP (Marshal (x_json X) (x_Cursor X) c')) (\<lambda>cb.
      bindP (atomicWrite (x_OS X) (filepath_Join (ls_Root s) ''refs.snapshot'') refs) (\<lambda>_.
      bindP (atomicWrite (x_OS X) (filepath_Join (ls_Root s) ''head.etag'') etag) (\<lambda>_.
      atomicWrite (x_OS X) (filepath_Join (ls_Root s) ''cursor.json'') cb))))"

definition WriteHead :: "'g lib \<Rightarrow> State \<Rightarrow> bytes \<Rightarrow> ('g, unit) prog" where
  "WriteHead X s b = atomicWrite (x_OS X) (filepath_Join (ls_Root s) ''remote-head.json'') b"

definition ReadHead :: "'g lib \<Rightarrow> State \<Rightarrow> ('g, bytes) prog" where
  "ReadHead X s = os_ReadFile (x_OS X) (filepath_Join (ls_Root s) ''remote-head.json'')"

definition WriteRemoteMapping :: "'g lib \<Rightarrow> string \<Rightarrow> string \<Rightarrow> string \<Rightarrow> ('g, unit) prog" where
  "WriteRemoteMapping X dir cacheID repoID =
     bindP (git_GitPath (x_OS X) dir (''git3/remotes/'' @ cacheID)) (\<lambda>p.
       atomicWrite (x_OS X) p (repoID @ [NL]))"

definition ReadRemoteMapping :: "'g lib \<Rightarrow> string \<Rightarrow> string \<Rightarrow> ('g, string) prog" where
  "ReadRemoteMapping X dir cacheID =
     bindP (git_GitPath (x_OS X) dir (''git3/remotes/'' @ cacheID)) (\<lambda>p.
     bindP (os_ReadFile (x_OS X) p) (\<lambda>b. returnP (TrimSpace b)))"

definition CachedRefs :: "'g lib \<Rightarrow> State \<Rightarrow> ('g, bytes) prog" where
  "CachedRefs X s =
     bindP (os_ReadFile (x_OS X) (filepath_Join (ls_Root s) ''refs.snapshot'')) (\<lambda>b.
     bindP (ReadCursor X s) (\<lambda>c.
     checkP (failIf (digest X b \<noteq> cu_CachedRefsSHA256 c)
               (Errorf ''cached refs checksum mismatch'' []))
     (returnP b)))"

end
