(* ===== verification/Git3_Remote.thy ===== *)
theory Git3_Remote
  imports Git3_Local
begin

text \<open>
  Reading and publishing the remote state (\<^verbatim>\<open>src/internal/engine/engine.go\<close>, the part shared by
  all operations): content-addressed writes and verified reads, the walk along the log pages,
  the reconstruction of the refs, and the conditional publication of HEAD.

  An operation is a program over the pair of the store's state and the local state. The walk
  along the log pages follows at most \<open>x_page_fuel\<close> pages; \<open>walkPages_enough\<close> shows that for
  the in-memory store any bound above the number of stored objects is never reached.
\<close>

section \<open>State\<close>

record 's Repository =
  r_Store :: "'s Store"
  r_Git :: string
  r_Version :: string
  r_StoragePolicy :: StoragePolicy
  r_DownloadChunkSize :: int
  r_DownloadConcurrency :: int
  r_CacheID :: string
  r_CompactionFanout :: int
  r_CompactAfterTransactions :: int
  r_CompactAfterBytes :: u64

record RemoteState =
  rs_Head :: Head
  rs_ETag :: string
  rs_Refs :: refs
  rs_Transactions :: "Transaction list"
  rs_Cached :: bool
  rs_logResolved :: bool
  rs_logEnvelopes :: "Envelope list"
  rs_logPages :: "ObjectRef list"

record Advertisement =
  ad_ObjectFormat :: string
  ad_Refs :: refs
  ad_HeadSymref :: "string option"
  ad_state :: "RemoteState option"

record headPublication =
  hp_operation :: string
  hp_expectedETag :: string
  hp_ifAbsent :: bool
  hp_conflict :: string
  hp_confirm :: "(RemoteState \<Rightarrow> goerr \<Rightarrow> bool \<times> goerr option) option"

record resolvedLog =
  rl_transactions :: "Transaction list"
  rl_envelopes :: "Envelope list"
  rl_pages :: "ObjectRef list"

definition HEAD_KEY :: string where
  "HEAD_KEY = ''.git/git3/HEAD''"

definition advertisement :: "RemoteState \<Rightarrow> Advertisement" where
  "advertisement s =
     \<lparr>ad_ObjectFormat = h_ObjectFormat (rs_Head s), ad_Refs = rs_Refs s,
      ad_HeadSymref = h_HeadSymref (rs_Head s), ad_state = Some s\<rparr>"

definition same :: "string option \<Rightarrow> string option \<Rightarrow> bool" where
  "same a b \<longleftrightarrow> (a = None \<and> b = None) \<or> (a \<noteq> None \<and> b \<noteq> None \<and> the a = the b)"

section \<open>Objects\<close>

definition shaRef :: "'g lib \<Rightarrow> string \<Rightarrow> bytes \<Rightarrow> ObjectRef" where
  "shaRef X key b = \<lparr>or_Key = key, or_Size = of_nat (length b), or_SHA256 = digest X b\<rparr>"

definition put_absent :: "string \<Rightarrow> PutOptions" where
  "put_absent sha = \<lparr>po_IfMatch = [], po_IfNoneMatch = True, po_ContentSHA256 = sha\<rparr>"

definition immutable :: "'g lib \<Rightarrow> 's Repository \<Rightarrow> string \<Rightarrow> bytes \<Rightarrow> ('s \<times> 'g, ObjectRef) prog" where
  "immutable X r key b =
     (let ref = shaRef X key b in
      tryP (onStore (st_Put (r_Store r) key (b, None) (int (length b)) (put_absent (or_SHA256 ref))))
        (\<lambda>p. case p of
           Inr _ \<Rightarrow> returnP ref
         | Inl e \<Rightarrow>
            (if errors_Is e ErrPrecondition then
               bindP (onStore (st_Get (r_Store r) key [])) (\<lambda>ob.
               checkP (failIf (of_nat (length (ob_Body ob)) \<noteq> or_Size ref \<or>
                               digest X (ob_Body ob) \<noteq> or_SHA256 ref)
                         (E IntegrityFailed ''immutable-object'' (Errorf ''collision at %s'' [key])))
               (returnP ref))
             else failP e)))"

definition verified :: "'g lib \<Rightarrow> 's Repository \<Rightarrow> ObjectRef \<Rightarrow> nat \<Rightarrow> ('s \<times> 'g, bytes) prog" where
  "verified X r ref mx =
     checkP (validateObject ref)
     (checkP (failIf (or_Size ref > of_nat mx) (Errorf ''object %s exceeds limit'' [or_Key ref]))
     (bindP (onStore (st_Get (r_Store r) (or_Key ref) [])) (\<lambda>ob.
      checkP (failIf (of_nat (length (ob_Body ob)) \<noteq> or_Size ref \<or>
                      digest X (ob_Body ob) \<noteq> or_SHA256 ref)
                (E IntegrityFailed ''read-object''
                   (Errorf ''digest mismatch for %s'' [or_Key ref])))
      (returnP (ob_Body ob)))))"

text \<open>
  \<^verbatim>\<open>io.Copy\<close> from an \<^verbatim>\<open>io.LimitReader\<close>: the bytes copied, and the reader's error unless the
  limit was reached first.
\<close>

definition copyLimited :: "Reader \<Rightarrow> int \<Rightarrow> bytes \<times> goerr option" where
  "copyLimited body limit =
     (take (nat limit) (fst body),
      if int (length (fst body)) \<ge> limit then None else snd body)"

text \<open>\<^verbatim>\<open>copyRange\<close> yields the bytes written to the destination and its error.\<close>

definition copyRange ::
  "'s Repository \<Rightarrow> string \<Rightarrow> int \<Rightarrow> int \<Rightarrow> u64 \<Rightarrow> 's \<times> 'g \<Rightarrow> (bytes \<times> goerr option) \<times> ('s \<times> 'g)"
where
  "copyRange r key start end tot w =
     (case onStore (st_OpenRange (r_Store r) key start end) w of
        (Inl e, w') \<Rightarrow> (([], Some e), w')
      | (Inr part, w') \<Rightarrow>
         (let want = end - start + 1 in
          if rg_Size part \<noteq> want \<or> rg_TotalSize part < 0 \<or> of_int (rg_TotalSize part) \<noteq> tot
          then (([], Some (E IntegrityFailed ''read-range''
                 (Errorf ''invalid response metadata for %s'' [key]))), w')
          else (case copyLimited (rg_Body part) (want + 1) of
              (bs, Some e) \<Rightarrow> ((bs, Some e), w')
            | (bs, None) \<Rightarrow>
               ((bs, failIf (int (length bs) \<noteq> want)
                   (E IntegrityFailed ''read-range''
                     (Errorf ''short or oversized response for %s'' [key]))), w'))))"

section \<open>The log\<close>

definition checkPointer :: "'g lib \<Rightarrow> string list \<Rightarrow> PagePointer \<Rightarrow> goerr option" where
  "checkPointer X seen p =
     firstError
       [failIf (uuid_Parse (x_ident X) (pp_PageID p) = None \<or>
                pp_FirstGeneration p > pp_LastGeneration p)
          (Errorf ''invalid log page pointer'' []),
        failIf (pp_PageID p \<in> set seen) (Errorf ''log page cycle'' [])]"

definition checkPage :: "Head \<Rightarrow> PagePointer \<Rightarrow> LogPage \<Rightarrow> goerr option" where
  "checkPage h p page =
     (let txs = map env_Transaction (lp_Transactions page); first = hd txs in
      firstError
       [failIf (lp_FormatVersion page \<noteq> 1 \<or> lp_RepositoryID page \<noteq> h_RepositoryID h \<or>
                lp_PageID page \<noteq> pp_PageID p \<or> length (lp_Transactions page) = 0 \<or>
                length (lp_Transactions page) > 32)
          (Errorf ''invalid log page'' []),
        failIf (lp_FirstGeneration page \<noteq> tx_Generation first \<or>
                lp_LastGeneration page \<noteq> tx_Generation (last txs))
          (Errorf ''log page bounds mismatch'' []),
        failIf (lp_BaseGeneration page \<noteq> tx_ParentGeneration first \<or>
                \<not> same (lp_BaseTransactionID page) (tx_ParentTransactionID first))
          (Errorf ''log page base mismatch'' []),
        (case lp_Previous page of
           None \<Rightarrow> None
         | Some q \<Rightarrow>
            failIf (pp_LastGeneration q \<noteq> lp_BaseGeneration page \<or>
                    pp_FirstGeneration q > pp_LastGeneration q)
              (Errorf ''log page previous mismatch'' []))])"

fun walkPages ::
  "nat \<Rightarrow> 'g lib \<Rightarrow> 's Repository \<Rightarrow> Head \<Rightarrow> string list \<Rightarrow> PagePointer option \<Rightarrow>
     ('s \<times> 'g, Envelope list list \<times> ObjectRef list) prog"
where
  "walkPages n X r h seen None = returnP ([], [])"
| "walkPages 0 X r h seen (Some p) = failP OutOfFuel"
| "walkPages (Suc n) X r h seen (Some p) =
     (if \<not> pp_LastGeneration p > log_FloorGeneration (h_Log h) then returnP ([], [])
      else
        checkP (checkPointer X seen p)
        (bindP (verified X r (pp_Object p) MaxLogPage) (\<lambda>b.
         bindP (liftP (UnmarshalForward (x_json X) (x_LogPage X) b MaxLogPage)) (\<lambda>page.
         checkP (checkPage h p page)
         (bindP (walkPages n X r h (pp_PageID p # seen) (lp_Previous page)) (\<lambda>(pages, objects).
          returnP (lp_Transactions page # pages, pp_Object p # objects)))))))"

text \<open>The loop over the envelopes; it also returns the final generation and transaction.\<close>

fun liveChain ::
  "'g lib \<Rightarrow> Head \<Rightarrow> u64 \<Rightarrow> string option \<Rightarrow> Envelope list \<Rightarrow>
     (Envelope list \<times> u64 \<times> string option) res"
where
  "liveChain X h gen pid [] = Inr ([], gen, pid)"
| "liveChain X h gen pid (e # es) =
     (let t = env_Transaction e in
      if tx_Generation t \<le> log_FloorGeneration (h_Log h) then liveChain X h gen pid es
      else (case firstError
          [Transaction_Validate (x_ident X) t,
           failIf (tx_RepositoryID t \<noteq> h_RepositoryID h \<or> tx_ObjectFormat t \<noteq> h_ObjectFormat h \<or>
                   tx_Generation t \<noteq> gen + 1 \<or> \<not> same pid (tx_ParentTransactionID t))
             (Errorf ''transaction chain gap at %d'' [dec (unat (tx_Generation t))]),
           validateObject (env_Descriptor e)] of
          Some err \<Rightarrow> Inl err
        | None \<Rightarrow>
           (case liveChain X h (tx_Generation t) (Some (tx_TransactionID t)) es of
              Inl err \<Rightarrow> Inl err
            | Inr (live, g, i) \<Rightarrow> Inr (e # live, g, i))))"

definition collectTransactions ::
  "'g lib \<Rightarrow> 's Repository \<Rightarrow> Head \<Rightarrow> ('s \<times> 'g, resolvedLog) prog"
where
  "collectTransactions X r h =
     bindP (walkPages (x_page_fuel X) X r h [] (log_TipPage (h_Log h))) (\<lambda>(pages, objects).
     bindP (liftP (liveChain X h (log_FloorGeneration (h_Log h)) (log_FloorTransactionID (h_Log h))
                     (concat (rev pages) @ case_option [] id (log_Tail (h_Log h)))))
       (\<lambda>(live, gen, pid).
     checkP (failIf (gen \<noteq> h_LogicalGeneration h \<or> \<not> same pid (h_TransactionID h))
               (Errorf ''transaction chain does not reach HEAD'' []))
     (returnP \<lparr>rl_transactions = map env_Transaction live, rl_envelopes = live,
               rl_pages = objects\<rparr>)))"

text \<open>The loop that replays the transactions above the snapshot, one \<^verbatim>\<open>Apply\<close> each.\<close>

fun replay :: "u64 \<Rightarrow> refs \<Rightarrow> Transaction list \<Rightarrow> refs res" where
  "replay gen refs [] = Inr refs"
| "replay gen refs (t # ts) =
     (if tx_Generation t > gen then
        (case Apply refs [t] of (refs', Some e) \<Rightarrow> Inl e | (refs', None) \<Rightarrow> replay gen refs' ts)
      else replay gen refs ts)"

definition reconstruct ::
  "'g lib \<Rightarrow> 's Repository \<Rightarrow> Head \<Rightarrow> Transaction list \<Rightarrow> ('s \<times> 'g, refs) prog"
where
  "reconstruct X r h txs =
     bindP (verified X r (snp_Object (h_RefSnapshot h)) MaxSnapshot) (\<lambda>b.
     bindP (liftP (ParseSnapshot (x_ident X) b)) (\<lambda>s.
     checkP (failIf (sn_RepositoryID s \<noteq> h_RepositoryID h \<or> sn_ObjectFormat s \<noteq> h_ObjectFormat h \<or>
                     sn_Generation s \<noteq> snp_Generation (h_RefSnapshot h) \<or>
                     \<not> same (sn_TransactionID s) (snp_TransactionID (h_RefSnapshot h)))
               (Errorf ''snapshot pointer mismatch'' []))
     (bindP (liftP (replay (sn_Generation s) (sn_Refs s) txs)) (\<lambda>refs.
      checkP (case h_HeadSymref h of
          None \<Rightarrow> None
        | Some x \<Rightarrow> failIf (fmlookup refs x = None) (Errorf ''HEAD target absent'' []))
      (returnP refs)))))"

section \<open>Reading\<close>

text \<open>Mapping the error of a step and going on.\<close>

definition mapErr :: "(goerr \<Rightarrow> goerr) \<Rightarrow> ('w, 'a) prog \<Rightarrow> ('w, 'a) prog" where
  "mapErr f m = tryP m (\<lambda>r. case r of Inl e \<Rightarrow> failP (f e) | Inr x \<Rightarrow> returnP x)"

definition readObject :: "'g lib \<Rightarrow> 's Repository \<Rightarrow> Object \<Rightarrow> ('s \<times> 'g, RemoteState) prog" where
  "readObject X r ob =
     checkP (failIf (length (ob_Body ob) > MaxHead)
               (E RepositoryCorrupt ''read-head'' (Errorf ''HEAD too large'' [])))
     (bindP (mapErr (E RepositoryCorrupt ''read-head'')
               (liftP (UnmarshalForward (x_json X) (x_Head X) (ob_Body ob) MaxHead))) (\<lambda>h.
      checkP (case Head_Validate (x_ident X) h of
          None \<Rightarrow> None
        | Some e \<Rightarrow>
            Some (E (if errors_Is e ErrFormatUnsupported then FormatUnsupported
                     else RepositoryCorrupt) ''read-head'' e))
      (bindP (mapErr (WithDefault RepositoryCorrupt ''read-log'') (collectTransactions X r h)) (\<lambda>log.
       bindP (mapErr (WithDefault RepositoryCorrupt ''read-refs'')
                (reconstruct X r h (rl_transactions log))) (\<lambda>refs.
       returnP \<lparr>rs_Head = h, rs_ETag = ob_ETag ob, rs_Refs = refs,
                rs_Transactions = rl_transactions log, rs_Cached = False, rs_logResolved = True,
                rs_logEnvelopes = rl_envelopes log, rs_logPages = rl_pages log\<rparr>)))))"

definition ReadUnconditional :: "'g lib \<Rightarrow> 's Repository \<Rightarrow> ('s \<times> 'g, RemoteState) prog" where
  "ReadUnconditional X r =
     bindP (onStore (st_Get (r_Store r) HEAD_KEY [])) (readObject X r)"

text \<open>
  \<^verbatim>\<open>readCached\<close> returns \<^const>\<open>None\<close> for \<^verbatim>\<open>used == false\<close>: any trouble with the local files
  falls back to a full read.
\<close>

definition readLocal ::
  "'g lib \<Rightarrow> 's Repository \<Rightarrow> ('s \<times> 'g, (Cursor \<times> bytes \<times> bytes) option) prog"
where
  "readLocal X r = tryP
     (onLocal
       (bindP (ReadRemoteMapping X (r_Git r) (r_CacheID r)) (\<lambda>repoID.
        bindP (Resolve X (r_Git r) repoID) (\<lambda>ls.
        bindP (ReadCursor X ls) (\<lambda>c.
        bindP (ReadHead X ls) (\<lambda>hb.
        bindP (CachedRefs X ls) (\<lambda>rb. returnP (c, hb, rb))))))))
     (\<lambda>x. case x of Inl _ \<Rightarrow> returnP None | Inr y \<Rightarrow> returnP (Some y))"

definition cachedState :: "'g lib \<Rightarrow> Cursor \<Rightarrow> bytes \<Rightarrow> bytes \<Rightarrow> RemoteState option" where
  "cachedState X c hb rb =
     (case UnmarshalForward (x_json X) (x_Head X) hb MaxHead of
        Inl _ \<Rightarrow> None
      | Inr h \<Rightarrow>
         (if Head_Validate (x_ident X) h \<noteq> None \<or> h_RepositoryID h \<noteq> cu_RepositoryID c \<or>
             h_PublicationID h \<noteq> cu_LastPublicationID c \<or>
             h_LogicalGeneration h \<noteq> cu_LogicalGeneration c \<or>
             \<not> same (h_TransactionID h) (cu_TransactionID c) then None
          else (case ParseSnapshot (x_ident X) rb of
              Inl _ \<Rightarrow> None
            | Inr snap \<Rightarrow>
               (if sn_RepositoryID snap \<noteq> h_RepositoryID h \<or>
                   sn_Generation snap \<noteq> h_LogicalGeneration h \<or>
                   \<not> same (sn_TransactionID snap) (h_TransactionID h) then None
                else Some \<lparr>rs_Head = h, rs_ETag = cu_LastHeadETag c, rs_Refs = sn_Refs snap,
                       rs_Transactions = [], rs_Cached = True, rs_logResolved = False,
                       rs_logEnvelopes = [], rs_logPages = []\<rparr>))))"

definition readCached :: "'g lib \<Rightarrow> 's Repository \<Rightarrow> ('s \<times> 'g, RemoteState option) prog" where
  "readCached X r =
     bindP (readLocal X r) (\<lambda>l. case l of
       None \<Rightarrow> returnP None
     | Some (c, hb, rb) \<Rightarrow>
        tryP (onStore (st_Get (r_Store r) HEAD_KEY (cu_LastHeadETag c))) (\<lambda>got. case got of
          Inr ob \<Rightarrow> bindP (readObject X r ob) (\<lambda>s. returnP (Some s))
        | Inl e \<Rightarrow>
           (if \<not> errors_Is e ErrNotModified then failP e else returnP (cachedState X c hb rb))))"

definition Read :: "'g lib \<Rightarrow> 's Repository \<Rightarrow> ('s \<times> 'g, RemoteState) prog" where
  "Read X r =
     bindP (if r_CacheID r \<noteq> [] then readCached X r else returnP None) (\<lambda>used. case used of
       Some s \<Rightarrow> returnP s
     | None \<Rightarrow> ReadUnconditional X r)"

definition Advertise :: "'g lib \<Rightarrow> 's Repository \<Rightarrow> ('s \<times> 'g, Advertisement) prog" where
  "Advertise X r = bindP (Read X r) (\<lambda>s. returnP (advertisement s))"

section \<open>Publishing\<close>

definition publishHead ::
  "'g lib \<Rightarrow> 's Repository \<Rightarrow> Head \<Rightarrow> headPublication \<Rightarrow> ('s \<times> 'g, unit) prog"
where
  "publishHead X r candidate pub =
     checkP (case Head_Validate (x_ident X) candidate of
         None \<Rightarrow> None | Some e \<Rightarrow> Some (Wrapf ''prospective HEAD invalid: %w'' [] e))
     (bindP (mapErr (Wrapf ''encode prospective HEAD: %w'' [])
               (liftP (Marshal (x_json X) (x_Head X) candidate))) (\<lambda>b.
      checkP (failIf (length b > MaxHead) (Errorf ''prospective HEAD exceeds limit'' []))
      (tryP (onStore (st_Put (r_Store r) HEAD_KEY (b, None) (int (length b))
               \<lparr>po_IfMatch = hp_expectedETag pub, po_IfNoneMatch = hp_ifAbsent pub,
                po_ContentSHA256 = []\<rparr>)) (\<lambda>put. case put of
         Inr _ \<Rightarrow> returnP ()
       | Inl e \<Rightarrow>
          (if errors_Is e ErrPrecondition
           then failP (E CASConflict (hp_operation pub) (Errorf (hp_conflict pub) []))
           else tryP (ReadUnconditional X r) (\<lambda>got. case got of
               Inl _ \<Rightarrow> failP (E PublishAmbiguous (hp_operation pub) e)
             | Inr observed \<Rightarrow>
                (if h_PublicationID (rs_Head observed) = h_PublicationID candidate then returnP ()
                 else (case hp_confirm pub of
                     None \<Rightarrow> failP (E PublishAmbiguous (hp_operation pub) e)
                   | Some confirm \<Rightarrow>
                      (case confirm observed e of
                         (_, Some ce) \<Rightarrow> failP ce
                       | (True, None) \<Rightarrow> returnP ()
                       | (False, None) \<Rightarrow>
                           failP (E PublishAmbiguous (hp_operation pub) e))))))))))"

section \<open>What a reader sees\<close>

text \<open>
  The specification of reading: the remote state as a function of the objects in the store, with
  no requests. \<open>v\<close> is a view of the store, the body and the entity tag of each key.
\<close>

type_synonym view = "string \<rightharpoonup> bytes \<times> string"

definition verifiedV :: "'g lib \<Rightarrow> view \<Rightarrow> ObjectRef \<Rightarrow> nat \<Rightarrow> bytes res" where
  "verifiedV X v ref mx = (case validateObject ref of
      Some e \<Rightarrow> Inl e
    | None \<Rightarrow>
       (if or_Size ref > of_nat mx then Inl (Errorf ''object %s exceeds limit'' [or_Key ref])
        else (case v (or_Key ref) of
            None \<Rightarrow> Inl ErrNotFound
          | Some (b, t) \<Rightarrow>
             (if of_nat (length b) \<noteq> or_Size ref \<or> digest X b \<noteq> or_SHA256 ref
              then Inl (E IntegrityFailed ''read-object''
                     (Errorf ''digest mismatch for %s'' [or_Key ref]))
              else Inr b))))"

fun walkV ::
  "nat \<Rightarrow> 'g lib \<Rightarrow> view \<Rightarrow> Head \<Rightarrow> string list \<Rightarrow> PagePointer option \<Rightarrow>
     (Envelope list list \<times> ObjectRef list) res"
where
  "walkV n X v h seen None = Inr ([], [])"
| "walkV 0 X v h seen (Some p) = Inl OutOfFuel"
| "walkV (Suc n) X v h seen (Some p) =
     (if \<not> pp_LastGeneration p > log_FloorGeneration (h_Log h) then Inr ([], [])
      else (case checkPointer X seen p of Some e \<Rightarrow> Inl e | None \<Rightarrow>
       (case verifiedV X v (pp_Object p) MaxLogPage of Inl e \<Rightarrow> Inl e | Inr b \<Rightarrow>
       (case UnmarshalForward (x_json X) (x_LogPage X) b MaxLogPage of Inl e \<Rightarrow> Inl e | Inr page \<Rightarrow>
       (case checkPage h p page of Some e \<Rightarrow> Inl e | None \<Rightarrow>
       (case walkV n X v h (pp_PageID p # seen) (lp_Previous page) of
          Inl e \<Rightarrow> Inl e
        | Inr (pages, objects) \<Rightarrow>
            Inr (lp_Transactions page # pages, pp_Object p # objects)))))))"

definition collectV :: "'g lib \<Rightarrow> view \<Rightarrow> Head \<Rightarrow> resolvedLog res" where
  "collectV X v h = (case walkV (x_page_fuel X) X v h [] (log_TipPage (h_Log h)) of
      Inl e \<Rightarrow> Inl e
    | Inr (pages, objects) \<Rightarrow>
       (case liveChain X h (log_FloorGeneration (h_Log h)) (log_FloorTransactionID (h_Log h))
               (concat (rev pages) @ case_option [] id (log_Tail (h_Log h))) of
          Inl e \<Rightarrow> Inl e
        | Inr (live, gen, pid) \<Rightarrow>
           (if gen \<noteq> h_LogicalGeneration h \<or> \<not> same pid (h_TransactionID h)
            then Inl (Errorf ''transaction chain does not reach HEAD'' [])
            else Inr \<lparr>rl_transactions = map env_Transaction live, rl_envelopes = live,
                      rl_pages = objects\<rparr>)))"

definition reconstructV :: "'g lib \<Rightarrow> view \<Rightarrow> Head \<Rightarrow> Transaction list \<Rightarrow> refs res" where
  "reconstructV X v h txs =
     (case verifiedV X v (snp_Object (h_RefSnapshot h)) MaxSnapshot of Inl e \<Rightarrow> Inl e | Inr b \<Rightarrow>
     (case ParseSnapshot (x_ident X) b of Inl e \<Rightarrow> Inl e | Inr s \<Rightarrow>
       (if sn_RepositoryID s \<noteq> h_RepositoryID h \<or> sn_ObjectFormat s \<noteq> h_ObjectFormat h \<or>
           sn_Generation s \<noteq> snp_Generation (h_RefSnapshot h) \<or>
           \<not> same (sn_TransactionID s) (snp_TransactionID (h_RefSnapshot h))
        then Inl (Errorf ''snapshot pointer mismatch'' [])
        else (case replay (sn_Generation s) (sn_Refs s) txs of Inl e \<Rightarrow> Inl e | Inr refs \<Rightarrow>
          (if h_HeadSymref h \<noteq> None \<and> fmlookup refs (the (h_HeadSymref h)) = None
           then Inl (Errorf ''HEAD target absent'' []) else Inr refs)))))"

definition stateV :: "'g lib \<Rightarrow> view \<Rightarrow> string \<Rightarrow> Head \<Rightarrow> RemoteState res" where
  "stateV X v etag h = (case collectV X v h of
      Inl e \<Rightarrow> Inl (WithDefault RepositoryCorrupt ''read-log'' e)
    | Inr log \<Rightarrow>
       (case reconstructV X v h (rl_transactions log) of
          Inl e \<Rightarrow> Inl (WithDefault RepositoryCorrupt ''read-refs'' e)
        | Inr refs \<Rightarrow>
            Inr \<lparr>rs_Head = h, rs_ETag = etag, rs_Refs = refs,
                 rs_Transactions = rl_transactions log, rs_Cached = False, rs_logResolved = True,
                 rs_logEnvelopes = rl_envelopes log, rs_logPages = rl_pages log\<rparr>))"

definition headV :: "'g lib \<Rightarrow> bytes \<Rightarrow> Head res" where
  "headV X b =
     (if length b > MaxHead
      then Inl (E RepositoryCorrupt ''read-head'' (Errorf ''HEAD too large'' []))
      else (case UnmarshalForward (x_json X) (x_Head X) b MaxHead of
          Inl e \<Rightarrow> Inl (E RepositoryCorrupt ''read-head'' e)
        | Inr h \<Rightarrow>
           (case Head_Validate (x_ident X) h of
              None \<Rightarrow> Inr h
            | Some e \<Rightarrow>
                Inl (E (if errors_Is e ErrFormatUnsupported then FormatUnsupported
                        else RepositoryCorrupt) ''read-head'' e))))"

definition readV :: "'g lib \<Rightarrow> view \<Rightarrow> RemoteState res" where
  "readV X v = (case v HEAD_KEY of
      None \<Rightarrow> Inl ErrNotFound
    | Some (b, t) \<Rightarrow> (case headV X b of Inl e \<Rightarrow> Inl e | Inr h \<Rightarrow> stateV X v t h))"

lemma same_iff [simp]: "same a b \<longleftrightarrow> a = b"
  by (cases a; cases b) (auto simp: same_def)

lemma mapErr_lift [simp]:
  "mapErr f (liftP (Inr x)) w = (Inr x, w)" "mapErr f (liftP (Inl e)) w = (Inl (f e), w)"
  by (simp_all add: mapErr_def tryP_def)

lemma mapErr_run: "m w = (r, w') \<Longrightarrow>
  mapErr f m w = ((case r of Inl e \<Rightarrow> Inl (f e) | Inr x \<Rightarrow> Inr x), w')"
  by (simp add: mapErr_def split: sum.splits)

text \<open>
  \<open>reads view m r\<close>: the program returns \<open>r\<close> and leaves the objects and the local state alone.
\<close>

definition reads :: "('s \<Rightarrow> view) \<Rightarrow> ('s \<times> 'g, 'a) prog \<Rightarrow> (view \<Rightarrow> 'a res) \<Rightarrow> bool" where
  "reads view m f \<longleftrightarrow>
     (\<forall>s g. \<exists>s'. m (s, g) = (f (view s), (s', g)) \<and> view s' = view s)"

lemma readsE:
  assumes "reads view m f"
  obtains s' where "m (s, g) = (f (view s), (s', g))" "view s' = view s"
  using assms by (auto simp: reads_def)

lemma reads_pure [intro]:
  "reads view (returnP x) (\<lambda>_. Inr x)" "reads view (failP e) (\<lambda>_. Inl e)"
  "reads view (liftP r) (\<lambda>_. r)"
  by (simp_all add: reads_def)

lemma reads_bindP:
  assumes "reads view m f" "\<And>x. reads view (k x) (h x)"
  shows "reads view (bindP m k) (\<lambda>v. case f v of Inl e \<Rightarrow> Inl e | Inr x \<Rightarrow> h x v)"
  unfolding reads_def
proof (intro allI)
  fix s g
  obtain s1 where 1: "m (s, g) = (f (view s), (s1, g))" "view s1 = view s"
    using assms(1) by (rule readsE)
  show "\<exists>s'. bindP m k (s, g) =
      (case f (view s) of Inl e \<Rightarrow> Inl e | Inr x \<Rightarrow> h x (view s), s', g) \<and> view s' = view s"
  proof (cases "f (view s)")
    case (Inl e)
    with 1 show ?thesis by (simp add: bindP_def)
  next
    case (Inr x)
    obtain s2 where "k x (s1, g) = (h x (view s1), (s2, g))" "view s2 = view s1"
      using assms(2) by (rule readsE)
    with 1 Inr show ?thesis by (simp add: bindP_def)
  qed
qed

lemma reads_checkP:
  "reads view m f \<Longrightarrow> reads view (checkP c m) (\<lambda>v. case c of Some e \<Rightarrow> Inl e | None \<Rightarrow> f v)"
  by (cases c) (simp_all add: reads_def)

lemma reads_mapErr:
  assumes "reads view m f"
  shows "reads view (mapErr t m) (\<lambda>v. case f v of Inl e \<Rightarrow> Inl (t e) | Inr x \<Rightarrow> Inr x)"
  unfolding reads_def
proof (intro allI)
  fix s g
  obtain s1 where "m (s, g) = (f (view s), (s1, g))" "view s1 = view s"
    using assms by (rule readsE)
  then show "\<exists>s'. mapErr t m (s, g) =
      (case f (view s) of Inl e \<Rightarrow> Inl (t e) | Inr x \<Rightarrow> Inr x, s', g) \<and> view s' = view s"
    by (auto simp: mapErr_run)
qed

lemma reads_cong: "reads view m f \<Longrightarrow> (\<And>v. f v = f' v) \<Longrightarrow> reads view m f'"
  by (simp add: reads_def)

context reliable_store
begin

lemma reads_verified:
  assumes "r_Store r = S"
  shows "reads view (verified X r ref mx) (\<lambda>v. verifiedV X v ref mx)"
  unfolding reads_def
proof (intro allI)
  fix s g
  show "\<exists>s'. verified X r ref mx (s, g) = (verifiedV X (view s) ref mx, s', g) \<and> view s' = view s"
    by (cases rule: get_cases [of s "or_Key ref"])
      (auto simp: verified_def verifiedV_def checkP_def bindP_def onStore_run assms failIf_def
        split: option.splits)
qed

lemma reads_walkPages:
  assumes "r_Store r = S"
  shows "reads view (walkPages n X r h seen p) (\<lambda>v. walkV n X v h seen p)"
proof (induction n arbitrary: seen p)
  case 0
  then show ?case by (cases p) (auto simp: reads_def)
next
  case (Suc n)
  note R = reads_bindP reads_checkP reads_verified [OF assms] reads_pure(3) Suc.IH
  have "reads view (walkPages (Suc n) X r h seen (Some q)) (\<lambda>v. walkV (Suc n) X v h seen (Some q))"
    for q
  proof (cases "pp_LastGeneration q > log_FloorGeneration (h_Log h)")
    case True
    have "reads view (bindP (walkPages n X r h sn pr) (\<lambda>(pages, objects).
          returnP (ts # pages, ob # objects)))
        (\<lambda>v. case walkV n X v h sn pr of Inl e \<Rightarrow> Inl e
           | Inr (pages, objects) \<Rightarrow> Inr (ts # pages, ob # objects))" for sn pr ts ob
      by (rule reads_cong [OF reads_bindP [OF Suc.IH, where h = "\<lambda>(pages, objects) v. Inr (ts # pages, ob # objects)"]])
        (auto split: sum.splits prod.splits)
    note R' = this R
    show ?thesis
      unfolding walkPages.simps walkV.simps
      using True
      by (auto intro!: reads_cong [OF reads_checkP [OF reads_bindP [OF reads_verified [OF assms]
              reads_bindP [OF reads_pure(3) reads_checkP [OF R'(1)]]]]] split: option.splits sum.splits)
  qed (auto simp: reads_def)
  then show ?case by (cases p) (auto simp: reads_def)
qed

lemma reads_collect:
  assumes "r_Store r = S"
  shows "reads view (collectTransactions X r h) (\<lambda>v. collectV X v h)"
  unfolding collectTransactions_def collectV_def
  by (rule reads_cong [OF reads_bindP [OF reads_walkPages [OF assms], where h =
        "\<lambda>(pages, objects) v. case liveChain X h (log_FloorGeneration (h_Log h))
           (log_FloorTransactionID (h_Log h))
           (concat (rev pages) @ case_option [] id (log_Tail (h_Log h))) of
          Inl e \<Rightarrow> Inl e
        | Inr (live, gen, pid) \<Rightarrow>
           (if gen \<noteq> h_LogicalGeneration h \<or> \<not> same pid (h_TransactionID h)
            then Inl (Errorf ''transaction chain does not reach HEAD'' [])
            else Inr \<lparr>rl_transactions = map env_Transaction live, rl_envelopes = live,
                      rl_pages = objects\<rparr>)"]])
    (auto simp: reads_def bindP_def checkP_def failIf_def split: sum.splits prod.splits)

lemma reads_reconstruct:
  assumes "r_Store r = S"
  shows "reads view (reconstruct X r h txs) (\<lambda>v. reconstructV X v h txs)"
proof -
  let ?k = "\<lambda>b. case ParseSnapshot (x_ident X) b of Inl e \<Rightarrow> Inl e | Inr s \<Rightarrow>
       (if sn_RepositoryID s \<noteq> h_RepositoryID h \<or> sn_ObjectFormat s \<noteq> h_ObjectFormat h \<or>
           sn_Generation s \<noteq> snp_Generation (h_RefSnapshot h) \<or>
           \<not> same (sn_TransactionID s) (snp_TransactionID (h_RefSnapshot h))
        then Inl (Errorf ''snapshot pointer mismatch'' [])
        else (case replay (sn_Generation s) (sn_Refs s) txs of Inl e \<Rightarrow> Inl e | Inr refs \<Rightarrow>
          (if h_HeadSymref h \<noteq> None \<and> fmlookup refs (the (h_HeadSymref h)) = None
           then Inl (Errorf ''HEAD target absent'' []) else Inr refs)))"
  show ?thesis
    unfolding reconstruct_def reconstructV_def
    by (rule reads_cong [OF reads_bindP [OF reads_verified [OF assms], where h = "\<lambda>b v. ?k b"]])
      (auto simp: reads_def bindP_def checkP_def failIf_def split: sum.splits option.splits)
qed

lemma reads_readObject:
  assumes "r_Store r = S"
  shows "reads view (readObject X r ob)
    (\<lambda>v. case headV X (ob_Body ob) of Inl e \<Rightarrow> Inl e | Inr h \<Rightarrow> stateV X v (ob_ETag ob) h)"
proof -
  have state: "reads view
      (bindP (mapErr (WithDefault RepositoryCorrupt ''read-log'') (collectTransactions X r h)) (\<lambda>log.
       bindP (mapErr (WithDefault RepositoryCorrupt ''read-refs'')
                (reconstruct X r h (rl_transactions log))) (\<lambda>refs.
       returnP \<lparr>rs_Head = h, rs_ETag = ob_ETag ob, rs_Refs = refs,
                rs_Transactions = rl_transactions log, rs_Cached = False, rs_logResolved = True,
                rs_logEnvelopes = rl_envelopes log, rs_logPages = rl_pages log\<rparr>)))
      (\<lambda>v. stateV X v (ob_ETag ob) h)" for h
    by (rule reads_cong [OF reads_bindP [OF reads_mapErr [OF reads_collect [OF assms]]
          reads_bindP [OF reads_mapErr [OF reads_reconstruct [OF assms]] reads_pure(1)]]])
      (simp add: stateV_def split: sum.splits)
  have "readObject X r ob w = (case headV X (ob_Body ob) of Inl e \<Rightarrow> (Inl e, w) | Inr h \<Rightarrow>
      (bindP (mapErr (WithDefault RepositoryCorrupt ''read-log'') (collectTransactions X r h)) (\<lambda>log.
       bindP (mapErr (WithDefault RepositoryCorrupt ''read-refs'')
                (reconstruct X r h (rl_transactions log))) (\<lambda>refs.
       returnP \<lparr>rs_Head = h, rs_ETag = ob_ETag ob, rs_Refs = refs,
                rs_Transactions = rl_transactions log, rs_Cached = False, rs_logResolved = True,
                rs_logEnvelopes = rl_envelopes log, rs_logPages = rl_pages log\<rparr>))) w)" for w
    by (simp add: readObject_def headV_def checkP_def failIf_def bindP_def mapErr_def tryP_def
        split: sum.splits option.splits)
  then show ?thesis
    using state by (cases "headV X (ob_Body ob)") (simp_all add: reads_def)
qed

text \<open>Reading implements the specification.\<close>

lemma reads_ReadUnconditional:
  assumes "r_Store r = S"
  shows "reads view (ReadUnconditional X r) (readV X)"
  unfolding reads_def
proof (intro allI)
  fix s g
  show "\<exists>s'. ReadUnconditional X r (s, g) = (readV X (view s), s', g) \<and> view s' = view s"
  proof (cases rule: get_cases [of s HEAD_KEY])
    case (absent s')
    then show ?thesis
      by (auto simp: ReadUnconditional_def readV_def bindP_def onStore_run assms)
  next
    case (present ob s')
    obtain s2 where "readObject X r ob (s', g) =
        ((case headV X (ob_Body ob) of Inl e \<Rightarrow> Inl e
          | Inr h \<Rightarrow> stateV X (view s') (ob_ETag ob) h), (s2, g))" "view s2 = view s'"
      using reads_readObject [OF assms] by (rule readsE)
    with present show ?thesis
      by (cases "headV X (ob_Body ob)") (auto simp: ReadUnconditional_def readV_def bindP_def onStore_run assms)
  qed
qed

lemma ReadUnconditional_view:
  assumes "r_Store r = S" "ReadUnconditional X r w = (res, w')"
  shows "res = readV X (view (fst w))" "view (fst w') = view (fst w)" "snd w' = snd w"
proof -
  obtain s g where w: "w = (s, g)" by (cases w)
  obtain s' where "ReadUnconditional X r (s, g) = (readV X (view s), (s', g))" "view s' = view s"
    using reads_ReadUnconditional [OF assms(1)] by (rule readsE)
  with assms(2) w show "res = readV X (view (fst w))" "view (fst w') = view (fst w)" "snd w' = snd w"
    by auto
qed

lemma ReadUnconditional_ex:
  "r_Store r = S \<Longrightarrow> \<exists>w'. ReadUnconditional X r w = (readV X (view (fst w)), w')"
  by (metis ReadUnconditional_view(1) surj_pair)

end

section \<open>What a successful read guarantees\<close>

lemma liveChain_sound:
  assumes "liveChain X h gen pid es = Inr (live, g, i)"
  shows "chained gen pid (map env_Transaction live)" "g = gen + of_nat (length live)"
    "i = chain_id pid (map env_Transaction live)" "set live \<subseteq> set es"
    "\<And>e. e \<in> set live \<Longrightarrow> Transaction_Validate (x_ident X) (env_Transaction e) = None \<and>
       tx_RepositoryID (env_Transaction e) = h_RepositoryID h \<and>
       tx_ObjectFormat (env_Transaction e) = h_ObjectFormat h \<and>
       log_FloorGeneration (h_Log h) < tx_Generation (env_Transaction e) \<and>
       validateObject (env_Descriptor e) = None"
proof -
  have "chained gen pid (map env_Transaction live) \<and> g = gen + of_nat (length live) \<and>
      i = chain_id pid (map env_Transaction live) \<and> set live \<subseteq> set es \<and>
      (\<forall>e \<in> set live. Transaction_Validate (x_ident X) (env_Transaction e) = None \<and>
       tx_RepositoryID (env_Transaction e) = h_RepositoryID h \<and>
       tx_ObjectFormat (env_Transaction e) = h_ObjectFormat h \<and>
       log_FloorGeneration (h_Log h) < tx_Generation (env_Transaction e) \<and>
       validateObject (env_Descriptor e) = None)"
    using assms
  proof (induction es arbitrary: gen pid live)
    case (Cons e es)
    let ?t = "env_Transaction e"
    show ?case
    proof (cases "tx_Generation ?t \<le> log_FloorGeneration (h_Log h)")
      case True
      with Cons show ?thesis by (auto simp: Let_def)
    next
      case False
      let ?c = "firstError
          [Transaction_Validate (x_ident X) ?t,
           failIf (tx_RepositoryID ?t \<noteq> h_RepositoryID h \<or> tx_ObjectFormat ?t \<noteq> h_ObjectFormat h \<or>
                   tx_Generation ?t \<noteq> gen + 1 \<or> \<not> same pid (tx_ParentTransactionID ?t))
             (Errorf ''transaction chain gap at %d'' [dec (unat (tx_Generation ?t))]),
           validateObject (env_Descriptor e)]"
      from Cons.prems False have c: "?c = None"
        by (cases ?c) (simp_all add: Let_def)
      from Cons.prems False c obtain live' where
        rec: "liveChain X h (tx_Generation ?t) (Some (tx_TransactionID ?t)) es = Inr (live', g, i)"
        and live: "live = e # live'"
        by (auto simp: Let_def simp del: firstError_Cons_None split: sum.splits)
      from Cons.IH [OF rec] c False live show ?thesis
        by (auto simp: algebra_simps not_le)
    qed
  qed simp
  then show "chained gen pid (map env_Transaction live)" "g = gen + of_nat (length live)"
    "i = chain_id pid (map env_Transaction live)" "set live \<subseteq> set es"
    "\<And>e. e \<in> set live \<Longrightarrow> Transaction_Validate (x_ident X) (env_Transaction e) = None \<and>
       tx_RepositoryID (env_Transaction e) = h_RepositoryID h \<and>
       tx_ObjectFormat (env_Transaction e) = h_ObjectFormat h \<and>
       log_FloorGeneration (h_Log h) < tx_Generation (env_Transaction e) \<and>
       validateObject (env_Descriptor e) = None"
    by blast+
qed

text \<open>Appending to the log appends to the live chain.\<close>

lemma liveChain_append:
  "liveChain X h gen pid (es @ fs) =
     (case liveChain X h gen pid es of
        Inl e \<Rightarrow> Inl e
      | Inr (live, g, i) \<Rightarrow>
         (case liveChain X h g i fs of
            Inl e \<Rightarrow> Inl e
          | Inr (live', g', i') \<Rightarrow> Inr (live @ live', g', i')))"
proof (induction es arbitrary: gen pid)
  case (Cons e es)
  then show ?case
    by (auto simp: Let_def split: option.splits sum.splits prod.splits)
qed (auto split: sum.splits prod.splits)

lemma replay_Apply:
  "replay g refs ts = Inr refs' \<longleftrightarrow>
     Apply refs (filter (\<lambda>t. tx_Generation t > g) ts) = (refs', None)"
  by (induction ts arbitrary: refs) (auto split: prod.splits option.splits)

lemma replay_append:
  "replay g refs (ts @ us) =
     (case replay g refs ts of Inl e \<Rightarrow> Inl e | Inr refs' \<Rightarrow> replay g refs' us)"
  by (induction ts arbitrary: refs) (auto split: prod.splits option.splits)

text \<open>
  \<open>state_ok\<close>: the head is valid, the transactions are a gap-free chain from the log floor to
  the published tip, each is valid and belongs to the repository, and the default branch exists.
\<close>

definition state_ok :: "'g lib \<Rightarrow> RemoteState \<Rightarrow> bool" where
  "state_ok X s \<longleftrightarrow>
     (let h = rs_Head s; ts = rs_Transactions s in
      Head_Validate (x_ident X) h = None \<and>
      ts = map env_Transaction (rs_logEnvelopes s) \<and>
      chained (log_FloorGeneration (h_Log h)) (log_FloorTransactionID (h_Log h)) ts \<and>
      h_LogicalGeneration h = log_FloorGeneration (h_Log h) + of_nat (length ts) \<and>
      h_TransactionID h = chain_id (log_FloorTransactionID (h_Log h)) ts \<and>
      (\<forall>t \<in> set ts. Transaction_Validate (x_ident X) t = None \<and>
         tx_RepositoryID t = h_RepositoryID h \<and> tx_ObjectFormat t = h_ObjectFormat h) \<and>
      (\<forall>x. h_HeadSymref h = Some x \<longrightarrow> fmlookup (rs_Refs s) x \<noteq> None))"

lemma collectV_sound:
  assumes "collectV X v h = Inr log"
  obtains pages objects live where
    "walkV (x_page_fuel X) X v h [] (log_TipPage (h_Log h)) = Inr (pages, objects)"
    "liveChain X h (log_FloorGeneration (h_Log h)) (log_FloorTransactionID (h_Log h))
       (concat (rev pages) @ case_option [] id (log_Tail (h_Log h))) =
       Inr (live, h_LogicalGeneration h, h_TransactionID h)"
    "log = \<lparr>rl_transactions = map env_Transaction live, rl_envelopes = live, rl_pages = objects\<rparr>"
  using assms by (auto simp: collectV_def split: sum.splits prod.splits if_splits)

lemma reconstructV_sound:
  assumes "reconstructV X v h txs = Inr refs"
  obtains b sn where "verifiedV X v (snp_Object (h_RefSnapshot h)) MaxSnapshot = Inr b"
    "ParseSnapshot (x_ident X) b = Inr sn" "sn_RepositoryID sn = h_RepositoryID h"
    "sn_ObjectFormat sn = h_ObjectFormat h" "sn_Generation sn = snp_Generation (h_RefSnapshot h)"
    "sn_TransactionID sn = snp_TransactionID (h_RefSnapshot h)"
    "replay (sn_Generation sn) (sn_Refs sn) txs = Inr refs"
    "h_HeadSymref h \<noteq> None \<longrightarrow> fmlookup refs (the (h_HeadSymref h)) \<noteq> None"
  using assms by (auto simp: reconstructV_def split: sum.splits if_splits)

lemma readV_Inr:
  assumes "readV X v = Inr s"
  obtains b where "v HEAD_KEY = Some (b, rs_ETag s)" "headV X b = Inr (rs_Head s)"
    "stateV X v (rs_ETag s) (rs_Head s) = Inr s"
proof -
  from assms obtain b t h where 1: "v HEAD_KEY = Some (b, t)" "headV X b = Inr h"
    "stateV X v t h = Inr s"
    by (auto simp: readV_def split: option.splits sum.splits)
  then have "rs_Head s = h" "rs_ETag s = t" by (auto simp: stateV_def split: sum.splits)
  with 1 that show thesis by simp
qed

lemma stateV_Inr:
  assumes "stateV X v t h = Inr s"
  obtains log where "collectV X v h = Inr log"
    "reconstructV X v h (rl_transactions log) = Inr (rs_Refs s)"
    "s = \<lparr>rs_Head = h, rs_ETag = t, rs_Refs = rs_Refs s, rs_Transactions = rl_transactions log,
       rs_Cached = False, rs_logResolved = True, rs_logEnvelopes = rl_envelopes log,
       rs_logPages = rl_pages log\<rparr>"
  using assms by (auto simp: stateV_def split: sum.splits)

lemma headV_Inr:
  "headV X b = Inr h \<longleftrightarrow> length b \<le> MaxHead \<and>
     UnmarshalForward (x_json X) (x_Head X) b MaxHead = Inr h \<and> Head_Validate (x_ident X) h = None"
  by (auto simp: headV_def split: sum.splits option.splits)

lemma stateV_sound:
  assumes "stateV X v t h = Inr s" "Head_Validate (x_ident X) h = None"
  shows "state_ok X s"
proof -
  from assms(1) obtain log where c: "collectV X v h = Inr log"
    and rec: "reconstructV X v h (rl_transactions log) = Inr (rs_Refs s)"
    and s: "s = \<lparr>rs_Head = h, rs_ETag = t, rs_Refs = rs_Refs s,
       rs_Transactions = rl_transactions log, rs_Cached = False, rs_logResolved = True,
       rs_logEnvelopes = rl_envelopes log, rs_logPages = rl_pages log\<rparr>"
    by (rule stateV_Inr)
  from s have f: "rs_Head s = h" "rs_Transactions s = rl_transactions log"
    "rs_logEnvelopes s = rl_envelopes log" by (metis RemoteState.select_convs)+
  from c obtain pages objects live where
    lc: "liveChain X h (log_FloorGeneration (h_Log h)) (log_FloorTransactionID (h_Log h))
       (concat (rev pages) @ case_option [] id (log_Tail (h_Log h))) =
       Inr (live, h_LogicalGeneration h, h_TransactionID h)"
    and log: "log = \<lparr>rl_transactions = map env_Transaction live, rl_envelopes = live,
       rl_pages = objects\<rparr>"
    by (rule collectV_sound)
  note L = liveChain_sound [OF lc]
  show ?thesis
    using L(1,2,3) L(5) rec assms(2)
    by (auto simp: state_ok_def Let_def f log elim!: reconstructV_sound)
qed

text \<open>
  The bound on the number of pages. A page that is followed is stored under the key of its
  pointer and carries the pointer's ID, and no ID is followed twice, so the pages of a walk are
  distinct objects of the store.
\<close>

lemma verifiedV_Inr:
  "verifiedV X v ref mx = Inr b \<Longrightarrow> \<exists>t. v (or_Key ref) = Some (b, t)"
  by (auto simp: verifiedV_def split: option.splits if_splits prod.splits)

definition page_ids :: "'g lib \<Rightarrow> view \<Rightarrow> string set" where
  "page_ids X v = {i. \<exists>k b t page. v k = Some (b, t) \<and>
     UnmarshalForward (x_json X) (x_LogPage X) b MaxLogPage = Inr page \<and> lp_PageID page = i}"

lemma card_page_ids: "finite (dom v) \<Longrightarrow> finite (page_ids X v) \<and> card (page_ids X v) \<le> card (dom v)"
proof -
  assume "finite (dom v)"
  let ?f = "\<lambda>k. lp_PageID (projr (UnmarshalForward (x_json X) (x_LogPage X) (fst (the (v k))) MaxLogPage))"
  have "page_ids X v \<subseteq> ?f ` dom v" by (force simp: page_ids_def)
  with \<open>finite (dom v)\<close> show ?thesis
    by (meson card_image_le card_mono finite_imageI finite_subset order_trans)
qed

definition no_fuel_error :: "'g lib \<Rightarrow> bool" where
  "no_fuel_error X \<longleftrightarrow>
     (\<forall>b. UnmarshalForward (x_json X) (x_LogPage X) b MaxLogPage \<noteq> Inl OutOfFuel)"

lemma checks_not_fuel:
  "checkPointer X seen p \<noteq> Some OutOfFuel" "checkPage h p page \<noteq> Some OutOfFuel"
  "verifiedV X v ref mx \<noteq> Inl OutOfFuel"
  by (auto simp: checkPointer_def checkPage_def verifiedV_def validateObject_def
      ValidateManagedKey_def Let_def failIf_def E_def split: option.splits if_splits)

lemma walkV_enough:
  assumes "no_fuel_error X" "finite (page_ids X v)" "set seen \<subseteq> page_ids X v" "distinct seen"
    and "card (page_ids X v) < n + length seen"
  shows "walkV n X v h seen p \<noteq> Inl OutOfFuel"
  using assms(3-5)
proof (induction n arbitrary: seen p)
  case 0
  then have "card (set seen) \<le> card (page_ids X v)" using assms(2) by (intro card_mono) auto
  with 0 show ?case by (simp add: distinct_card)
next
  case (Suc n)
  show ?case
  proof (cases p)
    case (Some q)
    have step: "walkV n X v h (pp_PageID q # seen) (lp_Previous page) \<noteq> Inl OutOfFuel"
      if T: "checkPointer X seen q = None" "verifiedV X v (pp_Object q) MaxLogPage = Inr b"
        "UnmarshalForward (x_json X) (x_LogPage X) b MaxLogPage = Inr page"
        "checkPage h q page = None" for b page
    proof (rule Suc.IH)
      have "lp_PageID page = pp_PageID q" using T(4) by (simp add: checkPage_def Let_def)
      moreover obtain t where "v (or_Key (pp_Object q)) = Some (b, t)"
        using verifiedV_Inr [OF T(2)] by blast
      ultimately show "set (pp_PageID q # seen) \<subseteq> page_ids X v"
        using T(3) Suc.prems(1) by (auto simp: page_ids_def)
      show "distinct (pp_PageID q # seen)"
        using T(1) Suc.prems(2) by (simp add: checkPointer_def)
      show "card (page_ids X v) < n + length (pp_PageID q # seen)" using Suc.prems(3) by simp
    qed
    show ?thesis
      using step assms(1)
      by (auto simp: Some no_fuel_error_def checks_not_fuel split: option.splits sum.splits prod.splits)
  qed simp
qed

section \<open>What the writers may change\<close>

text \<open>
  \<open>uploads v v'\<close>: every object is still there, and HEAD is untouched. \<open>publishes\<close>: the
  conditional replacement of HEAD by a valid document, and nothing else.
\<close>

definition uploads :: "view \<Rightarrow> view \<Rightarrow> bool" where
  "uploads v v' \<longleftrightarrow> v' HEAD_KEY = v HEAD_KEY \<and> (\<forall>k x. v k = Some x \<longrightarrow> v' k = Some x)"

definition head_options :: "headPublication \<Rightarrow> PutOptions" where
  "head_options pub = \<lparr>po_IfMatch = hp_expectedETag pub, po_IfNoneMatch = hp_ifAbsent pub,
     po_ContentSHA256 = []\<rparr>"

definition publishes :: "'g lib \<Rightarrow> Head \<Rightarrow> headPublication \<Rightarrow> view \<Rightarrow> view \<Rightarrow> bool" where
  "publishes X h pub v v' \<longleftrightarrow>
     (\<exists>b t. Marshal (x_json X) (x_Head X) h = Inr b \<and> length b \<le> MaxHead \<and>
        Head_Validate (x_ident X) h = None \<and> put_allowed (head_options pub) (v HEAD_KEY) \<and>
        v' = v(HEAD_KEY \<mapsto> (b, t)))"

lemma uploads_po: "reflp uploads" "transp uploads"
  by (auto simp: uploads_def reflp_def transp_def)

lemma uploads_refl [simp]: "uploads v v"
  by (simp add: uploads_def)

lemma uploads_trans: "uploads u v \<Longrightarrow> uploads v w \<Longrightarrow> uploads u w"
  by (auto simp: uploads_def)

lemma mapErr_iff [run_simps]:
  "mapErr f m w = (Inr x, w') \<longleftrightarrow> m w = (Inr x, w')"
  "mapErr f m w = (Inl e, w') \<longleftrightarrow> (\<exists>e0. m w = (Inl e0, w') \<and> e = f e0)"
  by (auto simp: mapErr_def tryP_def split: prod.splits sum.splits)

lemma keeps_mapErr [intro]: "keeps R m \<Longrightarrow> keeps R (mapErr f m)"
  by (auto simp: keeps_def mapErr_def tryP_def split: prod.splits sum.splits) (metis snd_conv)+

lemma immutable_run:
  "immutable X r key b (s, g) =
     (case st_Put (r_Store r) key (b, None) (int (length b)) (put_absent (digest X b)) s of
        (Inr _, s1) \<Rightarrow> (Inr (shaRef X key b), (s1, g))
      | (Inl e, s1) \<Rightarrow>
         (if errors_Is e ErrPrecondition then
            (case st_Get (r_Store r) key [] s1 of
               (Inl e2, s2) \<Rightarrow> (Inl e2, (s2, g))
             | (Inr ob, s2) \<Rightarrow>
                (if of_nat (length (ob_Body ob)) \<noteq> (of_nat (length b) :: u64) \<or>
                    digest X (ob_Body ob) \<noteq> digest X b
                 then (Inl (E IntegrityFailed ''immutable-object''
                         (Errorf ''collision at %s'' [key])), (s2, g))
                 else (Inr (shaRef X key b), (s2, g))))
          else (Inl e, (s1, g))))"
  by (simp add: immutable_def shaRef_def Let_def tryP_def bindP_def onStore_def failIf_def
      split: prod.splits sum.splits)

lemma publishHead_run:
  assumes "Head_Validate (x_ident X) h = None" "Marshal (x_json X) (x_Head X) h = Inr b"
    "length b \<le> MaxHead"
  shows "publishHead X r h pub (s, g) =
     (case st_Put (r_Store r) HEAD_KEY (b, None) (int (length b)) (head_options pub) s of
        (Inr _, s1) \<Rightarrow> (Inr (), (s1, g))
      | (Inl e, s1) \<Rightarrow>
         (if errors_Is e ErrPrecondition
          then (Inl (E CASConflict (hp_operation pub) (Errorf (hp_conflict pub) [])), (s1, g))
          else (case ReadUnconditional X r (s1, g) of
              (Inl _, w) \<Rightarrow> (Inl (E PublishAmbiguous (hp_operation pub) e), w)
            | (Inr observed, w) \<Rightarrow>
               (if h_PublicationID (rs_Head observed) = h_PublicationID h then (Inr (), w)
                else (case hp_confirm pub of
                    None \<Rightarrow> (Inl (E PublishAmbiguous (hp_operation pub) e), w)
                  | Some confirm \<Rightarrow>
                     (case confirm observed e of
                        (_, Some ce) \<Rightarrow> (Inl ce, w)
                      | (True, None) \<Rightarrow> (Inr (), w)
                      | (False, None) \<Rightarrow>
                          (Inl (E PublishAmbiguous (hp_operation pub) e), w)))))))"
  using assms
  by (simp add: publishHead_def head_options_def tryP_def bindP_def onStore_def failIf_def
      split: prod.splits sum.splits option.splits bool.splits)

lemma publishHead_pre:
  assumes "\<nexists>b. Head_Validate (x_ident X) h = None \<and>
      Marshal (x_json X) (x_Head X) h = Inr b \<and> length b \<le> MaxHead"
  obtains e where "publishHead X r h pub w = (Inl e, w)"
  using assms
  by (cases "Head_Validate (x_ident X) h"; cases "Marshal (x_json X) (x_Head X) h")
    (auto simp: publishHead_def bindP_def failIf_def)

context object_store
begin

text \<open>Two relations on store states: nothing changed, and only new objects appeared.\<close>

definition unchanged :: "'s \<times> 'g \<Rightarrow> 's \<times> 'g \<Rightarrow> bool" where
  "unchanged = store_rel (\<lambda>s s'. view s' = view s)"

definition uploading :: "'s \<times> 'g \<Rightarrow> 's \<times> 'g \<Rightarrow> bool" where
  "uploading = store_rel (\<lambda>s s'. uploads (view s) (view s'))"

lemma unchanged_po: "reflp unchanged" "transp unchanged"
  by (auto simp: unchanged_def store_rel_def reflp_def transp_def)

lemma uploading_po: "reflp uploading" "transp uploading"
  using uploads_po by (auto simp: uploading_def store_rel_def reflp_def transp_def)

lemma unchangedD: "unchanged w w' \<Longrightarrow> view (fst w') = view (fst w)"
  by (simp add: unchanged_def store_rel_def)

lemma uploadingD: "uploading w w' \<Longrightarrow> uploads (view (fst w)) (view (fst w'))"
  by (simp add: uploading_def store_rel_def)

lemma keeps_uploading: "keeps unchanged m \<Longrightarrow> keeps uploading m"
  by (auto simp: keeps_def unchanged_def uploading_def store_rel_def)

lemma keeps_local: "keeps unchanged (onLocal m)" "keeps uploading (onLocal m)"
  by (simp_all add: keeps_def unchanged_def uploading_def store_rel_def)

lemma keeps_get: "T = S \<Longrightarrow> keeps unchanged (onStore (st_Get T k none))"
  unfolding keeps_def unchanged_def store_rel_def onStore_def
  by (auto split: prod.splits dest: get_view)

lemma keeps_Pair: "keeps unchanged (Pair x)" "keeps uploading (Pair x)"
  using unchanged_po(1) uploading_po(1) by (auto simp: keeps_def dest: reflpD)

lemmas keeps_unchanged =
  keeps_bindP [OF unchanged_po] keeps_tryP [OF unchanged_po(2)] keeps_checkP [OF unchanged_po(1)]
  keeps_pure [OF unchanged_po(1)] keeps_mapErr keeps_local(1) keeps_get keeps_Pair(1)

lemmas keeps_uploads =
  keeps_bindP [OF uploading_po] keeps_tryP [OF uploading_po(2)] keeps_checkP [OF uploading_po(1)]
  keeps_pure [OF uploading_po(1)] keeps_mapErr keeps_local(2) keeps_Pair(2)

lemma keeps_verified: "r_Store r = S \<Longrightarrow> keeps unchanged (verified X r ref mx)"
  unfolding verified_def by (simp add: keeps_unchanged)

lemma keeps_walkPages: "r_Store r = S \<Longrightarrow> keeps unchanged (walkPages n X r h seen p)"
proof (induction n arbitrary: seen p)
  case 0
  show ?case by (cases p) (simp_all only: walkPages.simps keeps_unchanged)
next
  case (Suc n)
  then show ?case
    by (cases p)
      (auto intro!: keeps_unchanged keeps_verified split: prod.splits)
qed

lemma keeps_collect: "r_Store r = S \<Longrightarrow> keeps unchanged (collectTransactions X r h)"
  unfolding collectTransactions_def
  by (auto intro!: keeps_unchanged keeps_walkPages split: prod.splits)

lemma keeps_readObject: "r_Store r = S \<Longrightarrow> keeps unchanged (readObject X r ob)"
  unfolding readObject_def reconstruct_def
  by (intro keeps_unchanged keeps_collect keeps_verified)

lemma keeps_ReadUnconditional: "r_Store r = S \<Longrightarrow> keeps unchanged (ReadUnconditional X r)"
  unfolding ReadUnconditional_def
  by (auto intro!: keeps_unchanged keeps_readObject)

lemma keeps_Read: "r_Store r = S \<Longrightarrow> keeps unchanged (Read X r)"
  unfolding Read_def readCached_def readLocal_def
  by (auto intro!: keeps_unchanged keeps_readObject keeps_ReadUnconditional
      split: option.splits sum.splits prod.splits)

lemma keeps_put_absent:
  assumes "key \<noteq> HEAD_KEY"
  shows "keeps uploading (onStore (st_Put S key rd n (put_absent sha)))"
  unfolding keeps_def
proof
  fix w
  obtain res s' where put: "st_Put S key rd n (put_absent sha) (fst w) = (res, s')"
    by (cases "st_Put S key rd n (put_absent sha) (fst w)")
  from put_absent_grows [OF put] put_other [OF put] assms
  have "uploads (view (fst w)) (view s')"
    by (simp add: uploads_def put_absent_def)
  then show "uploading w (snd (onStore (st_Put S key rd n (put_absent sha)) w))"
    by (simp add: uploading_def store_rel_def onStore_def put)
qed

lemma keeps_immutable:
  assumes "r_Store r = S" "key \<noteq> HEAD_KEY"
  shows "keeps uploading (immutable X r key b)"
  unfolding immutable_def Let_def assms(1)
  by (auto intro!: keeps_uploads keeps_put_absent [OF assms(2)] keeps_uploading [OF keeps_get]
      split: sum.splits)

text \<open>After an immutable write the key holds a body of the recorded size and digest.\<close>

lemma immutable_Inr:
  assumes "r_Store r = S" "immutable X r key b w = (Inr ref, w')"
  shows "ref = shaRef X key b"
    and "\<exists>b' t. view (fst w') key = Some (b', t) \<and> of_nat (length b') = or_Size ref \<and>
      digest X b' = or_SHA256 ref"
proof -
  obtain s g where w: "w = (s, g)" by (cases w)
  have "ref = shaRef X key b \<and> (\<exists>b' t. view (fst w') key = Some (b', t) \<and>
      of_nat (length b') = or_Size ref \<and> digest X b' = or_SHA256 ref)"
    using assms(2) unfolding w immutable_run assms(1)
    by (auto split: prod.splits sum.splits if_splits dest: put_ok simp: shaRef_def)
      (metis get_body get_view)
  then show "ref = shaRef X key b"
    and "\<exists>b' t. view (fst w') key = Some (b', t) \<and> of_nat (length b') = or_Size ref \<and>
      digest X b' = or_SHA256 ref" by blast+
qed

text \<open>
  Whatever happens during a publication, also when its response is lost, HEAD is either left
  alone or replaced by the candidate under the publication's precondition.
\<close>

lemma publishHead_view:
  assumes r: "r_Store r = S" and run: "publishHead X r h pub w = (res, w')"
  shows "view (fst w') = view (fst w) \<or> publishes X h pub (view (fst w)) (view (fst w'))"
proof -
  obtain s g where w: "w = (s, g)" by (cases w)
  show ?thesis
  proof (cases "\<exists>b. Head_Validate (x_ident X) h = None \<and>
      Marshal (x_json X) (x_Head X) h = Inr b \<and> length b \<le> MaxHead")
    case False
    then obtain e where "publishHead X r h pub w = (Inl e, w)" by (rule publishHead_pre)
    with run show ?thesis by simp
  next
    case True
    then obtain b where b: "Head_Validate (x_ident X) h = None"
      "Marshal (x_json X) (x_Head X) h = Inr b" "length b \<le> MaxHead" by blast
    let ?put = "st_Put S HEAD_KEY (b, None) (int (length b)) (head_options pub)"
    obtain pr s1 where put: "?put s = (pr, s1)" by (cases "?put s")
    have put': "view s1 = view s \<or> publishes X h pub (view s) (view s1)"
      using put_ok [of HEAD_KEY "(b, None)" _ _ s _ s1] put_err [of HEAD_KEY "(b, None)" _ _ s _ s1]
        put b by (cases pr) (auto simp: publishes_def)
    obtain rr w2 where rd: "ReadUnconditional X r (s1, g) = (rr, w2)"
      by (cases "ReadUnconditional X r (s1, g)")
    from keeps_ReadUnconditional [OF r] rd have "unchanged (s1, g) w2" by (rule keepsD)
    then have "view (fst w2) = view s1" by (auto dest: unchangedD)
    then have "view (fst w') = view s1"
      using run put rd unfolding w publishHead_run [OF b] r
      by (auto split: if_splits sum.splits option.splits prod.splits bool.splits)
    with put' w show ?thesis by simp
  qed
qed

end

context atomic_store
begin

text \<open>Without lost responses a publication that reports success has replaced HEAD.\<close>

lemma publishHead_done:
  assumes r: "r_Store r = S" and run: "publishHead X r h pub w = (Inr u, w')"
  shows "publishes X h pub (view (fst w)) (view (fst w'))"
proof -
  obtain s g where w: "w = (s, g)" by (cases w)
  from run have "\<not> (\<nexists>b. Head_Validate (x_ident X) h = None \<and>
      Marshal (x_json X) (x_Head X) h = Inr b \<and> length b \<le> MaxHead)"
    by (metis Inl_Inr_False fst_conv publishHead_pre)
  then obtain b where b: "Head_Validate (x_ident X) h = None"
    "Marshal (x_json X) (x_Head X) h = Inr b" "length b \<le> MaxHead" by blast
  let ?put = "st_Put S HEAD_KEY (b, None) (int (length b)) (head_options pub)"
  obtain pr s1 where put: "?put s = (pr, s1)" by (cases "?put s")
  with run put_refused [of HEAD_KEY b "int (length b)" "head_options pub" s _ s1]
  obtain m where "pr = Inr m" "w' = (s1, g)"
    unfolding w publishHead_run [OF b] r by (cases pr) auto
  with put put_ok [of HEAD_KEY "(b, None)" _ _ s m s1] b w show ?thesis
    by (auto simp: publishes_def)
qed

end

end
