(* ===== verification/Git3_Fetch.thy ===== *)
theory Git3_Fetch
  imports Git3_Remote
begin

text \<open>
  Installing objects locally (\<^verbatim>\<open>src/internal/engine/engine.go\<close>, from \<^verbatim>\<open>Fetch\<close> to
  \<^verbatim>\<open>writeCursor\<close>): downloads in verified ranges, pack pairs staged and renamed into place,
  write-ahead packs streamed to \<^verbatim>\<open>git index-pack\<close>, and the cursor that lets the next fetch
  continue.

  The download workers of \<^verbatim>\<open>downloadVerified\<close> write disjoint ranges of one file; here the ranges
  are fetched one after the other and the file is written once. The writer process of
  \<^verbatim>\<open>installWAL\<close> runs before \<^verbatim>\<open>git index-pack\<close> instead of beside it. Sizes are below
  \<open>2 ^ 63\<close>, as \<^verbatim>\<open>downloadVerified\<close> demands, so that \<^verbatim>\<open>int64\<close> arithmetic on offsets is exact.
\<close>

section \<open>Ranges\<close>

text \<open>The offsets \<^verbatim>\<open>for a < size { b = min(a+chunk, size) - 1; ...; a = b + 1 }\<close>.\<close>

function spans :: "int \<Rightarrow> int \<Rightarrow> int \<Rightarrow> (int \<times> int) list" where
  "spans chunk sz a =
     (if a < sz \<and> chunk > 0 then
        (let b = (if a + chunk - 1 \<ge> sz then sz - 1 else a + chunk - 1) in
         (a, b) # spans chunk sz (b + 1))
      else [])"
  by pat_completeness auto
termination by (relation "measure (\<lambda>(chunk, sz, a). nat (sz - a))") (auto simp: Let_def split: if_splits)

declare spans.simps [simp del]

definition chunkOf :: "'s Repository \<Rightarrow> int" where
  "chunkOf r = (if r_DownloadChunkSize r \<le> 0 then 64 * 2 ^ 20 else r_DownloadChunkSize r)"

text \<open>Copying the ranges in order, up to the first failure.\<close>

fun copyRanges ::
  "'s Repository \<Rightarrow> string \<Rightarrow> u64 \<Rightarrow> (int \<times> int) list \<Rightarrow> 's \<times> 'g \<Rightarrow>
     (bytes \<times> goerr option) \<times> ('s \<times> 'g)"
where
  "copyRanges r key tot [] w = (([], None), w)"
| "copyRanges r key tot ((a, b) # xs) w =
     (case copyRange r key a b tot w of
        ((bs, Some e), w') \<Rightarrow> ((bs, Some e), w')
      | ((bs, None), w') \<Rightarrow>
         (case copyRanges r key tot xs w' of ((cs, err), w'') \<Rightarrow> ((bs @ cs, err), w'')))"

section \<open>Local files\<close>

definition fileDigestLocal :: "'g lib \<Rightarrow> string \<Rightarrow> ('g, nat \<times> string) prog" where
  "fileDigestLocal X path =
     bindP (os_ReadFile (x_OS X) path) (\<lambda>b. returnP (length b, digest X b))"

definition pathExists :: "'g OS \<Rightarrow> string \<Rightarrow> ('g, bool) prog" where
  "pathExists Os path = tryP (os_Stat Os path) (\<lambda>r. case r of
      Inr _ \<Rightarrow> returnP True
    | Inl e \<Rightarrow> if errors_Is e ErrNotExist then returnP False else failP e)"

fun removeAllOf :: "'g OS \<Rightarrow> string list \<Rightarrow> ('g, unit) prog" where
  "removeAllOf Os [] = returnP ()"
| "removeAllOf Os (p # ps) = tryP (os_Remove Os p) (\<lambda>r. case r of
      Inr _ \<Rightarrow> removeAllOf Os ps
    | Inl e \<Rightarrow> if errors_Is e ErrNotExist then removeAllOf Os ps else failP e)"

definition removePackPair :: "'g OS \<Rightarrow> string \<Rightarrow> string \<Rightarrow> ('g, unit) prog" where
  "removePackPair Os packPath indexPath = removeAllOf Os [packPath, indexPath]"

definition verifyTrailer :: "'g OS \<Rightarrow> string \<Rightarrow> string \<Rightarrow> ('g, unit) prog" where
  "verifyTrailer Os path expected =
     bindP (os_ReadFile Os path) (\<lambda>b.
       (let n = length expected div 2 in
        checkP (failIf (length b < n) (Errorf ''short native pack'' []))
        (checkP (failIf (EncodeToString (drop (length b - n) b) \<noteq> expected)
                   (E IntegrityFailed ''verify-pack'' (Errorf ''native checksum mismatch'' [])))
         (returnP ()))))"

definition checkDigest ::
  "'g lib \<Rightarrow> string \<Rightarrow> ObjectRef \<Rightarrow> goerr \<Rightarrow> ('g, unit) prog"
where
  "checkDigest X path ref err = tryP (fileDigestLocal X path) (\<lambda>d. case d of
      Inl _ \<Rightarrow> failP err
    | Inr (n, sm) \<Rightarrow>
        checkP (failIf (of_nat n \<noteq> or_Size ref \<or> sm \<noteq> or_SHA256 ref) err) (returnP ()))"

definition verifyPackPair ::
  "'g lib \<Rightarrow> string \<Rightarrow> PackEntry \<Rightarrow> string \<Rightarrow> string \<Rightarrow> ('g, unit) prog"
where
  "verifyPackPair X dir entry packPath indexPath =
     bindP (checkDigest X packPath (pe_Pack entry)
              (E IntegrityFailed ''verify-pack'' (Errorf ''pack digest mismatch'' []))) (\<lambda>_.
     bindP (checkDigest X indexPath (pe_Index entry)
              (E IntegrityFailed ''verify-pack'' (Errorf ''index digest mismatch'' []))) (\<lambda>_.
     bindP (verifyTrailer (x_OS X) packPath (pe_GitPackChecksum entry)) (\<lambda>_.
     bindP (git_VerifyPack (x_OS X) dir indexPath) (\<lambda>_.
     bindP (git_CountPackObjects (x_OS X) indexPath) (\<lambda>count.
     checkP (failIf (count \<noteq> pe_ObjectCount entry) (Errorf ''pack object count mismatch'' []))
     (returnP ()))))))"

text \<open>
  \<^verbatim>\<open>downloadVerified\<close>: the file is created exclusively, after removing one in the way, and
  removed again on every failure.
\<close>

definition openFresh :: "'g OS \<Rightarrow> string \<Rightarrow> ('g, unit) prog" where
  "openFresh Os path = tryP (os_OpenExcl Os path) (\<lambda>r. case r of
      Inr _ \<Rightarrow> returnP ()
    | Inl e \<Rightarrow>
       (if errors_Is e ErrExist then bindP (os_Remove Os path) (\<lambda>_. os_OpenExcl Os path)
        else failP e))"

definition removeOnError :: "'g OS \<Rightarrow> string \<Rightarrow> ('s \<times> 'g, 'a) prog \<Rightarrow> ('s \<times> 'g, 'a) prog" where
  "removeOnError Os path m = tryP m (\<lambda>r. case r of
      Inr x \<Rightarrow> returnP x
    | Inl e \<Rightarrow> tryP (onLocal (os_Remove Os path)) (\<lambda>_. failP e))"

definition copyAll :: "'s Repository \<Rightarrow> ObjectRef \<Rightarrow> ('s \<times> 'g, bytes) prog" where
  "copyAll r ref w =
     (case copyRanges r (or_Key ref) (or_Size ref) (spans (chunkOf r) (uint (or_Size ref)) 0) w of
        (k, w') \<Rightarrow> (case snd k of Some e \<Rightarrow> failP e | None \<Rightarrow> returnP (fst k)) w')"

definition downloadVerified ::
  "'g lib \<Rightarrow> 's Repository \<Rightarrow> ObjectRef \<Rightarrow> string \<Rightarrow> ('s \<times> 'g, unit) prog"
where
  "downloadVerified X r ref path =
     checkP (validateObject ref)
     (checkP (failIf (uint (or_Size ref) > 2 ^ 63 - 1) (Errorf ''object too large for local file'' []))
     (bindP (onLocal (openFresh (x_OS X) path)) (\<lambda>_.
      removeOnError (x_OS X) path
       (bindP (copyAll r ref) (\<lambda>content.
        bindP (onLocal (os_WriteFile (x_OS X) path content)) (\<lambda>_.
        bindP (onLocal (os_Sync (x_OS X) path)) (\<lambda>_.
        bindP (onLocal (os_Close (x_OS X) path)) (\<lambda>_.
        bindP (onLocal (fileDigestLocal X path)) (\<lambda>(n, sm).
        checkP (failIf (of_nat n \<noteq> or_Size ref \<or> sm \<noteq> or_SHA256 ref)
                  (E IntegrityFailed ''download''
                     (Errorf ''digest mismatch for %s'' [or_Key ref])))
        (returnP ())))))))))) "

section \<open>Packs\<close>

definition pack_path :: "string \<Rightarrow> string \<Rightarrow> string \<Rightarrow> string" where
  "pack_path dir checksum suffix = filepath_Join dir (''pack-'' @ checksum @ suffix)"

definition installPackPair ::
  "'g lib \<Rightarrow> 's Repository \<Rightarrow> State \<Rightarrow> PackEntry \<Rightarrow> string \<Rightarrow> string \<Rightarrow> ('s \<times> 'g, unit) prog"
where
  "installPackPair X r ls entry packPath indexPath =
     bindP (onLocal (os_MkdirTemp (x_OS X) (ls_Root ls) ''pack-install-'')) (\<lambda>stage.
     (let stagedPack = pack_path stage (pe_GitPackChecksum entry) ''.pack'';
          stagedIndex = pack_path stage (pe_GitPackChecksum entry) ''.idx'' in
      finallyP
       (bindP (downloadVerified X r (pe_Pack entry) stagedPack) (\<lambda>_.
        bindP (downloadVerified X r (pe_Index entry) stagedIndex) (\<lambda>_.
        bindP (onLocal (verifyPackPair X (r_Git r) entry stagedPack stagedIndex)) (\<lambda>_.
        bindP (onLocal (os_Rename (x_OS X) stagedPack packPath)) (\<lambda>_.
        tryP (onLocal (os_Rename (x_OS X) stagedIndex indexPath)) (\<lambda>ren. case ren of
          Inl e \<Rightarrow> tryP (onLocal (os_Remove (x_OS X) packPath)) (\<lambda>_. failP e)
        | Inr _ \<Rightarrow> tryP (onLocal (os_SyncDir (x_OS X) (ls_PackDir ls))) (\<lambda>_. returnP ())))))))
       (onLocal (os_RemoveAll (x_OS X) stage))))"

definition loadPackset :: "'g lib \<Rightarrow> 's Repository \<Rightarrow> RemoteState \<Rightarrow> ('s \<times> 'g, Packset) prog" where
  "loadPackset X r s =
     (let p = h_Packset (rs_Head s) in
      bindP (verified X r (psp_Object p) MaxPackset) (\<lambda>b.
      bindP (liftP (UnmarshalForward (x_json X) (x_Packset X) b MaxPackset)) (\<lambda>packset.
      checkP (Packset_Validate (x_ident X) packset)
      (checkP (failIf (ps_RepositoryID packset \<noteq> h_RepositoryID (rs_Head s) \<or>
                       ps_ObjectFormat packset \<noteq> h_ObjectFormat (rs_Head s) \<or>
                       ps_PacksetID packset \<noteq> psp_PacksetID p \<or>
                       ps_Generation packset \<noteq> psp_Generation p \<or>
                       \<not> same (ps_TransactionID packset) (psp_TransactionID p))
                 (Errorf ''packset pointer mismatch'' []))
       (returnP packset)))))"

definition allPacks :: "Packset \<Rightarrow> PackEntry list" where
  "allPacks ps = concat (map pl_Packs (case_option [] id (ps_Levels ps)))"

text \<open>
  The first loop of \<^verbatim>\<open>installPackset\<close>: the packs that are not yet installed, after clearing
  the remains of an interrupted installation; the sums are guarded against overflow.
\<close>

fun pendingPacks ::
  "'g lib \<Rightarrow> string \<Rightarrow> State \<Rightarrow> u64 \<Rightarrow> u64 \<Rightarrow> PackEntry list \<Rightarrow> ('g, PackEntry list) prog"
where
  "pendingPacks X dir ls tot objects [] = returnP []"
| "pendingPacks X dir ls tot objects (p # ps) =
     (let pp = pack_path (ls_PackDir ls) (pe_GitPackChecksum p) ''.pack'';
          ip = pack_path (ls_PackDir ls) (pe_GitPackChecksum p) ''.idx'' in
      bindP (pathExists (x_OS X) pp) (\<lambda>packExists.
      bindP (pathExists (x_OS X) ip) (\<lambda>indexExists.
      tryP (if packExists \<and> indexExists then verifyPackPair X dir p pp ip
            else failP (Errorf ''incomplete'' [])) (\<lambda>installed. case installed of
        Inr _ \<Rightarrow> pendingPacks X dir ls tot objects ps
      | Inl _ \<Rightarrow>
         bindP (mapErr (Wrapf ''repair interrupted pack install: %w'' [])
                  (if packExists \<or> indexExists then removePackPair (x_OS X) pp ip
                   else returnP ())) (\<lambda>_.
         checkP (failIf (or_Size (pe_Pack p) > - 1 - tot \<or>
                         or_Size (pe_Index p) > - 1 - tot - or_Size (pe_Pack p))
                   (Errorf ''packset download size overflow'' []))
         (checkP (failIf (pe_ObjectCount p > - 1 - objects)
                    (Errorf ''packset object count overflow'' []))
         (bindP (pendingPacks X dir ls (tot + (or_Size (pe_Pack p) + or_Size (pe_Index p)))
                   (objects + pe_ObjectCount p) ps) (\<lambda>pending.
          returnP (p # pending))))))))) "

fun installPairs ::
  "'g lib \<Rightarrow> 's Repository \<Rightarrow> State \<Rightarrow> PackEntry list \<Rightarrow> ('s \<times> 'g, unit) prog"
where
  "installPairs X r ls [] = returnP ()"
| "installPairs X r ls (p # ps) =
     bindP (installPackPair X r ls p
              (pack_path (ls_PackDir ls) (pe_GitPackChecksum p) ''.pack'')
              (pack_path (ls_PackDir ls) (pe_GitPackChecksum p) ''.idx'')) (\<lambda>_.
     installPairs X r ls ps)"

definition installPackset ::
  "'g lib \<Rightarrow> 's Repository \<Rightarrow> State \<Rightarrow> RemoteState \<Rightarrow> ('s \<times> 'g, bool) prog"
where
  "installPackset X r ls s =
     bindP (loadPackset X r s) (\<lambda>ps.
     bindP (onLocal (os_MkdirAll (x_OS X) (ls_PackDir ls))) (\<lambda>_.
     bindP (onLocal (pendingPacks X (r_Git r) ls 0 0 (allPacks ps))) (\<lambda>pending.
     bindP (installPairs X r ls pending) (\<lambda>_.
     bindP (if length (allPacks ps) \<ge> 4 then onLocal (git_WriteMIDX (x_OS X) (r_Git r))
            else returnP ()) (\<lambda>_.
     returnP (pending \<noteq> []))))))"

section \<open>Write-ahead packs\<close>

text \<open>The stream the writer goroutine feeds to \<^verbatim>\<open>git index-pack\<close>.\<close>

definition walStream ::
  "'g lib \<Rightarrow> 's Repository \<Rightarrow> ObjectData \<Rightarrow> 's \<times> 'g \<Rightarrow> Reader \<times> ('s \<times> 'g)"
where
  "walStream X r d w =
     (case copyRanges r (or_Key (od_Object d)) (or_Size (od_Object d))
             (spans (chunkOf r) (uint (or_Size (od_Object d))) 0) w of
        ((bs, Some e), w') \<Rightarrow> ((bs, Some e), w')
      | ((bs, None), w') \<Rightarrow>
         ((bs, failIf (of_nat (length bs) \<noteq> or_Size (od_Object d) \<or>
                       digest X bs \<noteq> or_SHA256 (od_Object d))
              (E IntegrityFailed ''install-wal'' (Errorf ''WAL digest mismatch'' []))), w'))"

definition installedKeep :: "'g lib \<Rightarrow> string \<Rightarrow> ObjectData \<Rightarrow> string \<Rightarrow> ('g, string list) prog" where
  "installedKeep X dir d out =
     (let fields = Fields out in
      if fields \<noteq> [] \<and> ValidOID (last fields) (ObjectFormatGuess d) then
        tryP (git_PackDir (x_OS X) dir) (\<lambda>pd. case pd of
          Inl _ \<Rightarrow> returnP []
        | Inr dir' \<Rightarrow>
           (let p = pack_path dir' (last fields) ''.keep'' in
            tryP (os_Stat (x_OS X) p) (\<lambda>st. case st of
               Inl _ \<Rightarrow> returnP [] | Inr _ \<Rightarrow> returnP [p])))
      else returnP [])"

definition installWAL ::
  "'g lib \<Rightarrow> 's Repository \<Rightarrow> ObjectData \<Rightarrow> ('s \<times> 'g, string list) prog"
where
  "installWAL X r d =
     checkP (validateObject (od_Object d))
     (\<lambda>w. case walStream X r d w of
        (stdin, w') \<Rightarrow>
          bindP (onLocal (git_IndexPack (x_OS X) (r_Git r) stdin True ''git3-fetch'')) (\<lambda>out.
            onLocal (installedKeep X (r_Git r) d out)) w')"

text \<open>
  A loop of \<^verbatim>\<open>installWAL\<close>: the keep files recorded so far and the error it stopped at, if any.
\<close>

fun installWALs ::
  "'g lib \<Rightarrow> 's Repository \<Rightarrow> ObjectData list \<Rightarrow> string list \<Rightarrow> 's \<times> 'g \<Rightarrow>
     (string list \<times> goerr option) \<times> ('s \<times> 'g)"
where
  "installWALs X r [] kept w = ((kept, None), w)"
| "installWALs X r (d # ds) kept w =
     (case installWAL X r d w of
        (Inl e, w') \<Rightarrow> ((kept, Some e), w')
      | (Inr ks, w') \<Rightarrow> installWALs X r ds (kept @ ks) w')"

definition pendingWAL :: "u64 \<Rightarrow> Transaction list \<Rightarrow> ObjectData list" where
  "pendingWAL gen txs =
     map (the \<circ> tx_ObjectData)
       (filter (\<lambda>t. tx_Generation t > gen \<and> tx_ObjectData t \<noteq> None) txs)"

section \<open>Fetch\<close>

record FetchReport =
  fr_Warnings :: "string list"
  fr_InstalledKeeps :: "string list"

definition cursorOnChain :: "RemoteState \<Rightarrow> Cursor \<Rightarrow> bool" where
  "cursorOnChain s c =
     (if cu_RepositoryID c \<noteq> h_RepositoryID (rs_Head s) \<or>
         cu_ObjectFormat c \<noteq> h_ObjectFormat (rs_Head s) then False
      else if cu_LogicalGeneration c = log_FloorGeneration (h_Log (rs_Head s)) then
        same (cu_TransactionID c) (log_FloorTransactionID (h_Log (rs_Head s)))
      else (case find (\<lambda>t. tx_Generation t = cu_LogicalGeneration c) (rs_Transactions s) of
          Some t \<Rightarrow> cu_TransactionID c \<noteq> None \<and> the (cu_TransactionID c) = tx_TransactionID t
        | None \<Rightarrow> False))"

definition writeCursor :: "'g lib \<Rightarrow> 's Repository \<Rightarrow> State \<Rightarrow> RemoteState \<Rightarrow> ('g, unit) prog" where
  "writeCursor X r ls s =
     (let h = rs_Head s in
      bindP (liftP (MarshalText (x_ident X)
               \<lparr>sn_RepositoryID = h_RepositoryID h, sn_ObjectFormat = h_ObjectFormat h,
                sn_Generation = h_LogicalGeneration h, sn_TransactionID = h_TransactionID h,
                sn_Refs = rs_Refs s\<rparr>)) (\<lambda>b.
      bindP (State_Write X ls
               \<lparr>cu_FormatVersion = 1, cu_RepositoryID = h_RepositoryID h,
                cu_ObjectFormat = h_ObjectFormat h, cu_LogicalGeneration = h_LogicalGeneration h,
                cu_TransactionID = h_TransactionID h, cu_LastPublicationID = h_PublicationID h,
                cu_LastHeadETag = rs_ETag s, cu_CachedRefsSHA256 = []\<rparr> b (rs_ETag s)) (\<lambda>_.
      bindP (liftP (Marshal (x_json X) (x_Head X) h)) (\<lambda>hb.
      bindP (WriteHead X ls hb) (\<lambda>_.
      if r_CacheID r \<noteq> [] then
        WriteRemoteMapping X (r_Git r) (r_CacheID r) (h_RepositoryID h)
      else returnP ())))))"

definition divergent_warning :: "RemoteState \<Rightarrow> Cursor res \<Rightarrow> string list" where
  "divergent_warning s cursor = (case cursor of
      Inl _ \<Rightarrow> []
    | Inr c \<Rightarrow>
       (if cu_LogicalGeneration c > h_LogicalGeneration (rs_Head s) \<or>
           (cu_LogicalGeneration c = h_LogicalGeneration (rs_Head s) \<and>
            \<not> same (cu_TransactionID c) (h_TransactionID (rs_Head s)))
        then [''remote logical history is lower or divergent; retaining local objects and bootstrapping'']
        else []))"

definition cursor_current :: "RemoteState \<Rightarrow> Cursor res \<Rightarrow> bool" where
  "cursor_current s cursor = (case cursor of
      Inl _ \<Rightarrow> False
    | Inr c \<Rightarrow> cu_LogicalGeneration c = h_LogicalGeneration (rs_Head s) \<and>
        same (cu_TransactionID c) (h_TransactionID (rs_Head s)))"

definition cursor_continues :: "RemoteState \<Rightarrow> Cursor res \<Rightarrow> bool" where
  "cursor_continues s cursor = (case cursor of
      Inl _ \<Rightarrow> False
    | Inr c \<Rightarrow> cu_LogicalGeneration c \<ge> log_FloorGeneration (h_Log (rs_Head s)) \<and>
        cu_LogicalGeneration c < h_LogicalGeneration (rs_Head s) \<and> cursorOnChain s c)"

text \<open>The last part of \<^verbatim>\<open>fetchState\<close>: everything from the packset.\<close>

definition fetchBootstrap ::
  "'g lib \<Rightarrow> 's Repository \<Rightarrow> State \<Rightarrow> RemoteState \<Rightarrow> FetchReport \<Rightarrow> ('s \<times> 'g, FetchReport) prog"
where
  "fetchBootstrap X r ls s report =
     bindP (installPackset X r ls s) (\<lambda>_ w.
       case installWALs X r
              (pendingWAL (psp_Generation (h_Packset (rs_Head s))) (rs_Transactions s))
              (fr_InstalledKeeps report) w of
         (k, w') \<Rightarrow>
          (case snd k of
             Some e \<Rightarrow> failP e
           | None \<Rightarrow>
              bindP (onLocal (git_VerifyConnectivity (x_OS X) (r_Git r) (rs_Refs s))) (\<lambda>_.
              bindP (onLocal (writeCursor X r ls s)) (\<lambda>_.
              returnP (report\<lparr>fr_InstalledKeeps := fst k\<rparr>)))) w')"

text \<open>The middle part: the packs after the cursor, when it is on the chain.\<close>

definition fetchIncrement ::
  "'g lib \<Rightarrow> 's Repository \<Rightarrow> State \<Rightarrow> RemoteState \<Rightarrow> Cursor res \<Rightarrow> FetchReport \<Rightarrow>
     ('s \<times> 'g, FetchReport) prog"
where
  "fetchIncrement X r ls s cursor report =
     (if cursor_continues s cursor then
        (\<lambda>w. case installWALs X r
               (pendingWAL (cu_LogicalGeneration (projr cursor)) (rs_Transactions s))
               (fr_InstalledKeeps report) w of
           (k, w') \<Rightarrow>
             (let report' = report\<lparr>fr_InstalledKeeps := fst k\<rparr> in
              case snd k of
                Some e \<Rightarrow> fetchBootstrap X r ls s report'
              | None \<Rightarrow>
                 tryP (onLocal (git_VerifyConnectivity (x_OS X) (r_Git r) (rs_Refs s))) (\<lambda>v. case v of
                   Inr _ \<Rightarrow> bindP (onLocal (writeCursor X r ls s)) (\<lambda>_. returnP report')
                 | Inl _ \<Rightarrow> fetchBootstrap X r ls s report')) w')
      else fetchBootstrap X r ls s report)"

definition fetchRest ::
  "'g lib \<Rightarrow> 's Repository \<Rightarrow> State \<Rightarrow> RemoteState \<Rightarrow> Cursor res \<Rightarrow> FetchReport \<Rightarrow>
     ('s \<times> 'g, FetchReport) prog"
where
  "fetchRest X r ls s0 cursor report =
     bindP (if rs_Cached s0 then ReadUnconditional X r else returnP s0) (\<lambda>s.
     tryP (onLocal (git_VerifyConnectivity (x_OS X) (r_Git r) (rs_Refs s))) (\<lambda>v. case v of
       Inr _ \<Rightarrow> bindP (onLocal (writeCursor X r ls s)) (\<lambda>_. returnP report)
     | Inl _ \<Rightarrow> fetchIncrement X r ls s cursor report))"

definition fetchState ::
  "'g lib \<Rightarrow> 's Repository \<Rightarrow> RemoteState \<Rightarrow> string list \<Rightarrow> ('s \<times> 'g, FetchReport) prog"
where
  "fetchState X r s requested =
     bindP (onLocal (git_RequireVersion (x_OS X) (r_Git r) 2 38)) (\<lambda>_.
     bindP (onLocal (Resolve X (r_Git r) (h_RepositoryID (rs_Head s)))) (\<lambda>ls.
     bindP (onLocal (State_Lock X ls)) (\<lambda>_.
     finallyP
       (tryP (onLocal (ReadCursor X ls)) (\<lambda>cursor.
        (let report = \<lparr>fr_Warnings = divergent_warning s cursor, fr_InstalledKeeps = []\<rparr> in
         if cursor_current s cursor then
           bindP (onLocal (git_ExistingObjects (x_OS X) (r_Git r) requested)) (\<lambda>existing.
             if set requested \<subseteq> set existing then
               (if cu_LastHeadETag (projr cursor) \<noteq> rs_ETag s \<or>
                   cu_LastPublicationID (projr cursor) \<noteq> h_PublicationID (rs_Head s)
                then bindP (onLocal (writeCursor X r ls s)) (\<lambda>_. returnP report)
                else returnP report)
             else fetchRest X r ls s cursor report)
         else fetchRest X r ls s cursor report)))
       (onLocal (Lock_Close X ls)))))"

definition Fetch ::
  "'g lib \<Rightarrow> 's Repository \<Rightarrow> Advertisement option \<Rightarrow> string list \<Rightarrow> ('s \<times> 'g, FetchReport) prog"
where
  "Fetch X r advertised requested = (case advertised of
      None \<Rightarrow> failP (Errorf ''fetch requires an advertisement'' [])
    | Some ad \<Rightarrow>
       (case ad_state ad of
          None \<Rightarrow> failP (Errorf ''fetch requires an advertisement'' [])
        | Some s \<Rightarrow> fetchState X r s requested))"

text \<open>
  \<^verbatim>\<open>validateBootstrap\<close>: a fetch of a prospective state into an empty bare repository.
\<close>

definition scratch_repository :: "'s Repository \<Rightarrow> string \<Rightarrow> 's Repository" where
  "scratch_repository r tmp =
     \<lparr>r_Store = r_Store r, r_Git = tmp, r_Version = r_Version r,
      r_StoragePolicy = \<lparr>sp_ServerSideEncryption = [], sp_KMSKeyID = None, sp_BucketKeyEnabled = None\<rparr>,
      r_DownloadChunkSize = r_DownloadChunkSize r, r_DownloadConcurrency = r_DownloadConcurrency r,
      r_CacheID = [], r_CompactionFanout = 0, r_CompactAfterTransactions = 0,
      r_CompactAfterBytes = 0\<rparr>"

definition validateBootstrap ::
  "'g lib \<Rightarrow> 's Repository \<Rightarrow> Head \<Rightarrow> Transaction list \<Rightarrow> refs \<Rightarrow> ('s \<times> 'g, unit) prog"
where
  "validateBootstrap X r h txs refs =
     bindP (onLocal (os_MkdirTemp (x_OS X) [] ''git3-bootstrap-check-'')) (\<lambda>tmp.
     finallyP
       (bindP (onLocal (git_InitBare (x_OS X) (h_ObjectFormat h) tmp)) (\<lambda>_.
        bindP (fetchState X (scratch_repository r tmp)
                 \<lparr>rs_Head = h, rs_ETag = [], rs_Refs = refs, rs_Transactions = txs,
                  rs_Cached = False, rs_logResolved = False, rs_logEnvelopes = [],
                  rs_logPages = []\<rparr> (ref_values refs)) (\<lambda>_.
        returnP ())))
       (onLocal (os_RemoveAll (x_OS X) tmp)))"

section \<open>Fetching leaves the remote alone\<close>

context object_store
begin

lemma copyRange_view:
  assumes "r_Store r = S" "copyRange r key a b tot w = (x, w')"
  shows "view (fst w') = view (fst w)"
proof -
  obtain y s1 where op: "st_OpenRange S key a b (fst w) = (y, s1)"
    by (cases "st_OpenRange S key a b (fst w)")
  with assms have "fst w' = s1"
    by (auto simp: copyRange_def onStore_def Let_def
        split: prod.splits sum.splits option.splits if_splits)
  with range_view [OF op] show ?thesis by simp
qed

lemma copyRanges_view:
  assumes "r_Store r = S"
  shows "copyRanges r key tot xs w = (x, w') \<Longrightarrow> view (fst w') = view (fst w)"
proof (induction xs arbitrary: w x w')
  case (Cons ab xs)
  obtain a b where ab: "ab = (a, b)" by (cases ab)
  obtain y w1 where 1: "copyRange r key a b tot w = (y, w1)"
    by (cases "copyRange r key a b tot w")
  obtain z w2 where 2: "copyRanges r key tot xs w1 = (z, w2)"
    by (cases "copyRanges r key tot xs w1")
  from Cons.prems ab 1 2 have "w' = w1 \<or> w' = w2"
    by (cases y; cases z; cases "snd y") auto
  with copyRange_view [OF assms 1] Cons.IH [OF 2] show ?case by auto
qed simp

text \<open>A step that is not a program but leaves the view alone, followed by a program that does.\<close>

lemma keeps_after:
  assumes "\<And>w x w'. f w = (x, w') \<Longrightarrow> view (fst w') = view (fst w)" "\<And>x. keeps unchanged (m x)"
  shows "keeps unchanged (\<lambda>w. case f w of (x, w') \<Rightarrow> m x w')"
  unfolding keeps_def
proof
  fix w
  obtain x w1 where f: "f w = (x, w1)" by (cases "f w")
  have "unchanged w1 (snd (m x w1))" using assms(2) unfolding keeps_def by blast
  with assms(1) [OF f] f show "unchanged w (snd (case f w of (x, w') \<Rightarrow> m x w'))"
    by (simp add: unchanged_def store_rel_def)
qed

lemma keeps_copyAll:
  assumes "r_Store r = S"
  shows "keeps unchanged (copyAll r ref)"
  unfolding copyAll_def
  by (rule keeps_after [OF copyRanges_view [OF assms]])
    (auto intro!: keeps_unchanged split: option.splits)

lemma walStream_view:
  assumes "r_Store r = S" "walStream X r d w = (x, w')"
  shows "view (fst w') = view (fst w)"
  using assms(2)
  by (auto simp: walStream_def split: prod.splits option.splits dest!: copyRanges_view [OF assms(1)])

lemmas keeps_all = keeps_unchanged keeps_finallyP [OF unchanged_po]

lemma keeps_downloadVerified: "r_Store r = S \<Longrightarrow> keeps unchanged (downloadVerified X r ref path)"
  unfolding downloadVerified_def removeOnError_def
  by (auto intro!: keeps_all keeps_copyAll split: sum.splits prod.splits)

lemma keeps_installPackPair: "r_Store r = S \<Longrightarrow> keeps unchanged (installPackPair X r ls p pp ip)"
  unfolding installPackPair_def Let_def
  by (auto intro!: keeps_all keeps_downloadVerified split: sum.splits)

lemma keeps_installPairs: "r_Store r = S \<Longrightarrow> keeps unchanged (installPairs X r ls ps)"
  by (induction ps) (auto intro!: keeps_all keeps_installPackPair)

lemma keeps_loadPackset: "r_Store r = S \<Longrightarrow> keeps unchanged (loadPackset X r s)"
  unfolding loadPackset_def Let_def by (auto intro!: keeps_all keeps_verified)

lemma keeps_installPackset: "r_Store r = S \<Longrightarrow> keeps unchanged (installPackset X r ls s)"
  unfolding installPackset_def by (auto intro!: keeps_all keeps_loadPackset keeps_installPairs)

lemma keeps_installWAL: "r_Store r = S \<Longrightarrow> keeps unchanged (installWAL X r d)"
  unfolding installWAL_def
  by (intro keeps_all keeps_after [OF walStream_view])

lemma installWALs_view:
  assumes "r_Store r = S"
  shows "installWALs X r ds ks w = (x, w') \<Longrightarrow> view (fst w') = view (fst w)"
proof (induction ds arbitrary: ks w x w')
  case (Cons d ds)
  obtain y w1 where 1: "installWAL X r d w = (y, w1)" by (cases "installWAL X r d w")
  have "view (fst w1) = view (fst w)"
    using keepsD [OF keeps_installWAL [OF assms] 1] by (rule unchangedD)
  with Cons 1 show ?case by (cases y) fastforce+
qed simp

lemma keeps_fetchBootstrap:
  assumes "r_Store r = S"
  shows "keeps unchanged (fetchBootstrap X r ls s rep)"
  unfolding fetchBootstrap_def
  by (intro keeps_all keeps_installPackset [OF assms] keeps_after [OF installWALs_view [OF assms]])
    (auto intro!: keeps_all split: option.splits)

lemma keeps_fetchIncrement:
  assumes "r_Store r = S"
  shows "keeps unchanged (fetchIncrement X r ls s c rep)"
  unfolding fetchIncrement_def Let_def
  using keeps_fetchBootstrap [OF assms]
  by (auto intro!: keeps_after [OF installWALs_view [OF assms]] keeps_all
      split: option.splits sum.splits)

lemma keeps_fetchRest: "r_Store r = S \<Longrightarrow> keeps unchanged (fetchRest X r ls s c rep)"
  unfolding fetchRest_def
  by (auto intro!: keeps_all keeps_ReadUnconditional keeps_fetchIncrement split: sum.splits)

lemma keeps_fetchState: "r_Store r = S \<Longrightarrow> keeps unchanged (fetchState X r s req)"
  unfolding fetchState_def Let_def
  by (auto intro!: keeps_all keeps_fetchRest)

lemma keeps_Fetch: "r_Store r = S \<Longrightarrow> keeps unchanged (Fetch X r ad req)"
  unfolding Fetch_def by (auto intro!: keeps_unchanged keeps_fetchState split: option.splits)

lemma keeps_validateBootstrap: "r_Store r = S \<Longrightarrow> keeps unchanged (validateBootstrap X r h txs refs)"
  unfolding validateBootstrap_def
  by (auto intro!: keeps_all keeps_fetchState simp: scratch_repository_def)

end

section \<open>Downloads in ranges\<close>

lemma spans_step:
  assumes "a < sz" "chunk > 0"
  obtains b where "a \<le> b" "b < sz" "b - a < chunk"
    "spans chunk sz a = (a, b) # spans chunk sz (b + 1)"
proof
  let ?b = "if a + chunk - 1 \<ge> sz then sz - 1 else a + chunk - 1"
  show "a \<le> ?b" "?b < sz" "?b - a < chunk" using assms by auto
  show "spans chunk sz a = (a, ?b) # spans chunk sz (?b + 1)"
    by (subst spans.simps) (simp only: assms if_True conj_absorb simp_thms Let_def)
qed

lemma spans_induct [consumes 1, case_names stop step]:
  assumes "chunk > 0"
    and "\<And>a. \<not> a < sz \<Longrightarrow> P a []"
    and "\<And>a b xs. a \<le> b \<Longrightarrow> b < sz \<Longrightarrow> b - a < chunk \<Longrightarrow> P (b + 1) xs \<Longrightarrow> P a ((a, b) # xs)"
  shows "P a (spans chunk sz a)"
proof (induction "nat (sz - a)" arbitrary: a rule: less_induct)
  case less
  show ?case
  proof (cases "a < sz")
    case True
    then obtain b where b: "a \<le> b" "b < sz" "b - a < chunk"
      "spans chunk sz a = (a, b) # spans chunk sz (b + 1)"
      using assms(1) by (rule spans_step)
    then have "P (b + 1) (spans chunk sz (b + 1))" by (intro less) auto
    with b assms(3) show ?thesis by simp
  next
    case False
    with assms(2) show ?thesis by (simp add: spans.simps [of chunk sz a])
  qed
qed

lemma upto_join: "a \<le> b + 1 \<Longrightarrow> b \<le> c \<Longrightarrow> [a..b] @ [b + 1..c] = [a..c]"
proof (cases "a \<le> b")
  case True
  moreover assume "b \<le> c"
  ultimately show ?thesis using upto_split1 [of a b c] upto_rec1 [of b c] upto_rec2 [of a b] by simp
next
  case False
  moreover assume "a \<le> b + 1"
  ultimately have "a = b + 1" by simp
  then show ?thesis by simp
qed

lemma spans_cover:
  assumes "chunk > 0"
  shows "concat (map (\<lambda>(x, y). [x..y]) (spans chunk sz a)) = [a..sz - 1]"
  by (rule spans_induct [of chunk sz "\<lambda>a xs. concat (map (\<lambda>(x, y). [x..y]) xs) = [a..sz - 1]"])
    (simp_all add: assms upto_join)

lemma spans_bounds:
  assumes "chunk > 0"
  shows "\<forall>(x, y) \<in> set (spans chunk sz a). a \<le> x \<and> x \<le> y \<and> y < sz \<and> y - x < chunk"
  by (rule spans_induct [of chunk sz
        "\<lambda>a xs. \<forall>(x, y) \<in> set xs. a \<le> x \<and> x \<le> y \<and> y < sz \<and> y - x < chunk"])
    (use assms in fastforce)+

lemma copyRange_Memory:
  assumes "r_Store r = MemoryStore H" "fmlookup (m_objects m) key = Some e"
    and "0 \<le> a" "a \<le> b" "b < int (length (me_body e))"
  shows "copyRange r key a b (of_nat (length (me_body e))) (m, g) =
    ((take (nat (b - a + 1)) (drop (nat a) (me_body e)), None), (logRequest (''RANGE '' @ key) m, g))"
proof -
  have "nat (b + 1) - nat a = nat (b - a + 1)" using assms(3,4) by linarith
  moreover have "length (take (nat (b - a + 1)) (drop (nat a) (me_body e))) = nat (b - a + 1)"
    using assms(3-5) by simp
  ultimately show ?thesis
    using assms
    by (simp add: copyRange_def onStore_def MemoryStore_def Memory_OpenRange_def Let_def
        copyLimited_def failIf_def)
qed

lemma copyRanges_Memory:
  fixes m :: Memory
  assumes "r_Store r = MemoryStore H" "chunk > 0" "0 \<le> a" "fmlookup (m_objects m) key = Some e"
  shows "\<exists>m'. m_objects m' = m_objects m \<and>
    copyRanges r key (of_nat (length (me_body e))) (spans chunk (int (length (me_body e))) a) (m, g) =
      ((drop (nat a) (me_body e), None), (m', g))"
proof -
  let ?P = "\<lambda>a xs. 0 \<le> a \<longrightarrow> (\<forall>m :: Memory. fmlookup (m_objects m) key = Some e \<longrightarrow>
      (\<exists>m'. m_objects m' = m_objects m \<and>
        copyRanges r key (of_nat (length (me_body e))) xs (m, g) =
          ((drop (nat a) (me_body e), None), (m', g))))"
  have "?P a (spans chunk (int (length (me_body e))) a)"
  proof (rule spans_induct [of chunk _ ?P])
    show "chunk > 0" by (fact assms(2))
  next
    fix a assume "\<not> a < int (length (me_body e))"
    then show "?P a []" by auto
  next
    fix a b xs
    assume b: "a \<le> b" "b < int (length (me_body e))" "b - a < chunk" and IH: "?P (b + 1) xs"
    show "?P a ((a, b) # xs)"
    proof (intro impI allI)
      fix m :: Memory
      assume a: "0 \<le> a" and e: "fmlookup (m_objects m) key = Some e"
      let ?m1 = "logRequest (''RANGE '' @ key) m"
      from IH a b e obtain m' where m': "m_objects m' = m_objects m"
        "copyRanges r key (of_nat (length (me_body e))) xs (?m1, g) =
           ((drop (nat (b + 1)) (me_body e), None), (m', g))"
        by (auto dest!: spec [of _ ?m1])
      have "nat (b + 1) = nat a + nat (b - a + 1)" using a b by linarith
      then have "take (nat (b - a + 1)) (drop (nat a) (me_body e)) @ drop (nat (b + 1)) (me_body e)
          = drop (nat a) (me_body e)"
        by (metis append_take_drop_id drop_drop add.commute)
      with m' copyRange_Memory [OF assms(1) e a b(1,2), where g = g]
      show "\<exists>m'. m_objects m' = m_objects m \<and>
        copyRanges r key (of_nat (length (me_body e))) ((a, b) # xs) (m, g) =
          ((drop (nat a) (me_body e), None), (m', g))" by auto
    qed
  qed
  with assms(3,4) show ?thesis by blast
qed

section \<open>Properties\<close>

text \<open>
  A download in ranges reads the whole object: with any chunk size, the ranges that
  \<^verbatim>\<open>downloadVerified\<close> requests from the in-memory store yield exactly the stored body.
\<close>

theorem ranged_download_exact:
  assumes "r_Store r = MemoryStore H" and "fmlookup (m_objects m) (or_Key ref) = Some e"
    and "uint (or_Size ref) = int (length (me_body e))"
  shows "\<exists>m'. copyAll r ref (m, g) = (Inr (me_body e), (m', g)) \<and> m_objects m' = m_objects m"
proof -
  have "chunkOf r > 0" by (simp add: chunkOf_def)
  moreover have "or_Size ref = of_nat (length (me_body e))"
    using assms(3) by (metis of_int_of_nat_eq word_of_int_uint)
  ultimately show ?thesis
    using copyRanges_Memory [OF assms(1) _ _ assms(2), of "chunkOf r" 0 g] assms(3)
    by (auto simp: copyAll_def)
qed

definition sample_memory :: Memory where
  "sample_memory =
     \<lparr>m_objects = fmap_of_list [(''k'', \<lparr>me_body = ''0123456789'', me_etag = ''t'', me_modified = 0\<rparr>)],
      m_Requests = [], m_now = 0\<rparr>"

definition sample_download_repo :: "Memory Repository" where
  "sample_download_repo =
     \<lparr>r_Store = MemoryStore id, r_Git = [], r_Version = [],
      r_StoragePolicy = \<lparr>sp_ServerSideEncryption = [], sp_KMSKeyID = None, sp_BucketKeyEnabled = None\<rparr>,
      r_DownloadChunkSize = 4, r_DownloadConcurrency = 1, r_CacheID = [], r_CompactionFanout = 0,
      r_CompactAfterTransactions = 0, r_CompactAfterBytes = 0\<rparr>"

theorem ranged_download_exact_witness:
  "\<exists>m'. copyAll sample_download_repo \<lparr>or_Key = ''k'', or_Size = 10, or_SHA256 = []\<rparr> (sample_memory, ()) =
     (Inr ''0123456789'', (m', ())) \<and> m_objects m' = m_objects sample_memory"
  using ranged_download_exact [of sample_download_repo id sample_memory
      "\<lparr>or_Key = ''k'', or_Size = 10, or_SHA256 = []\<rparr>"
      "\<lparr>me_body = ''0123456789'', me_etag = ''t'', me_modified = 0\<rparr>" "()"]
  by (simp add: sample_download_repo_def sample_memory_def)

end
