(* ===== verification/Git3_Push.thy ===== *)
theory Git3_Push
  imports Git3_Fetch
begin

text \<open>
  Pushing (\<^verbatim>\<open>src/internal/engine/engine.go\<close>, \<^verbatim>\<open>Push\<close> and what it calls): the classification
  of ref updates, the write-ahead pack and its trailer, the transaction document, the log tail
  and its pages, the initial push, and the conditional publication.

  The results that \<^verbatim>\<open>Push\<close> returns together with an error are dropped, as its callers do.
  Progress events are not modelled.
\<close>

section \<open>Commands\<close>

record PushCommand =
  pc_Source :: string
  pc_Dst :: string
  pc_NewOID :: "string option"
  pc_Force :: bool

record PushResult =
  pres_Dst :: string
  pres_OK :: bool
  pres_Reason :: string

record PushOptions =
  pop_Atomic :: bool
  pop_DryRun :: bool

fun resolvePushCommands ::
  "'g lib \<Rightarrow> 's Repository \<Rightarrow> PushCommand list \<Rightarrow> ('s \<times> 'g, PushCommand list) prog"
where
  "resolvePushCommands X r [] = returnP []"
| "resolvePushCommands X r (c # cs) =
     bindP (if pc_Source c = [] \<or> pc_NewOID c \<noteq> None then returnP c
            else tryP (onLocal (git_Resolve (x_OS X) (r_Git r) (pc_Source c))) (\<lambda>o1.
              returnP (c\<lparr>pc_NewOID := Some (case o1 of Inl _ \<Rightarrow> pc_Source c | Inr oid \<Rightarrow> oid)\<rparr>)))
       (\<lambda>c'. bindP (resolvePushCommands X r cs) (\<lambda>cs'. returnP (c' # cs')))"

text \<open>The results as they are left and the verdict.\<close>

definition rejectAtomicBatch :: "PushResult list \<Rightarrow> bool \<Rightarrow> PushResult list \<times> bool" where
  "rejectAtomicBatch results atomic =
     (if \<not> atomic then (results, False)
      else if list_all pres_OK results then (results, False)
      else (map (\<lambda>x. x\<lparr>pres_OK := False,
               pres_Reason := (if pres_Reason x = [] then ''atomic push rejected''
                               else pres_Reason x)\<rparr>) results, True))"

definition policyEqual :: "StoragePolicy \<Rightarrow> StoragePolicy \<Rightarrow> bool" where
  "policyEqual a b =
     (if sp_ServerSideEncryption a \<noteq> sp_ServerSideEncryption b then False
      else if \<not> same (sp_KMSKeyID a) (sp_KMSKeyID b) then False
      else (sp_BucketKeyEnabled a = None \<and> sp_BucketKeyEnabled b = None) \<or>
           (sp_BucketKeyEnabled a \<noteq> None \<and> sp_BucketKeyEnabled b \<noteq> None \<and>
            the (sp_BucketKeyEnabled a) = the (sp_BucketKeyEnabled b)))"

definition ensureWritePolicy :: "'s Repository \<Rightarrow> RemoteState \<Rightarrow> goerr option" where
  "ensureWritePolicy r s =
     failIf (sp_ServerSideEncryption (r_StoragePolicy r) \<noteq> [] \<and>
             \<not> policyEqual (r_StoragePolicy r) (h_StoragePolicy (rs_Head s)))
       (Errorf ''local encryption settings conflict with repository storage policy'' [])"

definition ValidateWritePolicy :: "'g lib \<Rightarrow> 's Repository \<Rightarrow> ('s \<times> 'g, unit) prog" where
  "ValidateWritePolicy X r = tryP (Read X r) (\<lambda>s. case s of
      Inl e \<Rightarrow> if errors_Is e ErrNotFound then returnP () else failP e
    | Inr st \<Rightarrow> checkP (ensureWritePolicy r st) (returnP ()))"

text \<open>
  The body of the loop of \<^verbatim>\<open>validatePush\<close>: the update a command asks for, if any, and its
  result.
\<close>

definition okResult :: "PushCommand \<Rightarrow> PushResult" where
  "okResult c = \<lparr>pres_Dst = pc_Dst c, pres_OK = True, pres_Reason = []\<rparr>"

definition failResult :: "PushCommand \<Rightarrow> string \<Rightarrow> PushResult" where
  "failResult c x = \<lparr>pres_Dst = pc_Dst c, pres_OK = False, pres_Reason = x\<rparr>"

definition validateCommand ::
  "'g lib \<Rightarrow> 's Repository \<Rightarrow> RemoteState \<Rightarrow> string list \<Rightarrow> string list \<Rightarrow> PushCommand \<Rightarrow>
     ('s \<times> 'g, Update option \<times> PushResult) prog"
where
  "validateCommand X r s existing seen c =
     (if pc_Dst c \<in> set seen then returnP (None, failResult c ''duplicate destination'')
      else tryP (onLocal (git_CheckRef (x_OS X) (r_Git r) (pc_Dst c))) (\<lambda>ck.
        if ck \<noteq> Inr () \<or> pc_Dst c = ''HEAD''
        then returnP (None, failResult c ''invalid destination ref'')
        else (case (pc_NewOID c, fmlookup (rs_Refs s) (pc_Dst c)) of
            (None, None) \<Rightarrow> returnP (None, okResult c)
          | (None, Some old) \<Rightarrow>
              returnP (Some \<lparr>up_Ref = pc_Dst c, up_Old = Some old, up_New = None,
                up_Kind = ''delete''\<rparr>, okResult c)
          | (Some oid, oldv) \<Rightarrow>
             (if \<not> ValidOID oid (h_ObjectFormat (rs_Head s)) \<or> oid \<notin> set existing
              then returnP (None, failResult c ''source object missing or wrong format'')
              else (case oldv of
                  None \<Rightarrow>
                    returnP (Some \<lparr>up_Ref = pc_Dst c, up_Old = None, up_New = Some oid,
                      up_Kind = ''create''\<rparr>, okResult c)
                | Some old \<Rightarrow>
                   (if old = oid then returnP (None, okResult c)
                    else bindP (if HasPrefix (pc_Dst c) ''refs/heads/''
                           then onLocal (git_IsAncestor (x_OS X) (r_Git r) old oid)
                           else returnP False) (\<lambda>ancestor.
                      if ancestor \<or> pc_Force c then
                        returnP (Some \<lparr>up_Ref = pc_Dst c, up_Old = Some old, up_New = Some oid,
                          up_Kind = (if ancestor then ''fast-forward'' else ''force'')\<rparr>, okResult c)
                      else returnP
                        (None, failResult c ''non-fast-forward update requires force'')))))))) "

fun validateCommands ::
  "'g lib \<Rightarrow> 's Repository \<Rightarrow> RemoteState \<Rightarrow> string list \<Rightarrow> string list \<Rightarrow> PushCommand list \<Rightarrow>
     ('s \<times> 'g, Update list \<times> PushResult list) prog"
where
  "validateCommands X r s existing seen [] = returnP ([], [])"
| "validateCommands X r s existing seen (c # cs) =
     bindP (validateCommand X r s existing seen c) (\<lambda>(u, res).
     bindP (validateCommands X r s existing (pc_Dst c # seen) cs) (\<lambda>(us, ress).
     returnP (case_option [] (\<lambda>x. [x]) u @ us, res # ress)))"

definition validatePush ::
  "'g lib \<Rightarrow> 's Repository \<Rightarrow> RemoteState \<Rightarrow> PushCommand list \<Rightarrow>
     ('s \<times> 'g, Update list \<times> PushResult list) prog"
where
  "validatePush X r s cmds =
     (let oids = filter (\<lambda>oid. ValidOID oid (h_ObjectFormat (rs_Head s)))
                   (concat (map (\<lambda>c. case_option [] (\<lambda>x. [x]) (pc_NewOID c)) cmds)) in
      bindP (onLocal (git_ExistingObjects (x_OS X) (r_Git r) oids)) (\<lambda>existing.
      bindP (validateCommands X r s existing [] cmds) (\<lambda>(us, res).
      returnP (sort_key up_Ref us, res))))"

section \<open>The pack trailer\<close>

record trailerWriter =
  tw_h :: bytes
  tw_n :: nat
  tw_tail :: bytes
  tw_want :: nat

definition newTrailer :: "nat \<Rightarrow> trailerWriter" where
  "newTrailer want = \<lparr>tw_h = [], tw_n = 0, tw_tail = [], tw_want = want\<rparr>"

text \<open>\<^verbatim>\<open>Write\<close>; the hash it forwards to accepts every byte, so \<^verbatim>\<open>written\<close> is all of \<open>p\<close>.\<close>

definition trailerWrite :: "trailerWriter \<Rightarrow> bytes \<Rightarrow> trailerWriter" where
  "trailerWrite t p =
     (let t' = t\<lparr>tw_h := tw_h t @ p, tw_n := tw_n t + length p\<rparr> in
      if length p \<ge> tw_want t then t'\<lparr>tw_tail := drop (length p - tw_want t) p\<rparr>
      else (let overflow = length (tw_tail t) + length p - tw_want t in
        t'\<lparr>tw_tail := drop overflow (tw_tail t) @ p\<rparr>))"

section \<open>Transactions\<close>

definition walKey :: "string \<Rightarrow> string" where
  "walKey txid = ''.git/git3/wal/'' @ txid @ ''.pack''"

text \<open>
  The reader that \<^verbatim>\<open>Put\<close> consumes is a tee into the trailer writer, here as one chunk;
  \<open>trailer_chunks\<close> below shows that the chunking does not matter.
\<close>

definition uploadPack ::
  "'g lib \<Rightarrow> 's Repository \<Rightarrow> RemoteState \<Rightarrow> Transaction \<Rightarrow> ProcessReader \<Rightarrow>
     ('s \<times> 'g, Transaction) prog"
where
  "uploadPack X r s tx pr =
     (let want = (if tx_ObjectFormat tx = ''sha256'' then 32 else 20);
          key = walKey (tx_TransactionID tx);
          tw = trailerWrite (newTrailer want) (fst (pr_Reader pr)) in
      bindP (onStore (st_Put (r_Store r) key (pr_Reader pr) (-1) (put_absent []))) (\<lambda>_.
      checkP (pr_Wait pr)
      (checkP (failIf (length (tw_tail tw) \<noteq> want) (Errorf ''short pack'' []))
      (returnP (tx\<lparr>tx_ObjectData :=
         Some \<lparr>od_Object = \<lparr>or_Key = key, or_Size = of_nat (tw_n tw),
                            or_SHA256 = digest X (tw_h tw)\<rparr>,
               od_GitPackChecksum = EncodeToString (tw_tail tw), od_Thin = True,
               od_BaseGeneration = h_LogicalGeneration (rs_Head s),
               od_BaseTransactionID = h_TransactionID (rs_Head s)\<rparr>\<rparr>)))))"

definition makeTransaction ::
  "'g lib \<Rightarrow> 's Repository \<Rightarrow> RemoteState \<Rightarrow> Update list \<Rightarrow> ('s \<times> 'g, Transaction) prog"
where
  "makeTransaction X r s updates =
     (let h = rs_Head s in
      bindP (NewString X) (\<lambda>txid.
      bindP (onLocal (total (x_Now X))) (\<lambda>now.
      (let tx = \<lparr>tx_FormatVersion = 1, tx_RepositoryID = h_RepositoryID h,
                 tx_ObjectFormat = h_ObjectFormat h, tx_Generation = h_LogicalGeneration h + 1,
                 tx_TransactionID = txid, tx_ParentGeneration = h_LogicalGeneration h,
                 tx_ParentTransactionID = h_TransactionID h, tx_CreatedAt = FormatTime now,
                 tx_WriterVersion = r_Version r, tx_Updates = updates, tx_ObjectData = None\<rparr>;
           pos = map (the \<circ> up_New) (filter (\<lambda>u. up_New u \<noteq> None) updates);
           remoteOIDs = ref_values (rs_Refs s) in
       if pos = [] then returnP tx
       else
         bindP (onLocal (git_ExistingObjects (x_OS X) (r_Git r) remoteOIDs)) (\<lambda>existing.
         bindP (onLocal (git_PackObjects (x_OS X) (r_Git r) pos
                  (filter (\<lambda>oid. oid \<in> set existing) remoteOIDs) True))
           (uploadPack X r s tx))))))"

definition transactionKey :: "Transaction \<Rightarrow> string" where
  "transactionKey tx =
     ''.git/git3/transactions/'' @ pad 20 (unat (tx_Generation tx)) @ ''-'' @ tx_TransactionID tx @ ''.json''"

definition storeTransaction ::
  "'g lib \<Rightarrow> 's Repository \<Rightarrow> Transaction \<Rightarrow> ('s \<times> 'g, Envelope) prog"
where
  "storeTransaction X r tx =
     bindP (liftP (Marshal (x_json X) (x_Transaction X) tx)) (\<lambda>b.
     bindP (immutable X r (transactionKey tx) b) (\<lambda>ref.
     returnP \<lparr>env_Descriptor = ref, env_Transaction = tx\<rparr>))"

definition pageKey :: "string \<Rightarrow> string" where
  "pageKey i = ''.git/git3/log-pages/'' @ i @ ''.json''"

definition sealedPage :: "Head \<Rightarrow> string \<Rightarrow> Envelope list \<Rightarrow> LogPage" where
  "sealedPage h i proposed =
     \<lparr>lp_FormatVersion = 1, lp_RepositoryID = h_RepositoryID h, lp_PageID = i,
      lp_Previous = log_TipPage (h_Log h),
      lp_BaseGeneration = tx_ParentGeneration (env_Transaction (hd proposed)),
      lp_BaseTransactionID = tx_ParentTransactionID (env_Transaction (hd proposed)),
      lp_FirstGeneration = tx_Generation (env_Transaction (hd proposed)),
      lp_LastGeneration = tx_Generation (env_Transaction (last proposed)),
      lp_Transactions = proposed\<rparr>"

definition appendEnvelope ::
  "'g lib \<Rightarrow> 's Repository \<Rightarrow> Head \<Rightarrow> Envelope \<Rightarrow> ('s \<times> 'g, Head) prog"
where
  "appendEnvelope X r h e =
     (let proposed = case_option [] id (log_Tail (h_Log h)) @ [e] in
      bindP (liftP (Marshal (x_json X) (x_Envelopes X) proposed)) (\<lambda>b.
      if length proposed \<le> 32 \<and> length b \<le> 2 ^ 20
      then returnP (h\<lparr>h_Log := (h_Log h)\<lparr>log_Tail := Some proposed\<rparr>\<rparr>)
      else
        bindP (NewString X) (\<lambda>i.
        (let page = sealedPage h i proposed in
         bindP (liftP (Marshal (x_json X) (x_LogPage X) page)) (\<lambda>pb.
         bindP (immutable X r (pageKey i) pb) (\<lambda>ref.
         returnP (h\<lparr>h_Log := (h_Log h)\<lparr>
           log_TipPage := Some \<lparr>pp_PageID = i, pp_FirstGeneration = lp_FirstGeneration page,
             pp_LastGeneration = lp_LastGeneration page, pp_Object = ref\<rparr>,
           log_Tail := Some []\<rparr>\<rparr>)))))))"

section \<open>The initial push\<close>

definition no_policy :: StoragePolicy where
  "no_policy = \<lparr>sp_ServerSideEncryption = [], sp_KMSKeyID = None, sp_BucketKeyEnabled = None\<rparr>"

definition zero_ref :: ObjectRef where
  "zero_ref = \<lparr>or_Key = [], or_Size = 0, or_SHA256 = []\<rparr>"

text \<open>A Go \<^verbatim>\<open>model.Head\<close> with only these fields set.\<close>

definition zero_head :: "string \<Rightarrow> string \<Rightarrow> Head" where
  "zero_head repoID format =
     \<lparr>h_FormatVersion = 0, h_RequiredFeatures = None, h_RepositoryID = repoID,
      h_ObjectFormat = format, h_LogicalGeneration = 0, h_TransactionID = None,
      h_ManifestRevision = 0, h_PublicationID = [], h_HeadSymref = None,
      h_StoragePolicy = no_policy,
      h_RefSnapshot = \<lparr>snp_SnapshotID = [], snp_Generation = 0, snp_TransactionID = None,
        snp_Object = zero_ref\<rparr>,
      h_Packset = \<lparr>psp_PacksetID = [], psp_Generation = 0, psp_TransactionID = None,
        psp_Object = zero_ref\<rparr>,
      h_Log = \<lparr>log_FloorGeneration = 0, log_FloorTransactionID = None, log_TipPage = None,
        log_Tail = None\<rparr>,
      h_GCBarrier = None, h_Extra = fmempty\<rparr>"

definition local_state :: "Head \<Rightarrow> refs \<Rightarrow> RemoteState" where
  "local_state h refs =
     \<lparr>rs_Head = h, rs_ETag = [], rs_Refs = refs, rs_Transactions = [], rs_Cached = False,
      rs_logResolved = False, rs_logEnvelopes = [], rs_logPages = []\<rparr>"

text \<open>The choice of the default branch.\<close>

definition initialBranch ::
  "'g lib \<Rightarrow> 's Repository \<Rightarrow> Update list \<Rightarrow> PushCommand list \<Rightarrow> ('s \<times> 'g, string) prog"
where
  "initialBranch X r updates cmds =
     (let branches = map up_Ref (filter (\<lambda>u. up_New u \<noteq> None \<and> HasPrefix (up_Ref u) ''refs/heads/'')
                       updates) in
      if branches = [] then failP (Errorf ''initial push must create a branch'' [])
      else if length branches = 1 then returnP (hd branches)
      else
        bindP (mapErr (\<lambda>_. Errorf ''ambiguous initial default branch'' [])
                 (onLocal (git_SymbolicHEAD (x_OS X) (r_Git r)))) (\<lambda>localHead.
        (let hits = map pc_Dst (filter (\<lambda>c. pc_NewOID c \<noteq> None \<and>
                      (pc_Source c = localHead \<or> pc_Source c = ''HEAD'')) cmds) in
         if length hits \<noteq> 1 \<or> hits = [[]]
         then failP (Errorf ''ambiguous initial default branch'' [])
         else returnP (hd hits))))"

definition initialSnapshot :: "string \<Rightarrow> string \<Rightarrow> Snapshot" where
  "initialSnapshot repoID format =
     \<lparr>sn_RepositoryID = repoID, sn_ObjectFormat = format, sn_Generation = 0,
      sn_TransactionID = None, sn_Refs = fmempty\<rparr>"

definition initialPackset :: "string \<Rightarrow> string \<Rightarrow> string \<Rightarrow> Packset" where
  "initialPackset repoID format packID =
     \<lparr>ps_FormatVersion = 1, ps_RepositoryID = repoID, ps_ObjectFormat = format,
      ps_PacksetID = packID, ps_Generation = 0, ps_TransactionID = None, ps_Levels = Some []\<rparr>"

definition initialHead ::
  "'s Repository \<Rightarrow> string \<Rightarrow> string \<Rightarrow> string \<Rightarrow> string \<Rightarrow> string \<Rightarrow> ObjectRef \<Rightarrow> string \<Rightarrow> ObjectRef \<Rightarrow> Head"
where
  "initialHead r repoID format pubID headRef snapID sref packID pkref =
     (zero_head repoID format)\<lparr>h_FormatVersion := 1, h_RequiredFeatures := Some [],
        h_ManifestRevision := 1, h_PublicationID := pubID, h_HeadSymref := Some headRef,
        h_StoragePolicy :=
          (if sp_ServerSideEncryption (r_StoragePolicy r) = []
           then no_policy\<lparr>sp_ServerSideEncryption := ''inherit''\<rparr> else r_StoragePolicy r),
        h_RefSnapshot := \<lparr>snp_SnapshotID = snapID, snp_Generation = 0, snp_TransactionID = None,
          snp_Object = sref\<rparr>,
        h_Packset := \<lparr>psp_PacksetID = packID, psp_Generation = 0, psp_TransactionID = None,
          psp_Object = pkref\<rparr>,
        h_Log := \<lparr>log_FloorGeneration = 0, log_FloorTransactionID = None, log_TipPage = None,
          log_Tail = Some []\<rparr>\<rparr>"

text \<open>The publication of the initial push and what its \<^verbatim>\<open>confirm\<close> accepts.\<close>

definition initPublication :: "Transaction \<Rightarrow> headPublication" where
  "initPublication tx =
     \<lparr>hp_operation = ''initialize'', hp_expectedETag = [], hp_ifAbsent = True,
      hp_conflict = ''repository was initialized concurrently'',
      hp_confirm = Some (\<lambda>observed e.
        if \<exists>x \<in> set (rs_Transactions observed). tx_Generation x = 1 \<and>
             tx_TransactionID x = tx_TransactionID tx then (True, None)
        else (False, Some (E CASConflict ''initialize''
               (Errorf ''another initialization was published'' []))))\<rparr>"

definition snapshotKey :: "string \<Rightarrow> string" where
  "snapshotKey i = ''.git/git3/refs/'' @ i @ ''.refs''"

definition packsetKey :: "string \<Rightarrow> string" where
  "packsetKey i = ''.git/git3/packsets/'' @ i @ ''.json''"

definition initialize ::
  "'g lib \<Rightarrow> 's Repository \<Rightarrow> PushCommand list \<Rightarrow> PushOptions \<Rightarrow> ('s \<times> 'g, PushResult list) prog"
where
  "initialize X r cmds options =
     bindP (onLocal (git_ObjectFormat (x_OS X) (r_Git r))) (\<lambda>format.
     bindP (NewString X) (\<lambda>repoID.
     bindP (validatePush X r (local_state (zero_head repoID format) fmempty) cmds) (\<lambda>(updates, res0).
     (case rejectAtomicBatch res0 (pop_Atomic options) of (res, rejected) \<Rightarrow>
      if rejected then returnP res
      else
        bindP (initialBranch X r updates cmds) (\<lambda>headRef.
        if pop_DryRun options then returnP res
        else
          bindP (NewString X) (\<lambda>snapID.
          bindP (NewString X) (\<lambda>packID.
          bindP (liftP (MarshalText (x_ident X) (initialSnapshot repoID format))) (\<lambda>sb.
          bindP (immutable X r (snapshotKey snapID) sb) (\<lambda>sref.
          bindP (liftP (Marshal (x_json X) (x_Packset X) (initialPackset repoID format packID))) (\<lambda>pb.
          bindP (immutable X r (packsetKey packID) pb) (\<lambda>pkref.
          bindP (NewString X) (\<lambda>pubID.
          (let head = initialHead r repoID format pubID headRef snapID sref packID pkref in
           bindP (makeTransaction X r (local_state head fmempty) updates) (\<lambda>tx.
           bindP (storeTransaction X r tx) (\<lambda>env.
           (let head' = head\<lparr>h_LogicalGeneration := 1, h_TransactionID := Some (tx_TransactionID tx),
                  h_Log := (h_Log head)\<lparr>log_Tail := Some [env]\<rparr>\<rparr> in
            case Apply fmempty [tx] of
              (_, Some e) \<Rightarrow> failP e
            | (prospectiveRefs, None) \<Rightarrow>
               bindP (validateBootstrap X r head' [tx] prospectiveRefs) (\<lambda>_.
               bindP (publishHead X r head' (initPublication tx)) (\<lambda>_.
               returnP res))))))))))))))))))"

section \<open>Push\<close>

text \<open>The candidate HEAD before its log is extended.\<close>

definition pushCandidate :: "RemoteState \<Rightarrow> Transaction \<Rightarrow> Update list \<Rightarrow> string \<Rightarrow> Head" where
  "pushCandidate s tx updates pubID =
     (let h = rs_Head s in
      h\<lparr>h_LogicalGeneration := tx_Generation tx, h_TransactionID := Some (tx_TransactionID tx),
        h_ManifestRevision := h_ManifestRevision h + 1, h_PublicationID := pubID,
        h_HeadSymref := (case h_HeadSymref h of
            None \<Rightarrow> None
          | Some x \<Rightarrow>
              if \<exists>u \<in> set updates. up_Ref u = x \<and> up_New u = None then None else Some x)\<rparr>)"

text \<open>
  The \<^verbatim>\<open>confirm\<close> closure: the first observed transaction of the same generation decides, and
  two transactions are compared by their canonical bytes.
\<close>

definition same_bytes :: "'g lib \<Rightarrow> Transaction \<Rightarrow> Transaction \<Rightarrow> bool" where
  "same_bytes X a b \<longleftrightarrow>
     (case Marshal (x_json X) (x_Transaction X) a of Inl _ \<Rightarrow> [] | Inr x \<Rightarrow> x) =
     (case Marshal (x_json X) (x_Transaction X) b of Inl _ \<Rightarrow> [] | Inr x \<Rightarrow> x)"

definition pushConfirm ::
  "'g lib \<Rightarrow> RemoteState \<Rightarrow> Transaction \<Rightarrow> RemoteState \<Rightarrow> goerr \<Rightarrow> bool \<times> goerr option"
where
  "pushConfirm X s tx observed publishErr =
     (case find (\<lambda>x. tx_Generation x = tx_Generation tx) (rs_Transactions observed) of
        Some x \<Rightarrow>
         (if same_bytes X x tx then (True, None)
          else (False, Some (E CASConflict ''publish''
                 (Errorf ''generation %d belongs to another transaction''
                    [dec (unat (tx_Generation tx))]))))
      | None \<Rightarrow>
         (if h_LogicalGeneration (rs_Head observed) \<le> h_LogicalGeneration (rs_Head s)
          then (False, Some publishErr) else (False, None)))"

definition pushPublication :: "'g lib \<Rightarrow> RemoteState \<Rightarrow> Transaction \<Rightarrow> headPublication" where
  "pushPublication X s tx =
     \<lparr>hp_operation = ''publish'', hp_expectedETag = rs_ETag s, hp_ifAbsent = False,
      hp_conflict = ''another writer replaced HEAD'', hp_confirm = Some (pushConfirm X s tx)\<rparr>"

text \<open>From the accepted updates to the publication.\<close>

definition pushUpdates ::
  "'g lib \<Rightarrow> 's Repository \<Rightarrow> RemoteState \<Rightarrow> Update list \<Rightarrow> ('s \<times> 'g, unit) prog"
where
  "pushUpdates X r s updates =
     bindP (makeTransaction X r s updates) (\<lambda>tx.
     bindP (storeTransaction X r tx) (\<lambda>env.
     bindP (NewString X) (\<lambda>pubID.
     bindP (appendEnvelope X r (pushCandidate s tx updates pubID) env) (\<lambda>candidate.
     publishHead X r candidate (pushPublication X s tx)))))"

text \<open>
  \<^verbatim>\<open>Push\<close> on a state: the tests, the classification, and the publication when something is to
  be done.
\<close>

definition pushState ::
  "'g lib \<Rightarrow> 's Repository \<Rightarrow> RemoteState \<Rightarrow> PushCommand list \<Rightarrow> PushOptions \<Rightarrow>
     ('s \<times> 'g, PushResult list) prog"
where
  "pushState X r s cmds options =
     bindP (onLocal (git_ObjectFormat (x_OS X) (r_Git r))) (\<lambda>format.
     checkP (failIf (format \<noteq> h_ObjectFormat (rs_Head s))
               (E FormatUnsupported ''push''
                 (Errorf ''object format mismatch: local %s remote %s''
                    [format, h_ObjectFormat (rs_Head s)])))
     (checkP (ensureWritePolicy r s)
     (bindP (validatePush X r s cmds) (\<lambda>(updates, res0).
      (case rejectAtomicBatch res0 (pop_Atomic options) of (res, rejected) \<Rightarrow>
       if rejected \<or> updates = [] \<or> pop_DryRun options then returnP res
       else bindP (pushUpdates X r s updates) (\<lambda>_. returnP res))))))"

text \<open>The state a push starts from; a cached one is confirmed by a full read.\<close>

definition confirmCached :: "'g lib \<Rightarrow> 's Repository \<Rightarrow> RemoteState \<Rightarrow> ('s \<times> 'g, RemoteState) prog" where
  "confirmCached X r s =
     (if rs_Cached s then
        bindP (ReadUnconditional X r) (\<lambda>v.
        checkP (failIf (rs_ETag v \<noteq> rs_ETag s)
                  (E CASConflict ''push'' (Errorf ''remote changed since ref advertisement'' [])))
        (returnP v))
      else returnP s)"

definition Push ::
  "'g lib \<Rightarrow> 's Repository \<Rightarrow> Advertisement option \<Rightarrow> PushCommand list \<Rightarrow> PushOptions \<Rightarrow>
     ('s \<times> 'g, PushResult list) prog"
where
  "Push X r advertised cmds0 options =
     bindP (onLocal (git_RequireVersion (x_OS X) (r_Git r) 2 38)) (\<lambda>_.
     bindP (resolvePushCommands X r cmds0) (\<lambda>cmds.
     (case (case advertised of None \<Rightarrow> None | Some ad \<Rightarrow> ad_state ad) of
        Some s \<Rightarrow> bindP (confirmCached X r s) (\<lambda>s'. pushState X r s' cmds options)
      | None \<Rightarrow>
          tryP (Read X r) (\<lambda>got. case got of
            Inl e \<Rightarrow> if errors_Is e ErrNotFound then initialize X r cmds options else failP e
          | Inr s \<Rightarrow> bindP (confirmCached X r s) (\<lambda>s'. pushState X r s' cmds options)))))"

section \<open>The trailer\<close>

lemma trailerWrite_tail:
  "tw_tail (trailerWrite t p) =
     (if length p \<ge> tw_want t then drop (length p - tw_want t) p
      else drop (length (tw_tail t) + length p - tw_want t) (tw_tail t) @ p)"
  "tw_h (trailerWrite t p) = tw_h t @ p" "tw_n (trailerWrite t p) = tw_n t + length p"
  "tw_want (trailerWrite t p) = tw_want t"
  by (simp_all add: trailerWrite_def Let_def)

text \<open>The writer holds the last \<open>want\<close> bytes written so far.\<close>

definition trailer_ok :: "trailerWriter \<Rightarrow> bytes \<Rightarrow> bool" where
  "trailer_ok t b \<longleftrightarrow> tw_h t = b \<and> tw_n t = length b \<and> tw_tail t = drop (length b - tw_want t) b"

lemma trailer_ok_write: "trailer_ok t b \<Longrightarrow> trailer_ok (trailerWrite t p) (b @ p)"
proof -
  assume t: "trailer_ok t b"
  let ?w = "tw_want t"
  have "tw_tail (trailerWrite t p) = drop (length (b @ p) - ?w) (b @ p)"
  proof (cases "length p \<ge> ?w")
    case True
    then show ?thesis by (simp add: trailerWrite_tail)
  next
    case False
    have "length (tw_tail t) = min ?w (length b)" using t by (simp add: trailer_ok_def)
    then have "length b - ?w + (length (tw_tail t) + length p - ?w) = length b + length p - ?w"
      using False by (simp add: min_def)
    with t False show ?thesis
      by (simp add: trailerWrite_tail trailer_ok_def add.commute [of "length b - ?w"])
  qed
  with t show ?thesis by (simp add: trailer_ok_def trailerWrite_tail)
qed

lemma trailer_ok_chunks: "trailer_ok t b \<Longrightarrow> trailer_ok (foldl trailerWrite t cs) (b @ concat cs)"
proof (induction cs arbitrary: t b)
  case (Cons c cs)
  from Cons.IH [OF trailer_ok_write [OF Cons.prems]] show ?case by simp
qed simp

lemma trailer_ok_new: "trailer_ok (newTrailer want) []"
  by (simp add: trailer_ok_def newTrailer_def)

lemma tw_want_chunks: "tw_want (foldl trailerWrite t cs) = tw_want t"
  by (induction cs arbitrary: t) (simp_all add: trailerWrite_tail)

section \<open>The updates a push publishes\<close>

text \<open>
  \<open>good_update s existing c u\<close>: the update that command \<open>c\<close> asks for on the state \<open>s\<close>.
\<close>

definition good_update :: "RemoteState \<Rightarrow> string list \<Rightarrow> PushCommand \<Rightarrow> Update \<Rightarrow> bool" where
  "good_update s existing c u \<longleftrightarrow>
     up_Ref u = pc_Dst c \<and> up_New u = pc_NewOID c \<and>
     up_Old u = fmlookup (rs_Refs s) (pc_Dst c) \<and> up_Old u \<noteq> up_New u \<and> update_shape u \<and>
     (\<forall>oid. up_New u = Some oid \<longrightarrow>
        ValidOID oid (h_ObjectFormat (rs_Head s)) \<and> oid \<in> set existing) \<and>
     (up_Kind u = ''force'' \<longrightarrow> pc_Force c) \<and>
     (up_Kind u = ''fast-forward'' \<longrightarrow> HasPrefix (pc_Dst c) ''refs/heads/'')"

lemma validateCommand_Inr:
  assumes "validateCommand X r s existing seen c w = (Inr (u, res), w')"
  shows "fst w' = fst w" "pres_Dst res = pc_Dst c"
    "\<And>x. u = Some x \<Longrightarrow> good_update s existing c x \<and> pc_Dst c \<notin> set seen \<and> pres_OK res"
    "pres_OK res \<Longrightarrow> u = None \<Longrightarrow> fmlookup (rs_Refs s) (pc_Dst c) = pc_NewOID c"
    "pres_OK res \<Longrightarrow> pc_Dst c \<notin> set seen"
proof -
  obtain st g where w: "w = (st, g)" by (cases w)
  have "fst w' = fst w \<and> pres_Dst res = pc_Dst c \<and>
    (\<forall>x. u = Some x \<longrightarrow> good_update s existing c x \<and> pc_Dst c \<notin> set seen \<and> pres_OK res) \<and>
    (pres_OK res \<longrightarrow> u = None \<longrightarrow> fmlookup (rs_Refs s) (pc_Dst c) = pc_NewOID c) \<and>
    (pres_OK res \<longrightarrow> pc_Dst c \<notin> set seen)"
    using assms unfolding validateCommand_def w
    by (auto simp: run_simps failResult_def okResult_def good_update_def update_shape_def
        split: if_splits option.splits)
  then show "fst w' = fst w" "pres_Dst res = pc_Dst c"
    "\<And>x. u = Some x \<Longrightarrow> good_update s existing c x \<and> pc_Dst c \<notin> set seen \<and> pres_OK res"
    "pres_OK res \<Longrightarrow> u = None \<Longrightarrow> fmlookup (rs_Refs s) (pc_Dst c) = pc_NewOID c"
    "pres_OK res \<Longrightarrow> pc_Dst c \<notin> set seen"
    by blast+
qed

lemma validateCommands_Inr:
  assumes "validateCommands X r s existing seen cmds w = (Inr (us, ress), w')"
  shows "fst w' = fst w \<and> map pres_Dst ress = map pc_Dst cmds \<and>
    (\<forall>u \<in> set us. \<exists>c \<in> set cmds. good_update s existing c u) \<and>
    distinct (map up_Ref us) \<and> set (map up_Ref us) \<inter> set seen = {} \<and>
    (\<forall>i < length cmds. pres_OK (ress ! i) \<longrightarrow> pc_Dst (cmds ! i) \<notin> set seen \<and>
       (fmlookup (rs_Refs s) (pc_Dst (cmds ! i)) = pc_NewOID (cmds ! i) \<and>
          pc_Dst (cmds ! i) \<notin> up_Ref ` set us \<or>
        (\<exists>u \<in> set us. good_update s existing (cmds ! i) u)))"
  using assms
proof (induction cmds arbitrary: seen w us ress)
  case (Cons c cmds)
  from Cons.prems obtain u res us' ress' w1 where
    c: "validateCommand X r s existing seen c w = (Inr (u, res), w1)"
    and cs: "validateCommands X r s existing (pc_Dst c # seen) cmds w1 = (Inr (us', ress'), w')"
    and eq: "us = case_option [] (\<lambda>x. [x]) u @ us'" "ress = res # ress'"
    by (auto simp: bindP_Inr_iff split: prod.splits)
  note V = validateCommand_Inr [OF c] and IH = Cons.IH [OF cs]
  have ref: "up_Ref x = pc_Dst c" if "u = Some x" for x
    using V(3) [OF that] by (simp add: good_update_def)
  have "pc_Dst ((c # cmds) ! i) \<notin> set seen \<and>
      (fmlookup (rs_Refs s) (pc_Dst ((c # cmds) ! i)) = pc_NewOID ((c # cmds) ! i) \<and>
         pc_Dst ((c # cmds) ! i) \<notin> up_Ref ` set us \<or>
       (\<exists>u \<in> set us. good_update s existing ((c # cmds) ! i) u))"
    if "i < length (c # cmds)" "pres_OK ((res # ress') ! i)" for i
  proof (cases i)
    case 0
    with that V(3-5) IH eq show ?thesis by (cases u) auto
  next
    case (Suc j)
    with that IH have "pc_Dst (cmds ! j) \<notin> set (pc_Dst c # seen) \<and>
      (fmlookup (rs_Refs s) (pc_Dst (cmds ! j)) = pc_NewOID (cmds ! j) \<and>
         pc_Dst (cmds ! j) \<notin> up_Ref ` set us' \<or>
       (\<exists>u \<in> set us'. good_update s existing (cmds ! j) u))" by simp
    with Suc eq ref show ?thesis by (cases u) auto
  qed
  with V IH eq show ?case
    by (cases u) (auto simp: good_update_def)
qed simp

lemma sort_key_distinct_strict:
  fixes f :: "'a \<Rightarrow> 'b :: linorder"
  assumes "distinct (map f xs)"
  shows "sorted_wrt (<) (map f (sort_key f xs))"
proof -
  have "distinct (map f (sort_key f xs))" using assms by (simp add: distinct_map)
  then show ?thesis by (simp add: strict_sorted_iff)
qed

lemma validatePush_Inr:
  assumes "validatePush X r s cmds w = (Inr (us, ress), w')"
  shows "fst w' = fst w" "map pres_Dst ress = map pc_Dst cmds"
    "sorted_wrt (<) (map up_Ref us)"
    "\<And>u. u \<in> set us \<Longrightarrow> \<exists>c \<in> set cmds. \<exists>ex. good_update s ex c u"
    "\<And>i. i < length cmds \<Longrightarrow> pres_OK (ress ! i) \<Longrightarrow>
       fmlookup (rs_Refs s) (pc_Dst (cmds ! i)) = pc_NewOID (cmds ! i) \<and>
         pc_Dst (cmds ! i) \<notin> up_Ref ` set us \<or>
       (\<exists>u \<in> set us. up_Ref u = pc_Dst (cmds ! i) \<and> up_New u = pc_NewOID (cmds ! i))"
proof -
  obtain st g where w: "w = (st, g)" by (cases w)
  from assms obtain existing us0 w1 where w1: "fst w1 = fst w"
    and cs: "validateCommands X r s existing [] cmds w1 = (Inr (us0, ress), w')"
    and us: "us = sort_key up_Ref us0"
    unfolding w by (auto simp: validatePush_def Let_def run_simps split: prod.splits)
  note V = validateCommands_Inr [OF cs]
  from V have "distinct (map up_Ref us0)" by blast
  with us show "sorted_wrt (<) (map up_Ref us)" by (simp add: sort_key_distinct_strict)
  show "fst w' = fst w" using V w1 by simp
  show "map pres_Dst ress = map pc_Dst cmds" using V by blast
  show "\<exists>c \<in> set cmds. \<exists>ex. good_update s ex c u" if "u \<in> set us" for u
    using V that us by (metis set_sort)
  show "fmlookup (rs_Refs s) (pc_Dst (cmds ! i)) = pc_NewOID (cmds ! i) \<and>
         pc_Dst (cmds ! i) \<notin> up_Ref ` set us \<or>
       (\<exists>u \<in> set us. up_Ref u = pc_Dst (cmds ! i) \<and> up_New u = pc_NewOID (cmds ! i))"
    if "i < length cmds" "pres_OK (ress ! i)" for i
  proof -
    from V that have "fmlookup (rs_Refs s) (pc_Dst (cmds ! i)) = pc_NewOID (cmds ! i) \<and>
        pc_Dst (cmds ! i) \<notin> up_Ref ` set us0 \<or> (\<exists>u \<in> set us0. good_update s existing (cmds ! i) u)"
      by blast
    then show ?thesis by (auto simp: us good_update_def)
  qed
qed

text \<open>The accepted updates apply to the refs they were checked against.\<close>

lemma validatePush_applies:
  assumes "validatePush X r s cmds w = (Inr (us, ress), w')"
  shows "\<exists>refs. applyUpdates (rs_Refs s) us = (refs, None)"
    and "distinct (map up_Ref us)"
proof -
  show d: "distinct (map up_Ref us)"
    using validatePush_Inr(3) [OF assms] by (rule sorted_wrt_less_distinct)
  have "\<forall>u \<in> set us. fmlookup (rs_Refs s) (up_Ref u) = up_Old u"
    using validatePush_Inr(4) [OF assms] by (fastforce simp: good_update_def)
  with applyUpdates_iff [OF d, of "rs_Refs s"]
  show "\<exists>refs. applyUpdates (rs_Refs s) us = (refs, None)"
    by (metis prod.collapse)
qed

section \<open>What a push changes\<close>

lemma keys_not_HEAD [simp]:
  "walKey i \<noteq> HEAD_KEY" "transactionKey t \<noteq> HEAD_KEY" "pageKey i \<noteq> HEAD_KEY"
  "snapshotKey i \<noteq> HEAD_KEY" "packsetKey i \<noteq> HEAD_KEY"
  by (simp_all add: walKey_def transactionKey_def pageKey_def snapshotKey_def packsetKey_def
      HEAD_KEY_def)

text \<open>
  \<open>guarded X etag absent v v'\<close>: objects were added, and HEAD was replaced, if at all, by a valid
  document while it still carried the expected tag (or, for an initial push, was absent).
\<close>

definition guarded :: "'g lib \<Rightarrow> string \<Rightarrow> bool \<Rightarrow> view \<Rightarrow> view \<Rightarrow> bool" where
  "guarded X etag absent v v' \<longleftrightarrow>
     (\<exists>v1. uploads v v1 \<and>
        (v' = v1 \<or>
         (\<exists>h pub. hp_expectedETag pub = etag \<and> hp_ifAbsent pub = absent \<and> publishes X h pub v1 v')))"

lemma guarded_uploads: "uploads v v' \<Longrightarrow> guarded X etag absent v v'"
  by (auto simp: guarded_def)

lemma guarded_publishes:
  "publishes X h pub v v' \<Longrightarrow> guarded X (hp_expectedETag pub) (hp_ifAbsent pub) v v'"
  unfolding guarded_def by (intro exI [of _ v]) auto

lemma guarded_after_uploads:
  assumes "uploads u v" "guarded X etag absent v v'"
  shows "guarded X etag absent u v'"
proof -
  from assms(2) obtain v1 where v1: "uploads v v1" and
    "v' = v1 \<or> (\<exists>h pub. hp_expectedETag pub = etag \<and> hp_ifAbsent pub = absent \<and> publishes X h pub v1 v')"
    by (auto simp: guarded_def)
  then show ?thesis
    using uploads_trans [OF assms(1) v1] unfolding guarded_def by (intro exI [of _ v1]) auto
qed

lemma guarded_objects:
  "guarded X etag absent v v' \<Longrightarrow> k \<noteq> HEAD_KEY \<Longrightarrow> v k = Some x \<Longrightarrow> v' k = Some x"
  by (cases x) (auto simp: guarded_def uploads_def publishes_def)

lemma guarded_head:
  assumes "guarded X etag False v v'" "etag \<noteq> []" "v' HEAD_KEY \<noteq> v HEAD_KEY"
  obtains b0 b t h where "v HEAD_KEY = Some (b0, etag)" "v' HEAD_KEY = Some (b, t)"
    "Marshal (x_json X) (x_Head X) h = Inr b" "Head_Validate (x_ident X) h = None"
proof -
  from assms(1,3) obtain v1 h pub b t where p: "v1 HEAD_KEY = v HEAD_KEY" "hp_expectedETag pub = etag"
    "Marshal (x_json X) (x_Head X) h = Inr b" "Head_Validate (x_ident X) h = None"
    "put_allowed (head_options pub) (v1 HEAD_KEY)" "v' = v1(HEAD_KEY \<mapsto> (b, t))"
    by (auto simp: guarded_def uploads_def publishes_def)
  with assms(2) obtain b0 where "v HEAD_KEY = Some (b0, etag)"
    by (auto simp: put_allowed_def head_options_def)
  with p that show thesis by simp
qed

context object_store
begin

lemma keeps_NewString: "keeps unchanged (NewString X)"
  unfolding NewString_def by (rule keeps_local)

lemma keeps_validateCommand: "keeps unchanged (validateCommand X r s ex seen c)"
  unfolding validateCommand_def
  by (auto intro!: keeps_unchanged split: option.splits)

lemma keeps_validateCommands: "keeps unchanged (validateCommands X r s ex seen cs)"
  by (induction cs arbitrary: seen) (auto intro!: keeps_unchanged keeps_validateCommand split: prod.splits)

lemma keeps_validatePush: "keeps unchanged (validatePush X r s cmds)"
  unfolding validatePush_def Let_def
  by (auto intro!: keeps_unchanged keeps_validateCommands split: prod.splits)

lemma keeps_resolve: "keeps unchanged (resolvePushCommands X r cs)"
  by (induction cs) (auto intro!: keeps_unchanged)

lemma keeps_makeTransaction:
  assumes "r_Store r = S"
  shows "keeps uploading (makeTransaction X r s us)"
  unfolding makeTransaction_def uploadPack_def Let_def NewString_def assms
  by (auto intro!: keeps_uploads keeps_put_absent split: prod.splits)

lemma keeps_storeTransaction:
  "r_Store r = S \<Longrightarrow> keeps uploading (storeTransaction X r tx)"
  unfolding storeTransaction_def by (auto intro!: keeps_uploads keeps_immutable)

lemma keeps_appendEnvelope:
  "r_Store r = S \<Longrightarrow> keeps uploading (appendEnvelope X r h e)"
  unfolding appendEnvelope_def Let_def NewString_def
  by (auto intro!: keeps_uploads keeps_immutable)

text \<open>Programs that only add objects and end with a guarded publication, if any.\<close>

definition guards :: "'g lib \<Rightarrow> string \<Rightarrow> bool \<Rightarrow> ('s \<times> 'g, 'a) prog \<Rightarrow> bool" where
  "guards X etag absent m \<longleftrightarrow>
     (\<forall>w. guarded X etag absent (view (fst w)) (view (fst (snd (m w)))))"

lemma guardsD:
  "guards X etag absent m \<Longrightarrow> m w = (res, w') \<Longrightarrow>
     guarded X etag absent (view (fst w)) (view (fst w'))"
  unfolding guards_def by (metis snd_conv)

lemma guards_uploading: "keeps uploading m \<Longrightarrow> guards X etag absent m"
  unfolding guards_def keeps_def by (blast intro: guarded_uploads dest: uploadingD)

lemma guards_bindP:
  assumes "keeps uploading m" "\<And>x. guards X etag absent (f x)"
  shows "guards X etag absent (bindP m f)"
  unfolding guards_def
proof
  fix w
  obtain y w1 where m: "m w = (y, w1)" by (cases "m w")
  with assms(1) have up: "uploads (view (fst w)) (view (fst w1))" by (metis keepsD uploadingD)
  then show "guarded X etag absent (view (fst w)) (view (fst (snd (bindP m f w))))"
  proof (cases y)
    case (Inl e)
    with m up show ?thesis by (simp add: bindP_def guarded_uploads)
  next
    case (Inr x)
    from assms(2) have "guarded X etag absent (view (fst w1)) (view (fst (snd (f x w1))))"
      unfolding guards_def by blast
    with m Inr up show ?thesis by (simp add: bindP_def) (rule guarded_after_uploads)
  qed
qed

lemma guards_tryP:
  assumes "keeps uploading m" "\<And>x. guards X etag absent (f x)"
  shows "guards X etag absent (tryP m f)"
  unfolding guards_def
proof
  fix w
  obtain y w1 where m: "m w = (y, w1)" by (cases "m w")
  with assms(1) have "uploads (view (fst w)) (view (fst w1))" by (metis keepsD uploadingD)
  moreover from assms(2) have "guarded X etag absent (view (fst w1)) (view (fst (snd (f y w1))))"
    unfolding guards_def by blast
  ultimately show "guarded X etag absent (view (fst w)) (view (fst (snd (tryP m f w))))"
    using m by (simp add: tryP_def) (rule guarded_after_uploads)
qed

lemma guards_checkP: "guards X etag absent m \<Longrightarrow> guards X etag absent (checkP c m)"
  by (auto simp: guards_def checkP_def guarded_uploads split: option.splits)

text \<open>After the publication nothing more is written.\<close>

lemma guards_end:
  assumes "guards X etag absent m" "\<And>x. keeps unchanged (f x)"
  shows "guards X etag absent (bindP m f)"
  unfolding guards_def
proof
  fix w
  obtain y w1 where m: "m w = (y, w1)" by (cases "m w")
  with assms(1) have g: "guarded X etag absent (view (fst w)) (view (fst w1))" by (rule guardsD)
  have "view (fst (snd (f x w1))) = view (fst w1)" for x
    using assms(2) [of x] unfolding keeps_def by (metis unchangedD)
  with m g show "guarded X etag absent (view (fst w)) (view (fst (snd (bindP m f w))))"
    by (cases y) (simp_all add: bindP_def)
qed

lemma guards_publish:
  assumes "r_Store r = S" "hp_expectedETag pub = etag" "hp_ifAbsent pub = absent"
  shows "guards X etag absent (publishHead X r h pub)"
  unfolding guards_def
proof
  fix w
  obtain res w' where run: "publishHead X r h pub w = (res, w')" by (cases "publishHead X r h pub w")
  from publishHead_view [OF assms(1) run] assms(2,3) guarded_publishes [of X h pub] run
  show "guarded X etag absent (view (fst w)) (view (fst (snd (publishHead X r h pub w))))"
    by (auto intro: guarded_uploads)
qed

lemma guards_pushUpdates:
  assumes r: "r_Store r = S"
  shows "guards X (rs_ETag s) False (pushUpdates X r s us)"
  unfolding pushUpdates_def
  by (intro guards_bindP keeps_makeTransaction [OF r] keeps_storeTransaction [OF r]
      keeps_uploading [OF keeps_NewString] keeps_appendEnvelope [OF r] guards_publish [OF r])
    (simp_all add: pushPublication_def)

lemmas guards_pure = guards_uploading [OF keeps_pure(1) [OF uploading_po(1)]]
  guards_uploading [OF keeps_pure(2) [OF uploading_po(1)]]

lemma guards_pushState:
  assumes r: "r_Store r = S"
  shows "guards X (rs_ETag s) False (pushState X r s cmds opts)"
proof -
  have publish: "guards X (rs_ETag s) False (bindP (pushUpdates X r s us) (\<lambda>_. returnP res))"
    for us and res :: "PushResult list"
    by (intro guards_end guards_pushUpdates [OF r] keeps_unchanged)
  show ?thesis
    unfolding pushState_def
    by (rule publish guards_pure | rule guards_bindP | rule guards_checkP | rule keeps_local(2)
        | rule keeps_uploading [OF keeps_validatePush]
        | (split prod.split, intro allI impI) | (split if_split, intro conjI impI))+
qed

lemma guards_initialize:
  assumes r: "r_Store r = S"
  shows "guards X [] True (initialize X r cmds opts)"
proof -
  have branch: "keeps uploading (initialBranch X r us cs)" for us cs
    unfolding initialBranch_def Let_def
    by (auto intro!: keeps_uploads)
  note steps = keeps_local(2) branch keeps_uploading [OF keeps_NewString]
    keeps_uploading [OF keeps_validatePush] keeps_pure(3) [OF uploading_po(1)]
    keeps_immutable [OF r] keeps_makeTransaction [OF r] keeps_storeTransaction [OF r]
    keeps_uploading [OF keeps_validateBootstrap [OF r]]
  have publish: "guards X [] True (bindP (publishHead X r h (initPublication tx)) (\<lambda>_. returnP res))"
    for h tx and res :: "PushResult list"
    by (intro guards_end guards_publish [OF r] keeps_unchanged) (simp_all add: initPublication_def)
  show ?thesis
    unfolding initialize_def Let_def
    by (rule publish guards_pure | rule guards_bindP | rule steps | rule keys_not_HEAD
        | (split prod.split, intro allI impI) | (split option.split, intro conjI allI impI)
        | (split if_split, intro conjI impI))+
qed

end

end
