(* ===== verification/Git3_PushRead.thy ===== *)
theory Git3_PushRead
  imports Git3_Push
begin

text \<open>
  A push and the reads that follow it: the state a reader sees after a successful push is the
  state before it with one more transaction, as long as the log tail has room; and what happens
  when it has none.
\<close>

section \<open>Reading after a push\<close>

lemma verifiedV_cong: "v' (or_Key ref) = v (or_Key ref) \<Longrightarrow> verifiedV X v' ref mx = verifiedV X v ref mx"
  by (simp add: verifiedV_def cong: option.case_cong)

lemma verifiedV_keep:
  assumes "verifiedV X v ref mx = Inr b"
    and "v (or_Key ref) \<noteq> None \<Longrightarrow> v' (or_Key ref) = v (or_Key ref)"
  shows "verifiedV X v' ref mx = Inr b"
proof -
  have "v (or_Key ref) \<noteq> None" using verifiedV_Inr [OF assms(1)] by auto
  then have "v' (or_Key ref) = v (or_Key ref)" by (rule assms(2))
  then have "verifiedV X v' ref mx = verifiedV X v ref mx" by (rule verifiedV_cong)
  with assms(1) show ?thesis by simp
qed

lemma walkV_cong:
  assumes "walkV n X v h seen p = Inr (pages, objects)"
    and "\<And>ob. ob \<in> set objects \<Longrightarrow> v (or_Key ob) \<noteq> None \<Longrightarrow> v' (or_Key ob) = v (or_Key ob)"
    and "log_FloorGeneration (h_Log h') = log_FloorGeneration (h_Log h)"
    and "h_RepositoryID h' = h_RepositoryID h"
  shows "walkV n X v' h' seen p = Inr (pages, objects)"
  using assms(1,2)
proof (induction n arbitrary: seen p pages objects)
  case 0
  then show ?case by (cases p) auto
next
  case (Suc n)
  show ?case
  proof (cases p)
    case (Some q)
    show ?thesis
    proof (cases "pp_LastGeneration q > log_FloorGeneration (h_Log h)")
      case True
      with Suc.prems Some obtain b page ps os where
        c: "checkPointer X seen q = None" "verifiedV X v (pp_Object q) MaxLogPage = Inr b"
          "UnmarshalForward (x_json X) (x_LogPage X) b MaxLogPage = Inr page"
          "checkPage h q page = None"
        and rec: "walkV n X v h (pp_PageID q # seen) (lp_Previous page) = Inr (ps, os)"
        and eq: "pages = lp_Transactions page # ps" "objects = pp_Object q # os"
        by (auto split: option.splits sum.splits prod.splits)
      have "walkV n X v' h' (pp_PageID q # seen) (lp_Previous page) = Inr (ps, os)"
        using Suc.prems(2) eq by (intro Suc.IH [OF rec]) auto
      moreover have "verifiedV X v' (pp_Object q) MaxLogPage = Inr b"
        using Suc.prems(2) eq by (intro verifiedV_keep [OF c(2)]) auto
      moreover have "checkPage h' q page = None" using c(4) assms(4) by (simp add: checkPage_def)
      ultimately show ?thesis using True c eq Some assms(3) by simp
    next
      case False
      with Suc.prems Some assms(3) show ?thesis by simp
    qed
  qed (use Suc.prems in simp)
qed

lemma liveChain_cong:
  assumes "log_FloorGeneration (h_Log h') = log_FloorGeneration (h_Log h)"
    "h_RepositoryID h' = h_RepositoryID h" "h_ObjectFormat h' = h_ObjectFormat h"
  shows "liveChain X h' gen pid es = liveChain X h gen pid es"
  using assms by (induction es arbitrary: gen pid) (simp_all add: Let_def cong: option.case_cong sum.case_cong)

text \<open>The objects a state was read from are not the HEAD object itself.\<close>

definition head_independent :: "RemoteState \<Rightarrow> bool" where
  "head_independent s \<longleftrightarrow>
     (\<forall>ob \<in> set (snp_Object (h_RefSnapshot (rs_Head s)) # rs_logPages s). or_Key ob \<noteq> HEAD_KEY)"

text \<open>The transaction continues the state: what \<^const>\<open>makeTransaction\<close> fills in.\<close>

definition continues :: "RemoteState \<Rightarrow> Transaction \<Rightarrow> bool" where
  "continues s tx \<longleftrightarrow>
     tx_RepositoryID tx = h_RepositoryID (rs_Head s) \<and>
     tx_ObjectFormat tx = h_ObjectFormat (rs_Head s) \<and>
     tx_Generation tx = h_LogicalGeneration (rs_Head s) + 1 \<and>
     tx_ParentTransactionID tx = h_TransactionID (rs_Head s)"

definition pushed_state :: "RemoteState \<Rightarrow> Head \<Rightarrow> string \<Rightarrow> refs \<Rightarrow> Envelope \<Rightarrow> RemoteState" where
  "pushed_state s h etag refs env =
     \<lparr>rs_Head = h, rs_ETag = etag, rs_Refs = refs,
      rs_Transactions = rs_Transactions s @ [env_Transaction env], rs_Cached = False,
      rs_logResolved = True, rs_logEnvelopes = rs_logEnvelopes s @ [env],
      rs_logPages = rs_logPages s\<rparr>"

lemma next_generation:
  assumes "Head_Validate X h = None" "Head_Validate X h' = None"
    "h_LogicalGeneration h' = h_LogicalGeneration h + 1" "h_TransactionID h' \<noteq> None"
  shows "h_LogicalGeneration h < h_LogicalGeneration h + 1"
    "log_FloorGeneration (h_Log h) < h_LogicalGeneration h + 1"
    "snp_Generation (h_RefSnapshot h) < h_LogicalGeneration h + 1"
proof -
  have "h_LogicalGeneration h + 1 \<noteq> 0"
    using Head_Validate_bounds(3) [OF assms(2)] assms(3,4) by auto
  then show lt: "h_LogicalGeneration h < h_LogicalGeneration h + 1"
    using unatSuc [of "h_LogicalGeneration h"] by (simp add: word_less_nat_alt add.commute)
  with Head_Validate_bounds(1,2) [OF assms(1)]
  show "log_FloorGeneration (h_Log h) < h_LogicalGeneration h + 1"
    "snp_Generation (h_RefSnapshot h) < h_LogicalGeneration h + 1"
    by (meson le_less_trans order_trans)+
qed

lemma symref_survives:
  assumes "applyUpdates refs us = (refs', None)" "distinct (map up_Ref us)"
    "fmlookup refs x \<noteq> None" "\<nexists>u. u \<in> set us \<and> up_Ref u = x \<and> up_New u = None"
  shows "fmlookup refs' x \<noteq> None"
proof (cases "x \<in> up_Ref ` set us")
  case True
  with applyUpdates_new [OF assms(2,1)] assms(4) show ?thesis by force
next
  case False
  with applyUpdates_untouched [OF assms(1)] assms(3) show ?thesis by metis
qed

lemma collectV_append:
  assumes col: "collectV X v h = Inr log" and tail: "log_Tail (h_Log h) = Some es"
    and h': "log_FloorGeneration (h_Log h') = log_FloorGeneration (h_Log h)"
      "h_RepositoryID h' = h_RepositoryID h" "h_ObjectFormat h' = h_ObjectFormat h"
      "log_FloorTransactionID (h_Log h') = log_FloorTransactionID (h_Log h)"
      "log_TipPage (h_Log h') = log_TipPage (h_Log h)" "log_Tail (h_Log h') = Some (es @ [env])"
    and tip: "liveChain X h (h_LogicalGeneration h) (h_TransactionID h) [env] =
      Inr ([env], h_LogicalGeneration h', h_TransactionID h')"
    and keep: "\<And>ob. ob \<in> set (rl_pages log) \<Longrightarrow> v (or_Key ob) \<noteq> None \<Longrightarrow> v' (or_Key ob) = v (or_Key ob)"
  shows "collectV X v' h' = Inr \<lparr>rl_transactions = rl_transactions log @ [env_Transaction env],
    rl_envelopes = rl_envelopes log @ [env], rl_pages = rl_pages log\<rparr>"
proof -
  from col obtain pages objects live where
    walk: "walkV (x_page_fuel X) X v h [] (log_TipPage (h_Log h)) = Inr (pages, objects)"
    and chain: "liveChain X h (log_FloorGeneration (h_Log h)) (log_FloorTransactionID (h_Log h))
       (concat (rev pages) @ case_option [] id (log_Tail (h_Log h))) =
       Inr (live, h_LogicalGeneration h, h_TransactionID h)"
    and log: "log = \<lparr>rl_transactions = map env_Transaction live, rl_envelopes = live, rl_pages = objects\<rparr>"
    by (rule collectV_sound)
  have "walkV (x_page_fuel X) X v' h' [] (log_TipPage (h_Log h')) = Inr (pages, objects)"
    unfolding h'(5) using keep by (intro walkV_cong [OF walk _ h'(1,2)]) (simp add: log)
  moreover have "liveChain X h' (log_FloorGeneration (h_Log h')) (log_FloorTransactionID (h_Log h'))
       (concat (rev pages) @ case_option [] id (log_Tail (h_Log h'))) =
       Inr (live @ [env], h_LogicalGeneration h', h_TransactionID h')"
    using chain tip tail
    unfolding liveChain_cong [OF h'(1-3)] h'
    by (simp add: append_assoc [symmetric] liveChain_append [of X h _ _ "concat (rev pages) @ es"]
        del: append_assoc)
  ultimately show ?thesis by (simp add: collectV_def log)
qed

lemma reconstructV_append:
  assumes rec: "reconstructV X v h txs = Inr refs"
    and h': "h_RepositoryID h' = h_RepositoryID h" "h_ObjectFormat h' = h_ObjectFormat h"
      "h_RefSnapshot h' = h_RefSnapshot h"
    and app: "applyUpdates refs (tx_Updates tx) = (refs', None)"
    and gen: "snp_Generation (h_RefSnapshot h) < tx_Generation tx"
    and sym: "h_HeadSymref h' \<noteq> None \<longrightarrow> fmlookup refs' (the (h_HeadSymref h')) \<noteq> None"
    and keep: "v (or_Key (snp_Object (h_RefSnapshot h))) \<noteq> None \<Longrightarrow>
      v' (or_Key (snp_Object (h_RefSnapshot h))) = v (or_Key (snp_Object (h_RefSnapshot h)))"
  shows "reconstructV X v' h' (txs @ [tx]) = Inr refs'"
proof -
  from rec obtain sb sn where snap: "verifiedV X v (snp_Object (h_RefSnapshot h)) MaxSnapshot = Inr sb"
    "ParseSnapshot (x_ident X) sb = Inr sn" "sn_RepositoryID sn = h_RepositoryID h"
    "sn_ObjectFormat sn = h_ObjectFormat h" "sn_Generation sn = snp_Generation (h_RefSnapshot h)"
    "sn_TransactionID sn = snp_TransactionID (h_RefSnapshot h)"
    "replay (sn_Generation sn) (sn_Refs sn) txs = Inr refs"
    by (rule reconstructV_sound)
  have "verifiedV X v' (snp_Object (h_RefSnapshot h)) MaxSnapshot = Inr sb"
    by (rule verifiedV_keep [OF snap(1)]) (rule keep)
  moreover have "replay (sn_Generation sn) (sn_Refs sn) (txs @ [tx]) = Inr refs'"
    using snap(5,7) app gen by (simp add: replay_append)
  ultimately show ?thesis
    using snap(2-6) h' sym by (auto simp: reconstructV_def)
qed

lemma readV_append:
  assumes rd: "readV X v = Inr s" and up: "uploads v v1" and ind: "head_independent s"
    and tail: "log_Tail (h_Log (rs_Head s)) = Some es"
    and h': "h' = (pushCandidate s tx us pubID)\<lparr>h_Log := (h_Log (rs_Head s))\<lparr>log_Tail := Some (es @ [env])\<rparr>\<rparr>"
    and pub: "publishes X h' pub v1 v2" and codec: "codec_ok (x_json X) (x_Head X) MaxHead"
    and tx: "continues s tx" "env_Transaction env = tx" "tx_Updates tx = us"
    and desc: "validateObject (env_Descriptor env) = None"
    and app: "applyUpdates (rs_Refs s) us = (refs', None)" "distinct (map up_Ref us)"
  shows "\<exists>t. readV X v2 = Inr (pushed_state s h' t refs' env)"
proof -
  let ?h = "rs_Head s"
  obtain b0 where st: "stateV X v (rs_ETag s) ?h = Inr s" and valid: "Head_Validate (x_ident X) ?h = None"
    using rd by (rule readV_Inr) (auto simp: headV_Inr)
  from pub obtain b t where b: "Marshal (x_json X) (x_Head X) h' = Inr b" "length b \<le> MaxHead"
    and valid': "Head_Validate (x_ident X) h' = None" and v2: "v2 = v1(HEAD_KEY \<mapsto> (b, t))"
    by (auto simp: publishes_def)
  from st obtain log where col: "collectV X v ?h = Inr log"
    and rec: "reconstructV X v ?h (rl_transactions log) = Inr (rs_Refs s)"
    and s: "s = \<lparr>rs_Head = ?h, rs_ETag = rs_ETag s, rs_Refs = rs_Refs s,
       rs_Transactions = rl_transactions log, rs_Cached = False, rs_logResolved = True,
       rs_logEnvelopes = rl_envelopes log, rs_logPages = rl_pages log\<rparr>"
    by (rule stateV_Inr)
  from s have sf: "rs_Transactions s = rl_transactions log" "rs_logEnvelopes s = rl_envelopes log"
    "rs_logPages s = rl_pages log" by (metis RemoteState.select_convs)+
  have hf: "h_LogicalGeneration h' = h_LogicalGeneration ?h + 1"
    "h_TransactionID h' = Some (tx_TransactionID tx)"
    using tx(1) by (simp_all add: h' pushCandidate_def Let_def continues_def)
  have hx: "log_FloorGeneration (h_Log h') = log_FloorGeneration (h_Log ?h)"
    "h_RepositoryID h' = h_RepositoryID ?h" "h_ObjectFormat h' = h_ObjectFormat ?h"
    "log_FloorTransactionID (h_Log h') = log_FloorTransactionID (h_Log ?h)"
    "log_TipPage (h_Log h') = log_TipPage (h_Log ?h)" "log_Tail (h_Log h') = Some (es @ [env])"
    by (simp_all add: h' pushCandidate_def Let_def)
  note ng = next_generation [OF valid valid' hf(1)] hf(2)
  have keep: "v2 (or_Key ob) = v (or_Key ob)"
    if "ob \<in> set (snp_Object (h_RefSnapshot ?h) # rs_logPages s)" "v (or_Key ob) \<noteq> None" for ob
    using ind that up by (auto simp: head_independent_def v2 uploads_def)
  have "Transaction_Validate (x_ident X) tx = None"
    using Head_Validate_tail [OF valid'] tx(2) by (auto simp: h')
  then have tip: "liveChain X ?h (h_LogicalGeneration ?h) (h_TransactionID ?h) [env] =
      Inr ([env], h_LogicalGeneration h', h_TransactionID h')"
    using tx desc ng(2) hf by (simp add: Let_def continues_def not_le)
  have col': "collectV X v2 h' = Inr \<lparr>rl_transactions = rl_transactions log @ [env_Transaction env],
      rl_envelopes = rl_envelopes log @ [env], rl_pages = rl_pages log\<rparr>"
    by (rule collectV_append [OF col tail hx tip]) (auto simp: sf [symmetric] intro!: keep)
  have "h_HeadSymref h' \<noteq> None \<longrightarrow> fmlookup refs' (the (h_HeadSymref h')) \<noteq> None"
    using symref_survives [OF app] rec
    by (auto simp: h' pushCandidate_def Let_def split: option.splits if_splits elim!: reconstructV_sound)
  then have "reconstructV X v2 h' (rl_transactions log @ [tx]) = Inr refs'"
    using app(1) tx ng(3) hf
    by (intro reconstructV_append [OF rec]) (auto simp: h' pushCandidate_def Let_def continues_def intro!: keep)
  moreover have "headV X b = Inr h'"
    using b valid' codec_okD [OF codec b(1)] by (simp add: headV_Inr)
  ultimately show ?thesis
    using col' v2 sf by (auto simp: readV_def stateV_def pushed_state_def tx(2))
qed

section \<open>The steps of a push\<close>

lemma makeTransaction_Inr:
  assumes "makeTransaction X r s us w = (Inr tx, w')"
  shows "continues s tx" "tx_Updates tx = us"
  using assms
  by (auto simp: makeTransaction_def uploadPack_def Let_def continues_def bindP_Inr_iff checkP_Inr_iff
      split: if_splits)

lemma storeTransaction_Inr:
  assumes "storeTransaction X r tx w = (Inr env, w')"
  obtains b where "Marshal (x_json X) (x_Transaction X) tx = Inr b"
    "immutable X r (transactionKey tx) b w = (Inr (env_Descriptor env), w')" "env_Transaction env = tx"
  using assms by (auto simp: storeTransaction_def bindP_Inr_iff)

lemma appendEnvelope_Inr:
  assumes "appendEnvelope X r h e w = (Inr h', w')" "log_Tail (h_Log h) = Some es"
  obtains (tail) b where "Marshal (x_json X) (x_Envelopes X) (es @ [e]) = Inr b"
      "length es < 32" "length b \<le> 2 ^ 20" "w' = w"
      "h' = h\<lparr>h_Log := (h_Log h)\<lparr>log_Tail := Some (es @ [e])\<rparr>\<rparr>"
    | (page) i b pb ref w1 where "Marshal (x_json X) (x_Envelopes X) (es @ [e]) = Inr b"
      "32 \<le> length es \<or> 2 ^ 20 < length b"
      "NewString X w = (Inr i, w1)"
      "Marshal (x_json X) (x_LogPage X) (sealedPage h i (es @ [e])) = Inr pb"
      "immutable X r (pageKey i) pb w1 = (Inr ref, w')"
      "h' = h\<lparr>h_Log := (h_Log h)\<lparr>
         log_TipPage := Some \<lparr>pp_PageID = i,
           pp_FirstGeneration = lp_FirstGeneration (sealedPage h i (es @ [e])),
           pp_LastGeneration = lp_LastGeneration (sealedPage h i (es @ [e])), pp_Object = ref\<rparr>,
         log_Tail := Some []\<rparr>\<rparr>"
proof (cases "Marshal (x_json X) (x_Envelopes X) (es @ [e])")
  case (Inl err)
  with assms show thesis by (simp add: appendEnvelope_def Let_def)
next
  case (Inr b)
  show thesis
  proof (cases "length es < 32 \<and> length b \<le> 2 ^ 20")
    case True
    with assms Inr show thesis
      by (intro tail [OF Inr]) (simp_all add: appendEnvelope_def Let_def)
  next
    case False
    with assms Inr obtain i w1 pb ref where "NewString X w = (Inr i, w1)"
      "Marshal (x_json X) (x_LogPage X) (sealedPage h i (es @ [e])) = Inr pb"
      "immutable X r (pageKey i) pb w1 = (Inr ref, w')"
      "h' = h\<lparr>h_Log := (h_Log h)\<lparr>
         log_TipPage := Some \<lparr>pp_PageID = i,
           pp_FirstGeneration = lp_FirstGeneration (sealedPage h i (es @ [e])),
           pp_LastGeneration = lp_LastGeneration (sealedPage h i (es @ [e])), pp_Object = ref\<rparr>,
         log_Tail := Some []\<rparr>\<rparr>"
      by (simp add: appendEnvelope_def Let_def bindP_Inr_iff split: if_splits) blast+
    with False show thesis by (intro page [OF Inr]) auto
  qed
qed

lemma pushUpdates_Inr:
  assumes "pushUpdates X r s us w = (Inr u, w')"
  obtains tx env pubID cand w1 w2 w3 w4 where
    "makeTransaction X r s us w = (Inr tx, w1)" "storeTransaction X r tx w1 = (Inr env, w2)"
    "NewString X w2 = (Inr pubID, w3)"
    "appendEnvelope X r (pushCandidate s tx us pubID) env w3 = (Inr cand, w4)"
    "publishHead X r cand (pushPublication X s tx) w4 = (Inr (), w')"
  using assms by (auto simp: pushUpdates_def bindP_Inr_iff)

text \<open>A digest has the 32 bytes of SHA-256.\<close>

definition digest_ok :: "'g lib \<Rightarrow> bool" where
  "digest_ok X \<longleftrightarrow> (\<forall>b. length (x_Sum256 X b) = 32)"

lemma digest_hex:
  assumes "digest_ok X"
  shows "length (digest X b) = 64" "hexLower (digest X b)"
proof -
  show "length (digest X b) = 64" using assms by (simp add: digest_def digest_ok_def)
  then have "digest X b \<noteq> []" by auto
  then show "hexLower (digest X b)" by (simp add: hexLower_def digest_def)
qed

lemma uuid_no_slash: "uuid_canonical X \<Longrightarrow> validUUID X i \<Longrightarrow> CHR ''/'' \<notin> set i"
  by (fastforce simp: uuid_canonical_def validUUID_iff is_hex_lower_code)

lemma managed_key_leaf:
  assumes "CHR ''/'' \<notin> set leaf" "dir \<in> {''transactions'', ''log-pages'', ''refs'', ''packsets'', ''wal'', ''gc''}"
    "length leaf > 2"
  shows "ValidateManagedKey (''.git/git3/'' @ dir @ CHR ''/'' # leaf) = None"
proof -
  have "SplitByte (CHR ''/'') (''.git/git3/'' @ dir @ CHR ''/'' # leaf) = [''.git'', ''git3'', dir, leaf]"
    using assms(1,2) by (auto simp: SplitByte_no_sep)
  moreover have "leaf \<noteq> []" "leaf \<noteq> ''.''" "leaf \<noteq> ''..''" using assms(3) by auto
  ultimately show ?thesis using assms(2)
    by (auto simp: ValidateManagedKey_def)
qed

lemma pad_no_slash: "CHR ''/'' \<notin> set (pad n k)"
  using dec_char_not [of "CHR ''/''" k] by (auto simp: pad_def is_digit_code)

lemma transactionKey_managed:
  assumes "CHR ''/'' \<notin> set (tx_TransactionID tx)"
  shows "ValidateManagedKey (transactionKey tx) = None"
proof -
  have "transactionKey tx = ''.git/git3/'' @ ''transactions'' @ CHR ''/'' #
      (pad 20 (unat (tx_Generation tx)) @ ''-'' @ tx_TransactionID tx @ ''.json'')"
    by (simp add: transactionKey_def)
  also have "ValidateManagedKey \<dots> = None"
    using assms pad_no_slash by (intro managed_key_leaf) auto
  finally show ?thesis .
qed

lemma descriptor_valid:
  assumes "digest_ok X" "uuid_canonical (x_ident X)" "validUUID (x_ident X) (tx_TransactionID tx)"
  shows "validateObject (shaRef X (transactionKey tx) b) = None"
  using digest_hex [OF assms(1)] transactionKey_managed [OF uuid_no_slash [OF assms(2,3)]]
  by (simp add: validateObject_None shaRef_def)

context object_store
begin

text \<open>Everything before the publication only adds objects.\<close>

lemma pushUpdates_uploads:
  assumes r: "r_Store r = S"
    and steps: "makeTransaction X r s us w = (Inr tx, w1)" "storeTransaction X r tx w1 = (Inr env, w2)"
      "NewString X w2 = (Inr pubID, w3)" "appendEnvelope X r h env w3 = (Inr cand, w4)"
  shows "uploads (view (fst w)) (view (fst w3))" "uploads (view (fst w)) (view (fst w4))"
proof -
  note U = uploadingD [OF keepsD [OF keeps_makeTransaction [OF r] steps(1)]]
    uploadingD [OF keepsD [OF keeps_storeTransaction [OF r] steps(2)]]
    uploadingD [OF keepsD [OF keeps_uploading [OF keeps_NewString] steps(3)]]
    uploadingD [OF keepsD [OF keeps_appendEnvelope [OF r] steps(4)]]
  show "uploads (view (fst w)) (view (fst w3))" using U(1-3) by (blast intro: uploads_trans)
  then show "uploads (view (fst w)) (view (fst w4))" using U(4) by (rule uploads_trans)
qed

end

section \<open>Footprints\<close>

lemma other_keys [simp]:
  "walKey j \<noteq> pageKey i" "transactionKey t \<noteq> pageKey i" "HEAD_KEY \<noteq> pageKey i"
  by (simp_all add: walKey_def transactionKey_def pageKey_def HEAD_KEY_def)

context object_store
begin

text \<open>Programs that leave one key alone.\<close>

definition same_at :: "string \<Rightarrow> 's \<times> 'g \<Rightarrow> 's \<times> 'g \<Rightarrow> bool" where
  "same_at k w w' \<longleftrightarrow> view (fst w') k = view (fst w) k"

lemma same_at_po: "reflp (same_at k)" "transp (same_at k)"
  by (auto simp: same_at_def reflp_def transp_def)

lemma keeps_same_at: "keeps unchanged m \<Longrightarrow> keeps (same_at k) m"
  by (auto simp: keeps_def same_at_def unchanged_def store_rel_def)

lemma keeps_put_other: "key \<noteq> k \<Longrightarrow> keeps (same_at k) (onStore (st_Put S key rd n opts))"
  unfolding keeps_def same_at_def onStore_def
  by (auto split: prod.splits dest: put_other)

lemmas keeps_others =
  keeps_bindP [OF same_at_po] keeps_tryP [OF same_at_po(2)] keeps_checkP [OF same_at_po(1)]
  keeps_pure [OF same_at_po(1)] keeps_same_at [OF keeps_Pair(1)] keeps_same_at [OF keeps_local(1)]
  keeps_same_at [OF keeps_get] keeps_put_other

lemma keeps_immutable_other:
  assumes "r_Store r = S" "key \<noteq> k"
  shows "keeps (same_at k) (immutable X r key b)"
  unfolding immutable_def Let_def assms(1) using assms(2)
  by (auto intro!: keeps_others split: sum.splits)

lemma push_steps_page:
  assumes r: "r_Store r = S"
    and steps: "makeTransaction X r s us w = (Inr tx, w1)" "storeTransaction X r tx w1 = (Inr env, w2)"
      "NewString X w2 = (Inr pubID, w3)" "NewString X w3 = (Inr i, w4)"
  shows "view (fst w4) (pageKey k) = view (fst w) (pageKey k)"
proof -
  have "keeps (same_at (pageKey k)) (makeTransaction X r s us)"
    unfolding makeTransaction_def uploadPack_def Let_def NewString_def r
    by (auto intro!: keeps_others split: prod.splits)
  moreover have "keeps (same_at (pageKey k)) (storeTransaction X r tx)"
    unfolding storeTransaction_def by (auto intro!: keeps_others keeps_immutable_other [OF r])
  moreover note keeps_same_at [OF keeps_NewString]
  ultimately show ?thesis using steps by (metis keepsD same_at_def)
qed

end

section \<open>Push and read, end to end\<close>

context atomic_store
begin

lemma push_then_readV:
  assumes r: "r_Store r = S" and rd: "readV X (view (fst w)) = Inr s"
    and ind: "head_independent s" and codec: "codec_ok (x_json X) (x_Head X) MaxHead"
    and lib: "digest_ok X" "uuid_canonical (x_ident X)"
    and room: "log_Tail (h_Log (rs_Head s)) = Some es" "length es < 32"
      "\<forall>e b. Marshal (x_json X) (x_Envelopes X) (es @ [e]) = Inr b \<longrightarrow> length b \<le> 2 ^ 20"
    and app: "applyUpdates (rs_Refs s) us = (refs', None)" "distinct (map up_Ref us)"
    and run: "pushUpdates X r s us w = (Inr u, w')"
  shows "\<exists>s'. readV X (view (fst w')) = Inr s' \<and> rs_Refs s' = refs' \<and>
    h_LogicalGeneration (rs_Head s') = h_LogicalGeneration (rs_Head s) + 1 \<and>
    h_ManifestRevision (rs_Head s') = h_ManifestRevision (rs_Head s) + 1 \<and>
    (\<exists>tx. rs_Transactions s' = rs_Transactions s @ [tx] \<and> tx_Updates tx = us)"
proof -
  from run obtain tx env pubID cand w1 w2 w3 w4 where
    steps: "makeTransaction X r s us w = (Inr tx, w1)" "storeTransaction X r tx w1 = (Inr env, w2)"
      "NewString X w2 = (Inr pubID, w3)"
      "appendEnvelope X r (pushCandidate s tx us pubID) env w3 = (Inr cand, w4)"
    and pub: "publishHead X r cand (pushPublication X s tx) w4 = (Inr (), w')"
    by (rule pushUpdates_Inr)
  note P = publishHead_done [OF r pub]
  from steps(2) obtain tb where env: "immutable X r (transactionKey tx) tb w1 = (Inr (env_Descriptor env), w2)"
    "env_Transaction env = tx" by (rule storeTransaction_Inr)
  have tailc: "log_Tail (h_Log (pushCandidate s tx us pubID)) = Some es"
    using room(1) by (simp add: pushCandidate_def Let_def)
  from steps(4) tailc
  have cand: "cand = (pushCandidate s tx us pubID)\<lparr>h_Log := (h_Log (rs_Head s))\<lparr>log_Tail := Some (es @ [env])\<rparr>\<rparr>"
  proof (cases rule: appendEnvelope_Inr)
    case (tail b)
    then show ?thesis by (simp add: pushCandidate_def Let_def)
  next
    case (page i b pb ref w5)
    then show ?thesis using room(2) room(3) [rule_format, OF page(1)] by simp
  qed
  have "Transaction_Validate (x_ident X) tx = None"
    using Head_Validate_tail [of "x_ident X" cand] P env(2) by (auto simp: publishes_def cand)
  then have "validateObject (env_Descriptor env) = None"
    using immutable_Inr(1) [OF r env(1)] descriptor_valid [OF lib] Transaction_Validate_header(2) by metis
  from readV_append [OF rd pushUpdates_uploads(2) [OF r steps] ind room(1) cand P codec
      makeTransaction_Inr(1) [OF steps(1)] env(2) makeTransaction_Inr(2) [OF steps(1)] this app]
  obtain t where "readV X (view (fst w')) = Inr (pushed_state s cand t refs' env)" by blast
  with makeTransaction_Inr [OF steps(1)] env(2) show ?thesis
    by (auto simp: pushed_state_def cand pushCandidate_def Let_def continues_def)
qed

text \<open>The same for a whole batch of commands.\<close>

lemma pushState_Inr:
  assumes "pushState X r s cmds opts w = (Inr res, w')"
  obtains us res0 w1 where "fst w1 = fst w" "validatePush X r s cmds w1 = (Inr (us, res0), w')"
      "res = res0 \<and> (us = [] \<or> pop_DryRun opts) \<or> (\<forall>x \<in> set res. \<not> pres_OK x)"
      "length res = length res0"
    | us w1 w2 where "fst w1 = fst w" "validatePush X r s cmds w1 = (Inr (us, res), w2)" "us \<noteq> []"
      "pushUpdates X r s us w2 = (Inr (), w')"
proof -
  from assms obtain fmt w1 x w2 where
    f: "onLocal (git_ObjectFormat (x_OS X) (r_Git r)) w = (Inr fmt, w1)"
    and v': "validatePush X r s cmds w1 = (Inr x, w2)"
    and k': "(\<lambda>(us, res0). case rejectAtomicBatch res0 (pop_Atomic opts) of (res, rejected) \<Rightarrow>
       if rejected \<or> us = [] \<or> pop_DryRun opts then returnP res
       else bindP (pushUpdates X r s us) (\<lambda>_. returnP res)) x w2 = (Inr res, w')"
    unfolding pushState_def bindP_Inr_iff checkP_Inr_iff by blast
  obtain us res0 where x: "x = (us, res0)" by (cases x)
  from f have w1: "fst w1 = fst w" using onLocal_fst [of "git_ObjectFormat (x_OS X) (r_Git r)" w] by simp
  note v = v' [unfolded x] and k = k' [unfolded x prod.case]
  obtain res1 rej where rj: "rejectAtomicBatch res0 (pop_Atomic opts) = (res1, rej)"
    by (cases "rejectAtomicBatch res0 (pop_Atomic opts)")
  have rj': "if rej then (\<forall>x \<in> set res1. \<not> pres_OK x) \<and> \<not> list_all pres_OK res0 else res1 = res0"
    "length res1 = length res0"
    using rj by (auto simp: rejectAtomicBatch_def split: if_splits)
  show thesis
  proof (cases "rej \<or> us = [] \<or> pop_DryRun opts")
    case True
    with k rj have "res = res1" "w' = w2" by auto
    then show thesis
      using True rj' v w1 by (intro that(1) [of w1 us res0]) (auto split: if_splits)
  next
    case False
    with k rj rj' obtain u where "res = res0" "pushUpdates X r s us w2 = (Inr u, w')"
      by (auto simp: bindP_Inr_iff)
    with False v w1 show thesis by (intro that(2) [of w1 us w2]) auto
  qed
qed

lemma pushState_readV:
  assumes r: "r_Store r = S" and rd: "readV X (view (fst w)) = Inr s"
    and ind: "head_independent s" and codec: "codec_ok (x_json X) (x_Head X) MaxHead"
    and lib: "digest_ok X" "uuid_canonical (x_ident X)"
    and room: "log_Tail (h_Log (rs_Head s)) = Some es" "length es < 32"
      "\<forall>e b. Marshal (x_json X) (x_Envelopes X) (es @ [e]) = Inr b \<longrightarrow> length b \<le> 2 ^ 20"
    and wet: "\<not> pop_DryRun opts" and run: "pushState X r s cmds opts w = (Inr res, w')"
  shows "\<exists>s'. readV X (view (fst w')) = Inr s' \<and>
    (\<forall>i < length cmds. pres_OK (res ! i) \<longrightarrow>
       fmlookup (rs_Refs s') (pc_Dst (cmds ! i)) = pc_NewOID (cmds ! i)) \<and>
    (\<forall>x. x \<notin> pc_Dst ` set cmds \<longrightarrow> fmlookup (rs_Refs s') x = fmlookup (rs_Refs s) x)"
  using run
proof (cases rule: pushState_Inr)
  case (1 us res0 w1)
  note V = validatePush_Inr [OF 1(2)]
  have len: "length res = length cmds" using V(2) 1(4) by (metis length_map)
  have "fmlookup (rs_Refs s) (pc_Dst (cmds ! i)) = pc_NewOID (cmds ! i)"
    if "i < length cmds" "pres_OK (res ! i)" for i
  proof -
    have "res = res0" "us = []" using 1(3) that len wet by auto
    with V(5) that show ?thesis by fastforce
  qed
  with rd V(1) 1(1) show ?thesis by auto
next
  case (2 us w1 w2)
  note V = validatePush_Inr [OF 2(2)]
  obtain refs' where app: "applyUpdates (rs_Refs s) us = (refs', None)"
    using validatePush_applies(1) [OF 2(2)] by blast
  have d: "distinct (map up_Ref us)" using 2(2) by (rule validatePush_applies(2))
  have "readV X (view (fst w2)) = Inr s" using rd V(1) 2(1) by simp
  from push_then_readV [OF r this ind codec lib room app d 2(4)] obtain s' where
    s': "readV X (view (fst w')) = Inr s'" "rs_Refs s' = refs'" by blast
  have "fmlookup refs' (pc_Dst (cmds ! i)) = pc_NewOID (cmds ! i)"
    if "i < length cmds" "pres_OK (res ! i)" for i
    using V(5) [OF that] applyUpdates_new [OF d app] applyUpdates_untouched [OF app] by metis
  moreover have "fmlookup refs' x = fmlookup (rs_Refs s) x" if "x \<notin> pc_Dst ` set cmds" for x
    using V(4) that by (intro applyUpdates_untouched [OF app]) (auto simp: good_update_def)
  ultimately show ?thesis using s' by auto
qed

text \<open>
  When the tail is full, the sealed page holds 33 records, and the readers reject it.
\<close>

lemma immutable_fresh:
  assumes r: "r_Store r = S" and none: "view (fst w) key = None"
    and run: "immutable X r key b w = (Inr ref, w')"
  shows "\<exists>t. view (fst w') key = Some (b, t)"
proof -
  obtain s g where w: "w = (s, g)" by (cases w)
  obtain p s1 where put: "st_Put S key (b, None) (int (length b)) (put_absent (digest X b)) s = (p, s1)"
    by (cases "st_Put S key (b, None) (int (length b)) (put_absent (digest X b)) s")
  show ?thesis
  proof (cases p)
    case (Inl e)
    with put_refused [OF put [unfolded Inl]] none w show ?thesis
      by (simp add: put_allowed_def put_absent_def)
  next
    case (Inr m)
    with put_ok [OF put [unfolded Inr]] run put w show ?thesis
      by (auto simp: immutable_run r)
  qed
qed

lemma appendEnvelope_full:
  assumes "appendEnvelope X r h e w = (Inr h', w')" "log_Tail (h_Log h) = Some es" "length es = 32"
  obtains i pb ref w1 where "NewString X w = (Inr i, w1)"
    "Marshal (x_json X) (x_LogPage X) (sealedPage h i (es @ [e])) = Inr pb"
    "immutable X r (pageKey i) pb w1 = (Inr ref, w')"
    "h' = h\<lparr>h_Log := (h_Log h)\<lparr>
       log_TipPage := Some \<lparr>pp_PageID = i,
         pp_FirstGeneration = lp_FirstGeneration (sealedPage h i (es @ [e])),
         pp_LastGeneration = lp_LastGeneration (sealedPage h i (es @ [e])), pp_Object = ref\<rparr>,
       log_Tail := Some []\<rparr>\<rparr>"
  using assms(1,2)
proof (cases rule: appendEnvelope_Inr)
  case (tail b)
  with assms(3) show thesis by simp
next
  case (page i b pb ref w1)
  then show thesis by (intro that [OF page(3-6)])
qed

text \<open>What a reader that accepts the tip page has found.\<close>

lemma readV_tip_page:
  assumes "readV X v = Inr s" "v HEAD_KEY = Some (b, t)" "headV X b = Inr h"
    "log_TipPage (h_Log h) = Some p" "pp_LastGeneration p > log_FloorGeneration (h_Log h)"
  obtains pb pt page where "v (or_Key (pp_Object p)) = Some (pb, pt)"
    "UnmarshalForward (x_json X) (x_LogPage X) pb MaxLogPage = Inr page" "checkPage h p page = None"
proof -
  from assms(1-3) have "stateV X v t h = Inr s" by (simp add: readV_def)
  then obtain log where "collectV X v h = Inr log" by (rule stateV_Inr)
  then obtain pages objects where
    "walkV (x_page_fuel X) X v h [] (log_TipPage (h_Log h)) = Inr (pages, objects)"
    by (rule collectV_sound)
  with assms(4,5) that show thesis
    by (cases "x_page_fuel X")
      (auto split: option.splits sum.splits dest!: verifiedV_Inr)
qed

lemma UnmarshalForward_size: "UnmarshalForward J c b mx = Inr x \<Longrightarrow> length b \<le> mx"
  by (rule ccontr) (simp add: UnmarshalForward_def unmarshalWith_def failIf_def)

lemma full_tail_unreadable:
  assumes r: "r_Store r = S" and valid: "Head_Validate (x_ident X) (rs_Head s) = None"
    and codec: "codec_ok (x_json X) (x_Head X) MaxHead" "codec_ok (x_json X) (x_LogPage X) MaxLogPage"
    and full: "log_Tail (h_Log (rs_Head s)) = Some es" "length es = 32"
    and fresh: "\<And>i. view (fst w) (pageKey i) = None"
    and run: "pushUpdates X r s us w = (Inr u, w')"
  shows "\<exists>e. readV X (view (fst w')) = Inl e"
proof (rule ccontr)
  assume "\<nexists>e. readV X (view (fst w')) = Inl e"
  then obtain s' where rd: "readV X (view (fst w')) = Inr s'"
    by (cases "readV X (view (fst w'))") auto
  from run obtain tx env pubID cand w1 w2 w3 w4 where
    steps: "makeTransaction X r s us w = (Inr tx, w1)" "storeTransaction X r tx w1 = (Inr env, w2)"
      "NewString X w2 = (Inr pubID, w3)"
    and app: "appendEnvelope X r (pushCandidate s tx us pubID) env w3 = (Inr cand, w4)"
    and pub: "publishHead X r cand (pushPublication X s tx) w4 = (Inr (), w')"
    by (rule pushUpdates_Inr)
  let ?c = "pushCandidate s tx us pubID"
  have "log_Tail (h_Log ?c) = Some es" using full(1) by (simp add: pushCandidate_def Let_def)
  with app obtain i pb ref w5 where i: "NewString X w3 = (Inr i, w5)"
    and pb: "Marshal (x_json X) (x_LogPage X) (sealedPage ?c i (es @ [env])) = Inr pb"
    and im: "immutable X r (pageKey i) pb w5 = (Inr ref, w4)"
    and cand: "cand = ?c\<lparr>h_Log := (h_Log ?c)\<lparr>
       log_TipPage := Some \<lparr>pp_PageID = i,
         pp_FirstGeneration = lp_FirstGeneration (sealedPage ?c i (es @ [env])),
         pp_LastGeneration = lp_LastGeneration (sealedPage ?c i (es @ [env])), pp_Object = ref\<rparr>,
       log_Tail := Some []\<rparr>\<rparr>"
    using full(2) by (rule appendEnvelope_full)
  from publishHead_done [OF r pub] obtain b t where b: "Marshal (x_json X) (x_Head X) cand = Inr b"
    "length b \<le> MaxHead" and valid': "Head_Validate (x_ident X) cand = None"
    and v': "view (fst w') = (view (fst w4))(HEAD_KEY \<mapsto> (b, t))"
    by (auto simp: publishes_def)
  have head: "headV X b = Inr cand" using b valid' codec_okD [OF codec(1) b(1)] by (simp add: headV_Inr)
  have tx: "env_Transaction env = tx" using steps(2) by (rule storeTransaction_Inr)
  have gen: "log_FloorGeneration (h_Log (rs_Head s)) < tx_Generation tx"
    using next_generation(2) [OF valid valid'] makeTransaction_Inr(1) [OF steps(1)]
    by (auto simp: cand pushCandidate_def Let_def continues_def)
  obtain pt where page: "view (fst w4) (pageKey i) = Some (pb, pt)"
    using push_steps_page [OF r steps i, of i] fresh immutable_fresh [OF r _ im] by auto
  let ?p = "\<lparr>pp_PageID = i, pp_FirstGeneration = lp_FirstGeneration (sealedPage ?c i (es @ [env])),
      pp_LastGeneration = lp_LastGeneration (sealedPage ?c i (es @ [env])), pp_Object = ref\<rparr>"
  have tip: "log_TipPage (h_Log cand) = Some ?p" by (simp add: cand)
  have high: "log_FloorGeneration (h_Log cand) < pp_LastGeneration ?p"
    using gen by (simp add: cand sealedPage_def tx pushCandidate_def Let_def)
  obtain pb' pt' lp where key: "view (fst w') (or_Key (pp_Object ?p)) = Some (pb', pt')"
    and dec: "UnmarshalForward (x_json X) (x_LogPage X) pb' MaxLogPage = Inr lp"
    and chk: "checkPage cand ?p lp = None"
    using rd _ head tip high by (rule readV_tip_page) (simp add: v')
  have "pb' = pb" using key page immutable_Inr(1) [OF r im] by (simp add: v' shaRef_def)
  have "lp = sealedPage ?c i (es @ [env])"
    using codec_okD [OF codec(2) pb] UnmarshalForward_size [OF dec] dec \<open>pb' = pb\<close> by simp
  moreover have "length (lp_Transactions lp) \<le> 32"
    using chk by (simp add: checkPage_def Let_def)
  ultimately show False using full(2) by (simp add: sealedPage_def)
qed

end

end
