(* ===== verification/Git3_Admin.thy ===== *)
theory Git3_Admin
  imports Git3_PushRead
begin

text \<open>
  Administration of a repository (\<^verbatim>\<open>src/internal/engine/admin.go\<close>) except compaction: health
  checks, the symbolic HEAD, garbage collection with its plan and barrier, and the write probe.

  A loop over candidates is a recursive program. The set of live keys is a list.
\<close>

section \<open>Health\<close>

record DoctorReport =
  dr_OK :: bool
  dr_RepositoryAbsent :: bool
  dr_RepositoryID :: string
  dr_ObjectFormat :: string
  dr_LogicalGeneration :: u64
  dr_ManifestRevision :: u64
  dr_PublicationID :: string
  dr_HeadSymref :: "string option"
  dr_GCBarrier :: "GCBarrier option"
  dr_MaintenanceDue :: bool
  dr_GitVersion :: string
  dr_ToolVersion :: string
  dr_GoRuntime :: string
  dr_RequiredIAM :: "string list"
  dr_CursorStatus :: string
  dr_WALBytes :: u64
  dr_MissingFeatures :: "string list"
  dr_Error :: string

definition zero_report :: DoctorReport where
  "zero_report =
     \<lparr>dr_OK = False, dr_RepositoryAbsent = False, dr_RepositoryID = [], dr_ObjectFormat = [],
      dr_LogicalGeneration = 0, dr_ManifestRevision = 0, dr_PublicationID = [], dr_HeadSymref = None,
      dr_GCBarrier = None, dr_MaintenanceDue = False, dr_GitVersion = [], dr_ToolVersion = [],
      dr_GoRuntime = [], dr_RequiredIAM = [], dr_CursorStatus = [], dr_WALBytes = 0,
      dr_MissingFeatures = [], dr_Error = []\<rparr>"

definition walBytes :: "Transaction list \<Rightarrow> u64" where
  "walBytes txs =
     foldl (\<lambda>n t. case tx_ObjectData t of None \<Rightarrow> n | Some d \<Rightarrow> n + or_Size (od_Object d)) 0 txs"

definition maintenanceDue :: "'s Repository \<Rightarrow> RemoteState \<Rightarrow> int \<Rightarrow> bool" where
  "maintenanceDue r s threshold \<longleftrightarrow>
     sint (h_LogicalGeneration (rs_Head s) - psp_Generation (h_Packset (rs_Head s))) \<ge> threshold \<or>
     r_CompactAfterBytes r > 0 \<and> walBytes (rs_Transactions s) \<ge> r_CompactAfterBytes r"

definition cursorStatus :: "RemoteState \<Rightarrow> Cursor res \<Rightarrow> string" where
  "cursorStatus s c0 = (case c0 of
      Inl _ \<Rightarrow> ''missing-or-corrupt''
    | Inr c \<Rightarrow>
       (if cu_LogicalGeneration c = h_LogicalGeneration (rs_Head s) \<and>
           same (cu_TransactionID c) (h_TransactionID (rs_Head s)) then ''current''
        else if cursorOnChain s c then ''behind''
        else if cu_LogicalGeneration c > h_LogicalGeneration (rs_Head s) then ''ahead''
        else ''divergent''))"

text \<open>
  \<^verbatim>\<open>Doctor\<close> returns a report together with its error; \<open>goRuntime\<close> is \<^verbatim>\<open>runtime.Version()\<close>.
\<close>

definition Doctor ::
  "'g lib \<Rightarrow> string \<Rightarrow> 's Repository \<Rightarrow> int \<Rightarrow> ('s \<times> 'g, DoctorReport \<times> goerr option) prog"
where
  "Doctor X goRuntime r threshold =
     tryP (onLocal (git_Version (x_OS X) (r_Git r))) (\<lambda>v0.
     tryP (onLocal (git_RequireVersion (x_OS X) (r_Git r) 2 38)) (\<lambda>rv.
     (let v = (case v0 of Inl _ \<Rightarrow> [] | Inr x \<Rightarrow> x);
          missing = (case rv of Inl e \<Rightarrow> [error_string e] | Inr _ \<Rightarrow> []);
          base = zero_report\<lparr>dr_GitVersion := v\<rparr>;
          full = base\<lparr>dr_OK := (length missing = 0), dr_ToolVersion := r_Version r,
                   dr_GoRuntime := goRuntime, dr_RequiredIAM := [''s3:GetObject''],
                   dr_MissingFeatures := missing\<rparr> in
      tryP (ReadUnconditional X r) (\<lambda>got. case got of
        Inl e \<Rightarrow>
         (if errors_Is e ErrNotFound then returnP (full\<lparr>dr_RepositoryAbsent := True\<rparr>, None)
          else returnP (base\<lparr>dr_Error := error_string e\<rparr>, Some e))
      | Inr s \<Rightarrow>
         tryP (onLocal (Resolve X (r_Git r) (h_RepositoryID (rs_Head s)))) (\<lambda>ls0.
         tryP (case ls0 of Inl e \<Rightarrow> failP e | Inr ls \<Rightarrow> onLocal (ReadCursor X ls)) (\<lambda>c0.
         returnP (full\<lparr>dr_RepositoryID := h_RepositoryID (rs_Head s),
            dr_ObjectFormat := h_ObjectFormat (rs_Head s),
            dr_LogicalGeneration := h_LogicalGeneration (rs_Head s),
            dr_ManifestRevision := h_ManifestRevision (rs_Head s),
            dr_PublicationID := h_PublicationID (rs_Head s),
            dr_HeadSymref := h_HeadSymref (rs_Head s), dr_GCBarrier := h_GCBarrier (rs_Head s),
            dr_MaintenanceDue := maintenanceDue r s threshold,
            dr_CursorStatus := (case ls0 of Inl _ \<Rightarrow> ''not-in-git-repository''
                                          | Inr _ \<Rightarrow> cursorStatus s c0),
            dr_WALBytes := walBytes (rs_Transactions s)\<rparr>, None)))))))"

fun checkEnvelopes :: "'g lib \<Rightarrow> 's Repository \<Rightarrow> Envelope list \<Rightarrow> ('s \<times> 'g, unit) prog" where
  "checkEnvelopes X r [] = returnP ()"
| "checkEnvelopes X r (e # es) =
     bindP (verified X r (env_Descriptor e) MaxTransaction) (\<lambda>d.
     bindP (liftP (Marshal (x_json X) (x_Transaction X) (env_Transaction e))) (\<lambda>b.
     checkP (failIf (d \<noteq> b) (Errorf ''descriptor/envelope mismatch'' []))
     (checkEnvelopes X r es)))"

definition verifyDescriptorGraph :: "'g lib \<Rightarrow> 's Repository \<Rightarrow> RemoteState \<Rightarrow> ('s \<times> 'g, unit) prog" where
  "verifyDescriptorGraph X r s =
     checkP (failIf (\<not> rs_logResolved s) (Errorf ''descriptor verification requires a resolved log'' []))
     (checkEnvelopes X r (rs_logEnvelopes s))"

fun checkPackSizes :: "'s Repository \<Rightarrow> PackEntry list \<Rightarrow> ('s \<times> 'g, unit) prog" where
  "checkPackSizes r [] = returnP ()"
| "checkPackSizes r (p # ps) =
     bindP (onStore (st_Head (r_Store r) (or_Key (pe_Pack p)))) (\<lambda>pm.
     bindP (onStore (st_Head (r_Store r) (or_Key (pe_Index p)))) (\<lambda>im.
     checkP (failIf (of_int (md_Size pm) \<noteq> or_Size (pe_Pack p) \<or> of_int (md_Size im) \<noteq> or_Size (pe_Index p))
               (Errorf ''packset size mismatch'' []))
     (checkPackSizes r ps)))"

definition Fsck :: "'g lib \<Rightarrow> 's Repository \<Rightarrow> bool \<Rightarrow> ('s \<times> 'g, unit) prog" where
  "Fsck X r full =
     bindP (ReadUnconditional X r) (\<lambda>s.
     bindP (verifyDescriptorGraph X r s) (\<lambda>_.
     bindP (loadPackset X r s) (\<lambda>ps.
     bindP (checkPackSizes r (allPacks ps)) (\<lambda>_.
     if \<not> full then returnP ()
     else
       bindP (onLocal (os_MkdirTemp (x_OS X) [] ''git3-fsck-'')) (\<lambda>tmp.
       finallyP
         (bindP (onLocal (git_InitBare (x_OS X) (h_ObjectFormat (rs_Head s)) tmp)) (\<lambda>_.
          bindP (fetchState X (scratch_repository r tmp) s (ref_values (rs_Refs s))) (\<lambda>_.
          returnP ())))
         (onLocal (os_RemoveAll (x_OS X) tmp)))))))"

section \<open>The symbolic HEAD\<close>

text \<open>A HEAD published again: the next manifest revision under a new publication ID.\<close>

definition republished :: "Head \<Rightarrow> string \<Rightarrow> Head" where
  "republished h pubID = h\<lparr>h_ManifestRevision := h_ManifestRevision h + 1, h_PublicationID := pubID\<rparr>"

definition plainPublication :: "RemoteState \<Rightarrow> string \<Rightarrow> string \<Rightarrow> headPublication" where
  "plainPublication s op conflict =
     \<lparr>hp_operation = op, hp_expectedETag = rs_ETag s, hp_ifAbsent = False, hp_conflict = conflict,
      hp_confirm = None\<rparr>"

definition SetHead :: "'g lib \<Rightarrow> 's Repository \<Rightarrow> string \<Rightarrow> ('s \<times> 'g, string) prog" where
  "SetHead X r ref =
     bindP (Read X r) (\<lambda>s.
     checkP (ensureWritePolicy r s)
     (checkP (failIf (\<not> HasPrefix ref ''refs/heads/'') (Errorf ''HEAD target must be a branch'' []))
     (checkP (failIf (fmlookup (rs_Refs s) ref = None) (Errorf ''branch does not exist'' []))
     (bindP (NewString X) (\<lambda>pubID.
      bindP (publishHead X r (republished ((rs_Head s)\<lparr>h_HeadSymref := Some ref\<rparr>) pubID)
               (plainPublication s ''set-head'' ''another publisher replaced HEAD'')) (\<lambda>_.
      returnP pubID))))))"

section \<open>Garbage collection\<close>

record GCReport =
  gcr_RepositoryID :: string
  gcr_PublicationID :: string
  gcr_ETag :: string
  gcr_Cutoff :: string
  gcr_Candidates :: "GCCandidate list"
  gcr_TotalBytes :: u64

text \<open>The keys that \<^verbatim>\<open>liveKeys\<close> collects, once the packset is loaded.\<close>

definition liveOf :: "RemoteState \<Rightarrow> Packset \<Rightarrow> string list" where
  "liveOf s ps =
     [HEAD_KEY, or_Key (snp_Object (h_RefSnapshot (rs_Head s))), or_Key (psp_Object (h_Packset (rs_Head s)))] @
     concat (map (\<lambda>p. [or_Key (pe_Pack p), or_Key (pe_Index p)]) (allPacks ps)) @
     map or_Key (rs_logPages s) @
     concat (map (\<lambda>e. or_Key (env_Descriptor e) #
       (case tx_ObjectData (env_Transaction e) of None \<Rightarrow> [] | Some d \<Rightarrow> [or_Key (od_Object d)]))
       (rs_logEnvelopes s)) @
     (case h_GCBarrier (rs_Head s) of None \<Rightarrow> [] | Some b \<Rightarrow> [or_Key (gcb_Plan b)])"

definition liveKeys :: "'g lib \<Rightarrow> 's Repository \<Rightarrow> RemoteState \<Rightarrow> ('s \<times> 'g, string list) prog" where
  "liveKeys X r s =
     checkP (failIf (\<not> rs_logResolved s) (Errorf ''live-key discovery requires a resolved log'' []))
     (bindP (loadPackset X r s) (\<lambda>ps. returnP (liveOf s ps)))"

definition gcCategory :: "string \<Rightarrow> string" where
  "gcCategory k =
     (let p = TrimPrefix k ''.git/git3/'' in
      case IndexByte p (CHR ''/'') of None \<Rightarrow> p | Some i \<Rightarrow> take i p)"

definition gcCandidate :: "Metadata \<Rightarrow> GCCandidate" where
  "gcCandidate x =
     \<lparr>gcc_Key = md_Key x, gcc_Size = of_int (md_Size x), gcc_ETag = md_ETag x,
      gcc_LastModified = FormatTime (md_LastModified x), gcc_Category = gcCategory (md_Key x)\<rparr>"

text \<open>The callback of the walk, on the candidates and the total so far.\<close>

definition gcVisit ::
  "string list \<Rightarrow> time \<Rightarrow> Metadata \<Rightarrow> GCCandidate list \<times> u64 \<Rightarrow> (GCCandidate list \<times> u64) res"
where
  "gcVisit live cutoff x acc =
     (case ValidateManagedKey (md_Key x) of
        Some e \<Rightarrow> Inl e
      | None \<Rightarrow>
         (if md_Size x < 0 then Inl (Errorf ''negative object size for %s'' [md_Key x])
          else if md_Key x \<in> set live \<or> md_Key x = HEAD_KEY \<or>
                  HasPrefix (md_Key x) ''.git/git3/probes/'' \<or> HasPrefix (md_Key x) ''.git/git3/lfs/'' \<or>
                  \<not> md_LastModified x < cutoff then Inr acc
          else if length (fst acc) = MaxRefs
          then Inl (Errorf ''GC candidate set exceeds %d; execute separately barriered plans'' [dec MaxRefs])
          else Inr (fst acc @ [gcCandidate x], snd acc + of_int (md_Size x))))"

definition gcDryRun ::
  "'g lib \<Rightarrow> 's Repository \<Rightarrow> time \<Rightarrow> ('s \<times> 'g, GCReport \<times> RemoteState) prog"
where
  "gcDryRun X r cutoff =
     bindP (ReadUnconditional X r) (\<lambda>s.
     bindP (liveKeys X r s) (\<lambda>live.
     bindP (onStore (Walk (r_Store r) ''.git/git3/'' (gcVisit live cutoff) ([], 0))) (\<lambda>(cands, tot).
     returnP (\<lparr>gcr_RepositoryID = h_RepositoryID (rs_Head s), gcr_PublicationID = h_PublicationID (rs_Head s),
               gcr_ETag = rs_ETag s, gcr_Cutoff = FormatTime cutoff,
               gcr_Candidates = sort_key gcc_Key cands, gcr_TotalBytes = tot\<rparr>, s))))"

definition GCDryRun :: "'g lib \<Rightarrow> 's Repository \<Rightarrow> time \<Rightarrow> ('s \<times> 'g, GCReport) prog" where
  "GCDryRun X r cutoff = bindP (gcDryRun X r cutoff) (\<lambda>(rep, s). returnP rep)"

text \<open>The comparison of a candidate with the object that is there now.\<close>

definition candidateChanged :: "GCCandidate \<Rightarrow> Metadata \<Rightarrow> bool" where
  "candidateChanged c m \<longleftrightarrow>
     md_Size m < 0 \<or> md_ETag m \<noteq> gcc_ETag c \<or> of_int (md_Size m) \<noteq> gcc_Size c \<or>
     FormatTime (md_LastModified m) \<noteq> gcc_LastModified c"

fun checkGCCandidates ::
  "'s Repository \<Rightarrow> string list \<Rightarrow> bool \<Rightarrow> GCCandidate list \<Rightarrow> ('s \<times> 'g, unit) prog"
where
  "checkGCCandidates r live allowMissing [] = returnP ()"
| "checkGCCandidates r live allowMissing (c # cs) =
     checkP (failIf (HasPrefix (gcc_Key c) ''.git/git3/lfs/'')
               (Errorf ''GC plan contains protected LFS object: %s'' [gcc_Key c]))
     (checkP (failIf (gcc_Key c \<in> set live) (Errorf ''candidate became live: %s'' [gcc_Key c]))
     (tryP (onStore (st_Head (r_Store r) (gcc_Key c))) (\<lambda>got. case got of
        Inl e \<Rightarrow>
         (if allowMissing \<and> errors_Is e ErrNotFound then checkGCCandidates r live allowMissing cs
          else failP e)
      | Inr m \<Rightarrow>
          checkP (failIf (candidateChanged c m) (Errorf ''candidate changed: %s'' [gcc_Key c]))
          (checkGCCandidates r live allowMissing cs))))"

definition validateGCCandidates ::
  "'g lib \<Rightarrow> 's Repository \<Rightarrow> RemoteState \<Rightarrow> GCCandidate list \<Rightarrow> bool \<Rightarrow> ('s \<times> 'g, unit) prog"
where
  "validateGCCandidates X r s cs allowMissing =
     bindP (liveKeys X r s) (\<lambda>live. checkGCCandidates r live allowMissing cs)"

fun deleteGCCandidates :: "'s Repository \<Rightarrow> GCCandidate list \<Rightarrow> bool \<Rightarrow> ('s \<times> 'g, unit) prog" where
  "deleteGCCandidates r [] allowMissing = returnP ()"
| "deleteGCCandidates r (c # cs) allowMissing =
     tryP (onStore (st_Delete (r_Store r) (gcc_Key c) \<lparr>do_IfMatch = gcc_ETag c\<rparr>)) (\<lambda>got. case got of
        Inl e \<Rightarrow>
         (if allowMissing \<and> errors_Is e ErrNotFound then deleteGCCandidates r cs allowMissing
          else failP e)
      | Inr _ \<Rightarrow> deleteGCCandidates r cs allowMissing)"

definition clearGCBarrier ::
  "'g lib \<Rightarrow> 's Repository \<Rightarrow> RemoteState \<Rightarrow> string \<Rightarrow> string \<Rightarrow> ('s \<times> 'g, string) prog"
where
  "clearGCBarrier X r s i op =
     checkP (failIf (h_GCBarrier (rs_Head s) = None \<or> gcb_PlanID (the (h_GCBarrier (rs_Head s))) \<noteq> i)
               (Errorf ''GC plan is not active'' []))
     (bindP (NewString X) (\<lambda>pubID.
      bindP (publishHead X r (republished ((rs_Head s)\<lparr>h_GCBarrier := None\<rparr>) pubID)
               (plainPublication s op ''GC barrier changed'')) (\<lambda>_.
      returnP pubID)))"

definition gcKey :: "string \<Rightarrow> string" where
  "gcKey i = ''.git/git3/gc/'' @ i @ ''.json''"

definition gcPlan :: "string \<Rightarrow> GCReport \<Rightarrow> GCPlan" where
  "gcPlan i rep =
     \<lparr>gcp_FormatVersion = 1, gcp_PlanID = i, gcp_RepositoryID = gcr_RepositoryID rep,
      gcp_SourcePublicationID = gcr_PublicationID rep, gcp_SourceETag = gcr_ETag rep,
      gcp_Cutoff = gcr_Cutoff rep, gcp_Candidates = gcr_Candidates rep\<rparr>"

definition gcStartPublication :: "RemoteState \<Rightarrow> string \<Rightarrow> headPublication" where
  "gcStartPublication s i =
     \<lparr>hp_operation = ''gc-start'', hp_expectedETag = rs_ETag s, hp_ifAbsent = False,
      hp_conflict = ''another publisher replaced HEAD'',
      hp_confirm = Some (\<lambda>observed _.
        (h_GCBarrier (rs_Head observed) \<noteq> None \<and>
         gcb_PlanID (the (h_GCBarrier (rs_Head observed))) = i, None))\<rparr>"

text \<open>From the published barrier to its removal.\<close>

definition gcSweep :: "'g lib \<Rightarrow> 's Repository \<Rightarrow> string \<Rightarrow> GCPlan \<Rightarrow> ('s \<times> 'g, string) prog" where
  "gcSweep X r i plan =
     bindP (ReadUnconditional X r) (\<lambda>s.
     checkP (failIf (h_GCBarrier (rs_Head s) = None \<or> gcb_PlanID (the (h_GCBarrier (rs_Head s))) \<noteq> i)
               (Errorf ''GC barrier changed'' []))
     (bindP (validateGCCandidates X r s (gcp_Candidates plan) False) (\<lambda>_.
      bindP (deleteGCCandidates r (gcp_Candidates plan) False) (\<lambda>_.
      clearGCBarrier X r s i ''gc-finish''))))"

definition GCExecute :: "'g lib \<Rightarrow> 's Repository \<Rightarrow> time \<Rightarrow> ('s \<times> 'g, string) prog" where
  "GCExecute X r cutoff =
     bindP (gcDryRun X r cutoff) (\<lambda>(rep, s).
     checkP (ensureWritePolicy r s)
     (checkP (failIf (h_GCBarrier (rs_Head s) \<noteq> None)
                (E GCBarrierActive ''gc'' (Errorf ''GC barrier active'' [])))
     (bindP (NewString X) (\<lambda>i.
      (let plan = gcPlan i rep in
       checkP (GCPlan_Validate (x_ident X) plan)
       (bindP (liftP (Marshal (x_json X) (x_GCPlan X) plan)) (\<lambda>pb.
        bindP (immutable X r (gcKey i) pb) (\<lambda>ref.
        bindP (onLocal (total (x_Now X))) (\<lambda>now.
        bindP (NewString X) (\<lambda>pubID.
        bindP (publishHead X r
                 (republished ((rs_Head s)\<lparr>h_GCBarrier := Some \<lparr>gcb_PlanID = i,
                    gcb_CreatedAt = FormatTime now, gcb_Plan = ref\<rparr>\<rparr>) pubID)
                 (gcStartPublication s i)) (\<lambda>_.
        gcSweep X r i plan)))))))))))"

definition GCAbort :: "'g lib \<Rightarrow> 's Repository \<Rightarrow> string \<Rightarrow> ('s \<times> 'g, string) prog" where
  "GCAbort X r i =
     bindP (Read X r) (\<lambda>s.
     checkP (ensureWritePolicy r s)
     (clearGCBarrier X r s i ''gc-abort''))"

definition MaxPlan :: nat where
  "MaxPlan = 256 * 2 ^ 20"

definition GCResume :: "'g lib \<Rightarrow> 's Repository \<Rightarrow> string \<Rightarrow> ('s \<times> 'g, string) prog" where
  "GCResume X r i =
     bindP (ReadUnconditional X r) (\<lambda>s.
     checkP (ensureWritePolicy r s)
     (checkP (failIf (h_GCBarrier (rs_Head s) = None \<or> gcb_PlanID (the (h_GCBarrier (rs_Head s))) \<noteq> i)
                (Errorf ''GC plan is not active'' []))
     (bindP (verified X r (gcb_Plan (the (h_GCBarrier (rs_Head s)))) MaxPlan) (\<lambda>b.
      bindP (liftP (UnmarshalForward (x_json X) (x_GCPlan X) b MaxPlan)) (\<lambda>p.
      checkP (failIf (gcp_PlanID p \<noteq> i \<or> gcp_RepositoryID p \<noteq> h_RepositoryID (rs_Head s))
                (Errorf ''GC plan mismatch'' []))
      (checkP (GCPlan_Validate (x_ident X) p)
      (bindP (validateGCCandidates X r s (gcp_Candidates p) True) (\<lambda>_.
       bindP (deleteGCCandidates r (gcp_Candidates p) True) (\<lambda>_.
       clearGCBarrier X r s i ''gc-resume'')))))))))"

section \<open>The write probe\<close>

definition probe_body :: bytes where
  "probe_body = ''git3 write probe'' @ [NL]"

definition Probe :: "'g lib \<Rightarrow> 's Repository \<Rightarrow> ('s \<times> 'g, unit) prog" where
  "Probe X r =
     bindP (NewString X) (\<lambda>i.
     (let key = ''.git/git3/probes/'' @ i in
      bindP (onStore (st_Put (r_Store r) key (probe_body, None) (int (length probe_body)) (put_absent [])))
        (\<lambda>m. onStore (st_Delete (r_Store r) key \<lparr>do_IfMatch = md_ETag m\<rparr>))))"

end
