(* ===== verification/Git3_AdminSafe.thy ===== *)
theory Git3_AdminSafe
  imports Git3_Admin
begin

text \<open>
  What administration may change. A sweep removes only planned candidates that are not live in
  the state it has just read; publishing HEAD again, with or without a barrier, and sweeping
  leave what a reader sees as it was.
\<close>

section \<open>Reading a HEAD that was published again\<close>

text \<open>\<open>same_content h h'\<close>: the two documents describe the same log and the same refs.\<close>

definition same_content :: "Head \<Rightarrow> Head \<Rightarrow> bool" where
  "same_content h h' \<longleftrightarrow>
     h_RepositoryID h' = h_RepositoryID h \<and> h_ObjectFormat h' = h_ObjectFormat h \<and>
     h_LogicalGeneration h' = h_LogicalGeneration h \<and> h_TransactionID h' = h_TransactionID h \<and>
     h_RefSnapshot h' = h_RefSnapshot h \<and> h_Log h' = h_Log h"

text \<open>The objects a state was read from, apart from HEAD.\<close>

definition read_from :: "RemoteState \<Rightarrow> ObjectRef set" where
  "read_from s = set (snp_Object (h_RefSnapshot (rs_Head s)) # rs_logPages s)"

lemma head_independent_iff: "head_independent s \<longleftrightarrow> (\<forall>ob \<in> read_from s. or_Key ob \<noteq> HEAD_KEY)"
  by (simp add: head_independent_def read_from_def)

lemma readV_same:
  assumes rd: "readV X v = Inr s" and h': "same_content (rs_Head s) h'"
    and sym: "\<And>x. h_HeadSymref h' = Some x \<Longrightarrow> fmlookup (rs_Refs s) x \<noteq> None"
    and head: "v' HEAD_KEY = Some (b, t)" "headV X b = Inr h'"
    and keep: "\<And>ob. ob \<in> read_from s \<Longrightarrow> v (or_Key ob) \<noteq> None \<Longrightarrow> v' (or_Key ob) = v (or_Key ob)"
  shows "readV X v' = Inr (s\<lparr>rs_Head := h', rs_ETag := t\<rparr>)"
proof -
  let ?h = "rs_Head s"
  obtain b0 where st: "stateV X v (rs_ETag s) ?h = Inr s" using rd by (rule readV_Inr)
  then obtain log where col: "collectV X v ?h = Inr log"
    and rec: "reconstructV X v ?h (rl_transactions log) = Inr (rs_Refs s)"
    and s: "s = \<lparr>rs_Head = ?h, rs_ETag = rs_ETag s, rs_Refs = rs_Refs s,
       rs_Transactions = rl_transactions log, rs_Cached = False, rs_logResolved = True,
       rs_logEnvelopes = rl_envelopes log, rs_logPages = rl_pages log\<rparr>"
    by (rule stateV_Inr)
  from s have pages: "rs_logPages s = rl_pages log" by (metis RemoteState.select_convs(8))
  from h' have f: "h_Log h' = h_Log ?h" "h_RepositoryID h' = h_RepositoryID ?h"
    "h_ObjectFormat h' = h_ObjectFormat ?h" "h_LogicalGeneration h' = h_LogicalGeneration ?h"
    "h_TransactionID h' = h_TransactionID ?h" "h_RefSnapshot h' = h_RefSnapshot ?h"
    by (simp_all add: same_content_def)
  from col obtain pgs objects live where
    walk: "walkV (x_page_fuel X) X v ?h [] (log_TipPage (h_Log ?h)) = Inr (pgs, objects)"
    and chain: "liveChain X ?h (log_FloorGeneration (h_Log ?h)) (log_FloorTransactionID (h_Log ?h))
       (concat (rev pgs) @ case_option [] id (log_Tail (h_Log ?h))) =
       Inr (live, h_LogicalGeneration ?h, h_TransactionID ?h)"
    and log: "log = \<lparr>rl_transactions = map env_Transaction live, rl_envelopes = live, rl_pages = objects\<rparr>"
    by (rule collectV_sound)
  have "v' (or_Key ob) = v (or_Key ob)" if "ob \<in> set objects" "v (or_Key ob) \<noteq> None" for ob
    using that by (intro keep) (simp_all add: read_from_def pages log)
  then have "walkV (x_page_fuel X) X v' h' [] (log_TipPage (h_Log h')) = Inr (pgs, objects)"
    unfolding f(1) by (rule walkV_cong [OF walk]) (simp_all add: f)
  moreover have "liveChain X h' = liveChain X ?h"
    by (intro ext liveChain_cong) (simp_all add: f)
  ultimately have col': "collectV X v' h' = Inr log"
    using chain by (simp add: collectV_def log f)
  from rec obtain sb sn where snap: "verifiedV X v (snp_Object (h_RefSnapshot ?h)) MaxSnapshot = Inr sb"
    "ParseSnapshot (x_ident X) sb = Inr sn" "sn_RepositoryID sn = h_RepositoryID ?h"
    "sn_ObjectFormat sn = h_ObjectFormat ?h" "sn_Generation sn = snp_Generation (h_RefSnapshot ?h)"
    "sn_TransactionID sn = snp_TransactionID (h_RefSnapshot ?h)"
    "replay (sn_Generation sn) (sn_Refs sn) (rl_transactions log) = Inr (rs_Refs s)"
    by (rule reconstructV_sound)
  have "verifiedV X v' (snp_Object (h_RefSnapshot ?h)) MaxSnapshot = Inr sb"
    by (rule verifiedV_keep [OF snap(1)]) (simp add: keep read_from_def)
  then have "reconstructV X v' h' (rl_transactions log) = Inr (rs_Refs s)"
    using snap(2-) sym by (cases "h_HeadSymref h'") (simp_all add: reconstructV_def f)
  with col' have "stateV X v' t h' = Inr \<lparr>rs_Head = h', rs_ETag = t, rs_Refs = rs_Refs s,
       rs_Transactions = rl_transactions log, rs_Cached = False, rs_logResolved = True,
       rs_logEnvelopes = rl_envelopes log, rs_logPages = rl_pages log\<rparr>"
    by (simp add: stateV_def)
  also have "\<dots> = Inr (s\<lparr>rs_Head := h', rs_ETag := t\<rparr>)" by (subst (2) s) simp
  finally show ?thesis by (simp add: readV_def head)
qed

lemma readV_symref: "readV X v = Inr s \<Longrightarrow> h_HeadSymref (rs_Head s) = Some x \<Longrightarrow> fmlookup (rs_Refs s) x \<noteq> None"
proof (erule readV_Inr, erule stateV_Inr, erule reconstructV_sound)
qed simp

lemma republished_content [simp]:
  "same_content h (republished h i)" "same_content h (republished (h\<lparr>h_GCBarrier := g\<rparr>) i)"
  "same_content h (republished (h\<lparr>h_HeadSymref := x\<rparr>) i)"
  by (simp_all add: same_content_def republished_def)

lemma republished_symref [simp]:
  "h_HeadSymref (republished h i) = h_HeadSymref h" "h_GCBarrier (republished h i) = h_GCBarrier h"
  by (simp_all add: republished_def)

text \<open>A read does not depend on other objects.\<close>

lemma readV_unmoved:
  assumes rd: "readV X v = Inr s" and head: "v' HEAD_KEY = v HEAD_KEY"
    and keep: "\<And>ob. ob \<in> read_from s \<Longrightarrow> v (or_Key ob) \<noteq> None \<Longrightarrow> v' (or_Key ob) = v (or_Key ob)"
  shows "readV X v' = Inr s"
proof -
  obtain b where b: "v HEAD_KEY = Some (b, rs_ETag s)" "headV X b = Inr (rs_Head s)"
    using rd by (rule readV_Inr)
  have "readV X v' = Inr (s\<lparr>rs_Head := rs_Head s, rs_ETag := rs_ETag s\<rparr>)"
    using b head by (intro readV_same [OF rd _ _ _ b(2) keep] readV_symref [OF rd]) (simp_all add: same_content_def)
  then show ?thesis by simp
qed

text \<open>Publishing the same content again.\<close>

lemma publishes_again:
  assumes rd: "readV X v = Inr s" and ind: "head_independent s" and up: "uploads v v1"
    and pub: "publishes X h' pub v1 v2" and codec: "codec_ok (x_json X) (x_Head X) MaxHead"
    and h': "same_content (rs_Head s) h'"
    and sym: "\<And>x. h_HeadSymref h' = Some x \<Longrightarrow> fmlookup (rs_Refs s) x \<noteq> None"
  obtains t where "readV X v2 = Inr (s\<lparr>rs_Head := h', rs_ETag := t\<rparr>)"
    "\<And>k. k \<noteq> HEAD_KEY \<Longrightarrow> v2 k = v1 k"
proof -
  from pub obtain b t where b: "Marshal (x_json X) (x_Head X) h' = Inr b" "length b \<le> MaxHead"
    and valid': "Head_Validate (x_ident X) h' = None" and v2: "v2 = v1(HEAD_KEY \<mapsto> (b, t))"
    by (auto simp: publishes_def)
  have "headV X b = Inr h'" using b valid' codec_okD [OF codec b(1)] by (simp add: headV_Inr)
  moreover have "v2 (or_Key ob) = v (or_Key ob)" if "ob \<in> read_from s" "v (or_Key ob) \<noteq> None" for ob
    using that ind up by (auto simp: head_independent_iff v2 uploads_def)
  ultimately have "readV X v2 = Inr (s\<lparr>rs_Head := h', rs_ETag := t\<rparr>)"
    using sym by (intro readV_same [OF rd h']) (auto simp: v2)
  with v2 that show thesis by auto
qed

section \<open>Sweeping\<close>

lemma liveKeys_Inr:
  assumes "liveKeys X r s w = (Inr live, w')"
  obtains ps where "loadPackset X r s w = (Inr ps, w')" "live = liveOf s ps"
  using assms by (auto simp: liveKeys_def run_simps)

lemma read_from_live: "ob \<in> read_from s \<Longrightarrow> or_Key ob \<in> set (liveOf s ps)"
  by (auto simp: read_from_def liveOf_def)

lemma checkGCCandidates_Inr:
  assumes "checkGCCandidates r live am cs w = (Inr u, w')" "c \<in> set cs"
  shows "gcc_Key c \<notin> set live" "\<not> HasPrefix (gcc_Key c) ''.git/git3/lfs/''"
proof -
  have "gcc_Key c \<notin> set live \<and> \<not> HasPrefix (gcc_Key c) ''.git/git3/lfs/''"
    using assms
  proof (induction cs arbitrary: w)
    case (Cons a cs)
    obtain x w1 where h: "onStore (st_Head (r_Store r) (gcc_Key a)) w = (x, w1)"
      by (cases "onStore (st_Head (r_Store r) (gcc_Key a)) w")
    from Cons.prems(1) h have a: "gcc_Key a \<notin> set live" "\<not> HasPrefix (gcc_Key a) ''.git/git3/lfs/''"
      by (auto simp only: checkGCCandidates.simps checkP_Inr_iff failIf_None)
    from Cons.prems(1) h have "checkGCCandidates r live am cs w1 = (Inr u, w')"
      by (cases x) (auto simp: checkP_Inr_iff split: if_splits)
    from a Cons.IH [OF this] Cons.prems(2) show ?case by auto
  qed simp
  then show "gcc_Key c \<notin> set live" "\<not> HasPrefix (gcc_Key c) ''.git/git3/lfs/''" by simp_all
qed

text \<open>Every candidate of a walk passed the tests of the callback.\<close>

definition collectable :: "string list \<Rightarrow> time \<Rightarrow> GCCandidate \<Rightarrow> bool" where
  "collectable live cutoff c \<longleftrightarrow>
     ValidateManagedKey (gcc_Key c) = None \<and> gcc_Key c \<notin> set live \<and> gcc_Key c \<noteq> HEAD_KEY \<and>
     \<not> HasPrefix (gcc_Key c) ''.git/git3/probes/'' \<and> \<not> HasPrefix (gcc_Key c) ''.git/git3/lfs/'' \<and>
     (\<exists>t. t < cutoff \<and> gcc_LastModified c = FormatTime t)"

lemma gcVisit_Inr:
  assumes "gcVisit live cutoff m acc = Inr acc'"
  shows "acc' = acc \<or> fst acc' = fst acc @ [gcCandidate m] \<and> collectable live cutoff (gcCandidate m)"
  using assms
  by (cases "ValidateManagedKey (md_Key m)")
    (auto simp only: gcVisit_def option.case Inl_Inr_False sum.inject fst_conv collectable_def gcCandidate_def
      GCCandidate.select_convs split: if_splits)

lemma visitAll_gc:
  "visitAll (gcVisit live cutoff) ms acc = Inr acc' \<Longrightarrow> \<forall>c \<in> set (fst acc). collectable live cutoff c \<Longrightarrow>
     \<forall>c \<in> set (fst acc'). collectable live cutoff c"
proof (induction ms arbitrary: acc)
  case (Cons m ms)
  from Cons.prems(1) obtain acc1 where v: "gcVisit live cutoff m acc = Inr acc1"
    and more: "visitAll (gcVisit live cutoff) ms acc1 = Inr acc'" by (auto split: sum.splits)
  from gcVisit_Inr [OF v] Cons.prems(2) have "\<forall>c \<in> set (fst acc1). collectable live cutoff c" by auto
  with more show ?case by (rule Cons.IH)
qed simp

section \<open>What a sweep leaves\<close>

context object_store
begin

text \<open>\<open>preserving K\<close>: every object under a key of \<open>K\<close> is still there, in the same version.\<close>

definition preserving :: "string set \<Rightarrow> 's \<times> 'g \<Rightarrow> 's \<times> 'g \<Rightarrow> bool" where
  "preserving K w w' \<longleftrightarrow>
     (\<forall>k \<in> K. \<forall>x. view (fst w) k = Some x \<longrightarrow> view (fst w') k = Some x)"

lemma preserving_po: "reflp (preserving K)" "transp (preserving K)"
  by (auto simp: preserving_def reflp_def transp_def)

lemma preserving_unchanged: "keeps unchanged m \<Longrightarrow> keeps (preserving K) m"
  unfolding keeps_def preserving_def by (metis unchangedD)

lemma preserving_uploading: "keeps uploading m \<Longrightarrow> keeps (preserving K) m"
  by (fastforce simp: keeps_def preserving_def uploads_def dest: uploadingD)

lemma preserving_guards: "guards X etag absent m \<Longrightarrow> HEAD_KEY \<notin> K \<Longrightarrow> keeps (preserving K) m"
  unfolding keeps_def guards_def preserving_def by (metis guarded_objects)

lemmas keeps_preserving =
  keeps_bindP [OF preserving_po] keeps_tryP [OF preserving_po(2)] keeps_checkP [OF preserving_po(1)]
  keeps_pure [OF preserving_po(1)] preserving_unchanged [OF keeps_local(1)]
  preserving_unchanged [OF keeps_NewString]

lemma keeps_head: "T = S \<Longrightarrow> keeps unchanged (onStore (st_Head T k))"
  unfolding keeps_def unchanged_def store_rel_def onStore_def
  by (auto split: prod.splits dest: head_view)

lemma keeps_walk: "T = S \<Longrightarrow> keeps unchanged (onStore (Walk T p visit acc))"
  unfolding keeps_def unchanged_def store_rel_def onStore_def
  by (auto split: prod.splits dest: walk_view)

lemma keeps_liveKeys: "r_Store r = S \<Longrightarrow> keeps unchanged (liveKeys X r s)"
  unfolding liveKeys_def by (auto intro!: keeps_unchanged keeps_loadPackset)

lemma keeps_checkGCCandidates: "r_Store r = S \<Longrightarrow> keeps unchanged (checkGCCandidates r live am cs)"
  by (induction cs) (auto intro!: keeps_unchanged keeps_head split: sum.splits)

lemma keeps_gcDryRun: "r_Store r = S \<Longrightarrow> keeps unchanged (gcDryRun X r cutoff)"
  unfolding gcDryRun_def
  by (auto intro!: keeps_unchanged keeps_ReadUnconditional keeps_liveKeys keeps_walk split: prod.splits)

lemma delete_preserving:
  assumes "k \<notin> K" "T = S"
  shows "keeps (preserving K) (onStore (st_Delete T k opts))"
  unfolding keeps_def
proof
  fix w
  obtain d s1 where d: "st_Delete S k opts (fst w) = (d, s1)" by (cases "st_Delete S k opts (fst w)")
  with assms delete_other [OF d] show "preserving K w (snd (onStore (st_Delete T k opts) w))"
    by (fastforce simp: preserving_def onStore_def)
qed

lemma deleteGCCandidates_preserving:
  "r_Store r = S \<Longrightarrow> \<forall>c \<in> set cs. gcc_Key c \<notin> K \<Longrightarrow> keeps (preserving K) (deleteGCCandidates r cs am)"
  by (induction cs) (auto intro!: keeps_preserving delete_preserving split: sum.splits)

lemma clearGCBarrier_guards:
  assumes r: "r_Store r = S"
  shows "guards X (rs_ETag s) False (clearGCBarrier X r s i op)"
  unfolding clearGCBarrier_def
  by (intro guards_checkP guards_bindP guards_end guards_publish [OF r] keeps_unchanged
      keeps_uploading [OF keeps_NewString]) (simp_all add: plainPublication_def)

text \<open>
  The check guards the deletion that follows it: what is live, and every LFS object, is not among
  the candidates that are deleted.
\<close>

lemma sweep_preserving:
  assumes r: "r_Store r = S" and K: "\<forall>k \<in> K. k \<in> set live \<or> HasPrefix k ''.git/git3/lfs/''"
    and m: "keeps (preserving K) (m :: ('s \<times> 'g, 'a) prog)"
  shows "keeps (preserving K) (bindP (checkGCCandidates r live am cs) (\<lambda>_.
    bindP (deleteGCCandidates r cs am) (\<lambda>_. m)))"
  unfolding keeps_def
proof
  fix w :: "'s \<times> 'g"
  let ?sweep = "bindP (deleteGCCandidates r cs am) (\<lambda>_. m)"
  obtain c w1 where chk: "checkGCCandidates r live am cs w = (c, w1)"
    by (cases "checkGCCandidates r live am cs w")
  have v1: "view (fst w1) = view (fst w)"
    by (rule unchangedD [OF keepsD [OF keeps_checkGCCandidates [OF r] chk]])
  show "preserving K w (snd (bindP (checkGCCandidates r live am cs) (\<lambda>_. ?sweep) w))"
  proof (cases c)
    case (Inl e)
    with chk v1 show ?thesis by (simp add: preserving_def)
  next
    case (Inr u)
    note ok = checkGCCandidates_Inr [OF chk [unfolded Inr]]
    have "\<forall>c \<in> set cs. gcc_Key c \<notin> K" using K ok by blast
    then have "keeps (preserving K) ?sweep"
      by (intro keeps_preserving deleteGCCandidates_preserving [OF r] m)
    then have "preserving K w1 (snd (?sweep w1))" unfolding keeps_def ..
    with chk v1 Inr show ?thesis by (simp add: preserving_def)
  qed
qed

lemma keeps_validateGCCandidates: "r_Store r = S \<Longrightarrow> keeps unchanged (validateGCCandidates X r s cs am)"
  unfolding validateGCCandidates_def
  by (auto intro!: keeps_unchanged keeps_liveKeys keeps_checkGCCandidates)

text \<open>A sweep whose plan names no key of \<open>K\<close>.\<close>

lemma gcSweep_preserving:
  assumes r: "r_Store r = S" and K: "HEAD_KEY \<notin> K" and cs: "\<forall>c \<in> set (gcp_Candidates plan). gcc_Key c \<notin> K"
  shows "keeps (preserving K) (gcSweep X r i plan)"
  unfolding gcSweep_def
  by (intro keeps_preserving deleteGCCandidates_preserving [OF r cs]
      preserving_unchanged [OF keeps_ReadUnconditional [OF r]]
      preserving_unchanged [OF keeps_validateGCCandidates [OF r]]
      preserving_guards [OF clearGCBarrier_guards [OF r] K])

end

lemma gcDryRun_Inr:
  assumes "gcDryRun X r cutoff w = (Inr (rep, s), w')"
  obtains live w1 w2 where "ReadUnconditional X r w = (Inr s, w1)" "liveKeys X r s w1 = (Inr live, w2)"
    "\<forall>c \<in> set (gcr_Candidates rep). collectable live cutoff c"
proof -
  from assms obtain live w1 w2 acc where
    rd: "ReadUnconditional X r w = (Inr s, w1)" "liveKeys X r s w1 = (Inr live, w2)"
    and walk: "onStore (Walk (r_Store r) ''.git/git3/'' (gcVisit live cutoff) ([], 0)) w2 = (Inr acc, w')"
    and rep: "set (gcr_Candidates rep) = set (fst acc)"
    by (auto simp: gcDryRun_def bindP_Inr_iff split: prod.splits)
  from walk obtain ms where "visitAll (gcVisit live cutoff) ms ([], 0) = Inr acc"
    by (auto simp: onStore_def Walk_def split: prod.splits sum.splits option.splits)
  from visitAll_gc [OF this] rep rd that show thesis by simp
qed

lemma gcKey_not_HEAD [simp]: "gcKey i \<noteq> HEAD_KEY"
  by (simp add: gcKey_def HEAD_KEY_def)

context object_store
begin

lemma gcStart_guards:
  "r_Store r = S \<Longrightarrow> guards X (rs_ETag s) False (publishHead X r h (gcStartPublication s i))"
  by (rule guards_publish) (simp_all add: gcStartPublication_def)

lemma GCExecute_preserving:
  assumes r: "r_Store r = S" and run: "GCExecute X r cutoff w = (res, w')"
    and rd: "ReadUnconditional X r w = (Inr s, w1)" "liveKeys X r s w1 = (Inr live, w2)"
    and K: "HEAD_KEY \<notin> K" "\<forall>k \<in> K. k \<in> set live \<or> HasPrefix k ''.git/git3/lfs/'' \<or> HasPrefix k ''.git/git3/probes/''"
  shows "preserving K w w'"
proof -
  obtain d w3 where dry: "gcDryRun X r cutoff w = (d, w3)" by (cases "gcDryRun X r cutoff w")
  have v3: "view (fst w3) = view (fst w)" by (rule unchangedD [OF keepsD [OF keeps_gcDryRun [OF r] dry]])
  show ?thesis
  proof (cases d)
    case (Inl e)
    with run dry v3 show ?thesis by (simp add: GCExecute_def preserving_def)
  next
    case (Inr ps)
    obtain rep s' where ps: "ps = (rep, s')" by (cases ps)
    from dry have "\<forall>c \<in> set (gcr_Candidates rep). collectable live cutoff c"
      unfolding Inr ps by (rule gcDryRun_Inr) (use rd in simp)
    with K(2) have cs: "\<forall>c \<in> set (gcp_Candidates (gcPlan i rep)). gcc_Key c \<notin> K" for i
      by (auto simp: collectable_def gcPlan_def)
    define m where "m = (\<lambda>i. checkP (GCPlan_Validate (x_ident X) (gcPlan i rep))
       (bindP (liftP (Marshal (x_json X) (x_GCPlan X) (gcPlan i rep))) (\<lambda>pb.
        bindP (immutable X r (gcKey i) pb) (\<lambda>ref.
        bindP (onLocal (total (x_Now X))) (\<lambda>now.
        bindP (NewString X) (\<lambda>pubID.
        bindP (publishHead X r
                 (republished ((rs_Head s')\<lparr>h_GCBarrier := Some \<lparr>gcb_PlanID = i,
                    gcb_CreatedAt = FormatTime now, gcb_Plan = ref\<rparr>\<rparr>) pubID)
                 (gcStartPublication s' i)) (\<lambda>_.
        gcSweep X r i (gcPlan i rep))))))))"
    have m: "keeps (preserving K) (m i)" for i
      unfolding m_def
      by (intro keeps_preserving preserving_guards [OF gcStart_guards [OF r] K(1)]
          preserving_uploading [OF keeps_immutable [OF r]] gcSweep_preserving [OF r K(1) cs]) simp
    have "GCExecute X r cutoff w = checkP (ensureWritePolicy r s')
     (checkP (failIf (h_GCBarrier (rs_Head s') \<noteq> None)
                (E GCBarrierActive ''gc'' (Errorf ''GC barrier active'' []))) (bindP (NewString X) m)) w3"
      using dry by (simp add: GCExecute_def Inr ps m_def Let_def)
    moreover have "keeps (preserving K) (checkP (ensureWritePolicy r s')
     (checkP (failIf (h_GCBarrier (rs_Head s') \<noteq> None)
                (E GCBarrierActive ''gc'' (Errorf ''GC barrier active'' []))) (bindP (NewString X) m)))"
      by (intro keeps_preserving m)
    ultimately have "preserving K w3 w'" using run by (metis keepsD)
    with v3 show ?thesis by (simp add: preserving_def)
  qed
qed

end

section \<open>What a reader sees afterwards\<close>

text \<open>
  \<open>reads_same X s v\<close>: a reader of \<open>v\<close> finds the log and the refs of \<open>s\<close>, possibly under a HEAD
  that was published again.
\<close>

definition reads_same :: "'g lib \<Rightarrow> RemoteState \<Rightarrow> view \<Rightarrow> bool" where
  "reads_same X s v \<longleftrightarrow>
     (\<exists>h t. readV X v = Inr (s\<lparr>rs_Head := h, rs_ETag := t\<rparr>) \<and> same_content (rs_Head s) h \<and>
        h_HeadSymref h = h_HeadSymref (rs_Head s))"

lemma reads_same_refl: "readV X v = Inr s \<Longrightarrow> reads_same X s v"
  unfolding reads_same_def by (intro exI [of _ "rs_Head s"] exI [of _ "rs_ETag s"]) (simp add: same_content_def)

lemma same_content_read_from:
  "same_content (rs_Head s) h \<Longrightarrow> read_from (s\<lparr>rs_Head := h, rs_ETag := t\<rparr>) = read_from s"
  by (simp add: read_from_def same_content_def)

lemma reads_same_moved:
  assumes "reads_same X s v" "v' HEAD_KEY = v HEAD_KEY"
    "\<And>ob. ob \<in> read_from s \<Longrightarrow> v (or_Key ob) \<noteq> None \<Longrightarrow> v' (or_Key ob) = v (or_Key ob)"
  shows "reads_same X s v'"
proof -
  from assms(1) obtain h t where rd: "readV X v = Inr (s\<lparr>rs_Head := h, rs_ETag := t\<rparr>)"
    and h: "same_content (rs_Head s) h" "h_HeadSymref h = h_HeadSymref (rs_Head s)"
    by (auto simp: reads_same_def)
  have "readV X v' = Inr (s\<lparr>rs_Head := h, rs_ETag := t\<rparr>)"
    using assms(2,3) by (intro readV_unmoved [OF rd]) (simp_all add: same_content_read_from [OF h(1)])
  with h show ?thesis by (auto simp: reads_same_def)
qed

lemma reads_same_uploads:
  assumes "reads_same X s v" "uploads v v'"
  shows "reads_same X s v'"
  by (rule reads_same_moved [OF assms(1)]) (use assms(2) in \<open>auto simp: uploads_def\<close>)

lemma reads_same_publishes:
  assumes "reads_same X s v" "head_independent s" and codec: "codec_ok (x_json X) (x_Head X) MaxHead"
    and pub: "publishes X h' pub v v'" and h': "same_content (rs_Head s) h'" "h_HeadSymref h' = h_HeadSymref (rs_Head s)"
  shows "reads_same X s v'"
proof -
  from assms(1) obtain h t where rd: "readV X v = Inr (s\<lparr>rs_Head := h, rs_ETag := t\<rparr>)" (is "_ = Inr ?s")
    and h: "same_content (rs_Head s) h" "h_HeadSymref h = h_HeadSymref (rs_Head s)"
    by (auto simp: reads_same_def)
  have ind: "head_independent ?s"
    using assms(2) same_content_read_from [OF h(1)] by (simp add: head_independent_iff)
  have same: "same_content (rs_Head ?s) h'" using h(1) h'(1) by (simp add: same_content_def)
  have sym: "fmlookup (rs_Refs ?s) x \<noteq> None" if "h_HeadSymref h' = Some x" for x
    using readV_symref [OF rd, of x] that h(2) h'(2) by simp
  show ?thesis
    by (rule publishes_again [OF rd ind uploads_refl pub codec same sym])
      (use h' in \<open>auto simp: reads_same_def\<close>)
qed

context object_store
begin

lemma publish_reads_same:
  assumes r: "r_Store r = S" and codec: "codec_ok (x_json X) (x_Head X) MaxHead"
    and rd: "reads_same X s (view (fst w))" and ind: "head_independent s"
    and h': "same_content (rs_Head s) h'" "h_HeadSymref h' = h_HeadSymref (rs_Head s)"
    and run: "publishHead X r h' pub w = (res, w')"
  shows "reads_same X s (view (fst w'))"
  using publishHead_view [OF r run] rd reads_same_publishes [OF rd ind codec _ h'] by auto

lemma clear_reads_same:
  assumes r: "r_Store r = S" and codec: "codec_ok (x_json X) (x_Head X) MaxHead"
    and rd: "reads_same X s (view (fst w))" and ind: "head_independent s"
    and s': "same_content (rs_Head s) (rs_Head s')" "h_HeadSymref (rs_Head s') = h_HeadSymref (rs_Head s)"
    and run: "clearGCBarrier X r s' i op w = (res, w')"
  shows "reads_same X s (view (fst w'))"
proof (cases "h_GCBarrier (rs_Head s') = None \<or> gcb_PlanID (the (h_GCBarrier (rs_Head s'))) \<noteq> i")
  case True
  with run rd show ?thesis by (auto simp: clearGCBarrier_def)
next
  case False
  obtain i1 w1 where new: "NewString X w = (i1, w1)" by (cases "NewString X w")
  have rd1: "reads_same X s (view (fst w1))"
    using unchangedD [OF keepsD [OF keeps_NewString new]] rd by simp
  show ?thesis
  proof (cases i1)
    case (Inl e)
    with run False new rd1 show ?thesis by (simp add: clearGCBarrier_def)
  next
    case (Inr pubID)
    let ?h = "republished ((rs_Head s')\<lparr>h_GCBarrier := None\<rparr>) pubID"
    obtain res1 where pub: "publishHead X r ?h (plainPublication s' op ''GC barrier changed'') w1 = (res1, w')"
      using run False new Inr
      by (cases "publishHead X r ?h (plainPublication s' op ''GC barrier changed'') w1")
        (auto simp: clearGCBarrier_def bindP_def split: sum.splits)
    have "same_content (rs_Head s) ?h" "h_HeadSymref ?h = h_HeadSymref (rs_Head s)"
      using s' by (simp_all add: same_content_def republished_def)
    from publish_reads_same [OF r codec rd1 ind this pub] show ?thesis .
  qed
qed

end

text \<open>As a relation that the steps of a collection keep.\<close>

lemma keepsI: "(\<And>w res w'. m w = (res, w') \<Longrightarrow> R w w') \<Longrightarrow> keeps R m"
  unfolding keeps_def by (metis prod.collapse)

context object_store
begin

definition keeping :: "'g lib \<Rightarrow> RemoteState \<Rightarrow> 's \<times> 'g \<Rightarrow> 's \<times> 'g \<Rightarrow> bool" where
  "keeping X s w w' \<longleftrightarrow> (reads_same X s (view (fst w)) \<longrightarrow> reads_same X s (view (fst w')))"

lemma keeping_po: "reflp (keeping X s)" "transp (keeping X s)"
  by (auto simp: keeping_def reflp_def transp_def)

lemma keeping_uploading: "keeps uploading m \<Longrightarrow> keeps (keeping X s) m"
  unfolding keeps_def keeping_def by (metis reads_same_uploads uploadingD)

lemma keeping_publish:
  "r_Store r = S \<Longrightarrow> codec_ok (x_json X) (x_Head X) MaxHead \<Longrightarrow> head_independent s \<Longrightarrow>
     same_content (rs_Head s) h' \<Longrightarrow> h_HeadSymref h' = h_HeadSymref (rs_Head s) \<Longrightarrow>
     keeps (keeping X s) (publishHead X r h' pub)"
  by (rule keepsI, unfold keeping_def, rule impI, rule publish_reads_same)

lemmas keeps_keeping =
  keeps_bindP [OF keeping_po] keeps_tryP [OF keeping_po(2)] keeps_checkP [OF keeping_po(1)]
  keeps_pure [OF keeping_po(1)] keeping_uploading [OF keeps_local(2)]
  keeping_uploading [OF keeps_uploading [OF keeps_NewString]]

end

text \<open>How a sequence can end: in its first step, or in the rest.\<close>

lemma bindP_cases:
  assumes "bindP m f w = (res, w')"
  obtains (stop) e where "m w = (Inl e, w')" | (go) x w1 where "m w = (Inr x, w1)" "f x w1 = (res, w')"
  using assms by (auto simp: bindP_def split: prod.splits sum.splits)

lemma checkP_cases:
  assumes "checkP c m w = (res, w')"
  obtains (stop) "w' = w" | (go) "c = None" "m w = (res, w')"
  using assms by (auto simp: checkP_def split: option.splits)

text \<open>A sweep or a whole collection, however far it gets.\<close>

context reliable_store
begin

lemma deleted_reads_same:
  assumes r: "r_Store r = S" and rd: "reads_same X s (view (fst w))"
    and live: "readV X (view (fst w)) = Inr s'" "liveKeys X r s' w1 = (Inr live, w2)"
    and v: "view (fst w) = view (fst w3)"
    and chk: "checkGCCandidates r live am cs w2 = (Inr (), w3)"
    and del: "deleteGCCandidates r cs am w3 = (res, w4)"
  shows "reads_same X s (view (fst w4))"
proof -
  have "\<forall>c \<in> set cs. gcc_Key c \<notin> set live" using checkGCCandidates_Inr(1) [OF chk] by blast
  from keepsD [OF deleteGCCandidates_preserving [OF r this] del]
  have keep: "view (fst w4) k = view (fst w) k" if "k \<in> set live" "view (fst w) k \<noteq> None" for k
    using that by (auto simp: preserving_def v)
  from live(2) obtain ps where ps: "live = liveOf s' ps" by (rule liveKeys_Inr)
  from rd live(1) have from': "read_from s' = read_from s"
    by (auto simp: reads_same_def same_content_read_from)
  have "HEAD_KEY \<in> set live" by (simp add: ps liveOf_def)
  moreover have "view (fst w) HEAD_KEY \<noteq> None" using live(1) by (auto elim: readV_Inr)
  ultimately have "view (fst w4) HEAD_KEY = view (fst w) HEAD_KEY" by (rule keep)
  moreover have "view (fst w4) (or_Key ob) = view (fst w) (or_Key ob)"
    if "ob \<in> read_from s" "view (fst w) (or_Key ob) \<noteq> None" for ob
    using that read_from_live [of ob s' ps] from' by (intro keep) (simp_all add: ps)
  ultimately show ?thesis by (rule reads_same_moved [OF rd])
qed

lemma sweep_reads_same:
  assumes r: "r_Store r = S" and codec: "codec_ok (x_json X) (x_Head X) MaxHead" and ind: "head_independent s"
    and rd: "reads_same X s (view (fst w))" and now: "readV X (view (fst w)) = Inr s'"
    and run: "bindP (validateGCCandidates X r s' cs am) (\<lambda>_. bindP (deleteGCCandidates r cs am) (\<lambda>_.
      clearGCBarrier X r s' i op)) w = (res, w')"
  shows "reads_same X s (view (fst w'))"
proof -
  have same: "same_content (rs_Head s) (rs_Head s')" "h_HeadSymref (rs_Head s') = h_HeadSymref (rs_Head s)"
    using rd now by (auto simp: reads_same_def)
  have keep: "view (fst w1) = view (fst w)" if "validateGCCandidates X r s' cs am w = (x, w1)" for x w1
    using unchangedD [OF keepsD [OF keeps_validateGCCandidates [OF r] that]] .
  from run show ?thesis
  proof (cases rule: bindP_cases)
    case (stop e)
    then show ?thesis using rd keep [OF stop] by simp
  next
    case (go x w3)
    from go(1) obtain live w2 where live: "liveKeys X r s' w = (Inr live, w2)"
      and chk: "checkGCCandidates r live am cs w2 = (Inr (), w3)"
      by (auto simp: validateGCCandidates_def bindP_Inr_iff)
    have del: "reads_same X s (view (fst w4))" if "deleteGCCandidates r cs am w3 = (y, w4)" for y w4
      by (rule deleted_reads_same [OF r rd now live _ chk that]) (simp add: keep [OF go(1)])
    from go(2) show ?thesis
    proof (cases rule: bindP_cases)
      case (stop e)
      then show ?thesis by (rule del)
    next
      case (go y w4)
      show ?thesis by (rule clear_reads_same [OF r codec del [OF go(1)] ind same go(2)])
    qed
  qed
qed

lemma gcSweep_reads_same:
  assumes r: "r_Store r = S" and codec: "codec_ok (x_json X) (x_Head X) MaxHead" and ind: "head_independent s"
    and rd: "reads_same X s (view (fst w))" and run: "gcSweep X r i plan w = (res, w')"
  shows "reads_same X s (view (fst w'))"
proof -
  obtain got w1 where read: "ReadUnconditional X r w = (got, w1)" by (cases "ReadUnconditional X r w")
  note V = ReadUnconditional_view [OF r read]
  with rd have rd1: "reads_same X s (view (fst w1))" by simp
  from run [unfolded gcSweep_def] show ?thesis
  proof (cases rule: bindP_cases)
    case (go s' w1')
    with read V have "readV X (view (fst w1')) = Inr s'" "reads_same X s (view (fst w1'))" using rd1 by auto
    from go(2) show ?thesis
      by (cases rule: checkP_cases)
        (use sweep_reads_same [OF r codec ind \<open>reads_same X s (view (fst w1'))\<close> \<open>readV X (view (fst w1')) = Inr s'\<close>]
          \<open>reads_same X s (view (fst w1'))\<close> in auto)
  qed (use read rd1 in auto)
qed

lemma keeping_gcSweep:
  "r_Store r = S \<Longrightarrow> codec_ok (x_json X) (x_Head X) MaxHead \<Longrightarrow> head_independent s \<Longrightarrow>
     keeps (keeping X s) (gcSweep X r i plan)"
  by (rule keepsI, unfold keeping_def, rule impI, rule gcSweep_reads_same)

lemma GCExecute_reads_same:
  assumes r: "r_Store r = S" and codec: "codec_ok (x_json X) (x_Head X) MaxHead" and ind: "head_independent s"
    and rd: "readV X (view (fst w)) = Inr s" and run: "GCExecute X r cutoff w = (res, w')"
  shows "reads_same X s (view (fst w'))"
proof -
  obtain d w1 where dry: "gcDryRun X r cutoff w = (d, w1)" by (cases "gcDryRun X r cutoff w")
  have v1: "view (fst w1) = view (fst w)" by (rule unchangedD [OF keepsD [OF keeps_gcDryRun [OF r] dry]])
  have rd1: "reads_same X s (view (fst w1))" using reads_same_refl [OF rd] v1 by simp
  from run [unfolded GCExecute_def] show ?thesis
  proof (cases rule: bindP_cases)
    case (stop e)
    with dry rd1 show ?thesis by simp
  next
    case (go p w1')
    obtain rep s' where p: "p = (rep, s')" by (cases p)
    obtain lv u1 u2 where "ReadUnconditional X r w = (Inr s', u1)" using go(1) unfolding p by (rule gcDryRun_Inr)
    from ReadUnconditional_view(1) [OF r this] rd have s': "s' = s" by simp
    note steps = keeping_uploading [OF keeps_immutable [OF r]] keeping_publish [OF r codec ind]
      keeping_gcSweep [OF r codec ind]
    have "keeping X s w1' w'"
      using go(2) unfolding p prod.case s' Let_def
      by (rule keepsD [where w = w1', rotated], intro keeps_keeping steps) simp_all
    moreover have "w1' = w1" using dry go(1) by simp
    ultimately show ?thesis using rd1 by (simp only: keeping_def)
  qed
qed

lemma GCResume_reads_same:
  assumes r: "r_Store r = S" and codec: "codec_ok (x_json X) (x_Head X) MaxHead" and ind: "head_independent s"
    and rd: "readV X (view (fst w)) = Inr s" and run: "GCResume X r i w = (res, w')"
  shows "reads_same X s (view (fst w'))"
proof -
  obtain got w1 where read: "ReadUnconditional X r w = (got, w1)" by (cases "ReadUnconditional X r w")
  note V = ReadUnconditional_view [OF r read]
  have now: "readV X (view (fst w1)) = Inr s" "got = Inr s" using V rd by simp_all
  note same = reads_same_refl [OF now(1)]
  define sweep where "sweep p = bindP (validateGCCandidates X r s (gcp_Candidates p) True) (\<lambda>_.
       bindP (deleteGCCandidates r (gcp_Candidates p) True) (\<lambda>_. clearGCBarrier X r s i ''gc-resume''))" for p :: GCPlan
  let ?b = "gcb_Plan (the (h_GCBarrier (rs_Head s)))"
  from run read now(2) have "checkP (ensureWritePolicy r s)
     (checkP (failIf (h_GCBarrier (rs_Head s) = None \<or> gcb_PlanID (the (h_GCBarrier (rs_Head s))) \<noteq> i)
                (Errorf ''GC plan is not active'' []))
     (bindP (verified X r ?b MaxPlan) (\<lambda>b.
      bindP (liftP (UnmarshalForward (x_json X) (x_GCPlan X) b MaxPlan)) (\<lambda>p.
      checkP (failIf (gcp_PlanID p \<noteq> i \<or> gcp_RepositoryID p \<noteq> h_RepositoryID (rs_Head s))
                (Errorf ''GC plan mismatch'' []))
      (checkP (GCPlan_Validate (x_ident X) p) (sweep p)))))) w1 = (res, w')"
    by (simp add: GCResume_def sweep_def)
  then show ?thesis
  proof (cases rule: checkP_cases)
    case go
    from go(2) show ?thesis
    proof (cases rule: checkP_cases)
      case go
      from go(2) show ?thesis
      proof (cases rule: bindP_cases)
        case (stop e)
        with unchangedD [OF keepsD [OF keeps_verified [OF r] stop]] same show ?thesis by simp
      next
        case (go b w2)
        have v2: "view (fst w2) = view (fst w1)" by (rule unchangedD [OF keepsD [OF keeps_verified [OF r] go(1)]])
        have sweeps: "reads_same X s (view (fst w'))" if "sweep p w2 = (res, w')" for p
          using sweep_reads_same [OF r codec ind _ _ that [unfolded sweep_def]] same now(1) v2 by simp
        from go(2) same v2 sweeps show ?thesis
          by (auto simp: bindP_def checkP_def split: sum.splits option.splits)
      qed
    qed (use same in simp)
  qed (use same in simp)
qed

end

text \<open>Setting the default branch: as before, or the new branch, which exists.\<close>

context object_store
begin

lemma SetHead_reads:
  assumes r: "r_Store r = S" and codec: "codec_ok (x_json X) (x_Head X) MaxHead"
    and rd: "readV X (view (fst w)) = Inr s" and ind: "head_independent s"
    and read: "\<And>s0 w1. Read X r w = (Inr s0, w1) \<Longrightarrow> rs_Head s0 = rs_Head s \<and> rs_Refs s0 = rs_Refs s"
    and run: "SetHead X r ref w = (res, w')"
  shows "readV X (view (fst w')) = Inr s \<or>
    (HasPrefix ref ''refs/heads/'' \<and> fmlookup (rs_Refs s) ref \<noteq> None \<and>
     (\<exists>t pubID. readV X (view (fst w')) =
       Inr (s\<lparr>rs_Head := republished ((rs_Head s)\<lparr>h_HeadSymref := Some ref\<rparr>) pubID, rs_ETag := t\<rparr>)))"
  using run [unfolded SetHead_def]
proof (cases rule: bindP_cases)
  case (stop e)
  with unchangedD [OF keepsD [OF keeps_Read [OF r] stop]] rd show ?thesis by simp
next
  case (go s0 w1)
  have v1: "view (fst w1) = view (fst w)" by (rule unchangedD [OF keepsD [OF keeps_Read [OF r] go(1)]])
  have s0: "rs_Head s0 = rs_Head s" "rs_Refs s0 = rs_Refs s" using read [OF go(1)] by simp_all
  show ?thesis
  proof (cases "ensureWritePolicy r s0 = None \<and> HasPrefix ref ''refs/heads/'' \<and> fmlookup (rs_Refs s) ref \<noteq> None")
    case False
    with go(2) v1 rd s0 show ?thesis by (auto simp: checkP_def split: option.splits)
  next
    case True
    from go(2) have "bindP (NewString X) (\<lambda>pubID.
      bindP (publishHead X r (republished ((rs_Head s)\<lparr>h_HeadSymref := Some ref\<rparr>) pubID)
               (plainPublication s0 ''set-head'' ''another publisher replaced HEAD'')) (\<lambda>_.
      returnP pubID)) w1 = (res, w')" using True s0 by simp
    then show ?thesis
    proof (cases rule: bindP_cases)
      case (stop e)
      with unchangedD [OF keepsD [OF keeps_NewString stop]] v1 rd show ?thesis by simp
    next
      case (go pubID w2)
      let ?h = "republished ((rs_Head s)\<lparr>h_HeadSymref := Some ref\<rparr>) pubID"
      have v2: "view (fst w2) = view (fst w)" using unchangedD [OF keepsD [OF keeps_NewString go(1)]] v1 by simp
      obtain y where pub: "publishHead X r ?h (plainPublication s0 ''set-head'' ''another publisher replaced HEAD'') w2 = (y, w')"
        using go(2) by (cases rule: bindP_cases) auto
      from publishHead_view [OF r pub] show ?thesis
      proof
        assume "publishes X ?h (plainPublication s0 ''set-head'' ''another publisher replaced HEAD'') (view (fst w2)) (view (fst w'))"
        then have pubs: "publishes X ?h (plainPublication s0 ''set-head'' ''another publisher replaced HEAD'')
          (view (fst w)) (view (fst w'))" by (simp only: v2)
        obtain t where "readV X (view (fst w')) = Inr (s\<lparr>rs_Head := ?h, rs_ETag := t\<rparr>)"
          by (rule publishes_again [OF rd ind uploads_refl pubs codec])
            (use True in \<open>simp_all add: republished_def same_content_def\<close>)
        with True show ?thesis by blast
      qed (use v2 rd in simp)
    qed
  qed
qed

end

section \<open>Checks only read\<close>

context object_store
begin

lemma keeps_checkEnvelopes: "r_Store r = S \<Longrightarrow> keeps unchanged (checkEnvelopes X r es)"
  by (induction es) (auto intro!: keeps_unchanged keeps_verified)

lemma keeps_checkPackSizes: "r_Store r = S \<Longrightarrow> keeps unchanged (checkPackSizes r ps)"
  by (induction ps) (auto intro!: keeps_unchanged keeps_head)

lemma keeps_Fsck: "r_Store r = S \<Longrightarrow> keeps unchanged (Fsck X r full)"
  unfolding Fsck_def verifyDescriptorGraph_def
  by (auto intro!: keeps_all keeps_ReadUnconditional keeps_checkEnvelopes keeps_loadPackset
      keeps_checkPackSizes keeps_fetchState simp: scratch_repository_def)

lemma keeps_Doctor: "r_Store r = S \<Longrightarrow> keeps unchanged (Doctor X rt r threshold)"
  unfolding Doctor_def Let_def
  by (auto intro!: keeps_unchanged keeps_ReadUnconditional split: sum.splits)

end

section \<open>The write probe\<close>

lemma Probe_memory:
  assumes "r_Store r = MemoryStore H"
  shows "memory_view (fst (snd (Probe X r w))) = memory_view (fst w) \<and>
    (fst (Probe X r w) = Inr () \<longleftrightarrow> memory_view (fst w) (''.git/git3/probes/'' @ fst (x_NewString X (snd w))) = None)"
proof -
  obtain m g where w: "w = (m, g)" by (cases w)
  obtain i g' where i: "x_NewString X g = (i, g')" by (cases "x_NewString X g")
  have "NewString X w = (Inr i, (m, g'))" by (simp add: NewString_def onLocal_def total_def w i)
  then show ?thesis
    using assms
    by (auto simp: Probe_def w i MemoryStore_def onStore_def bindP_def Memory_Put_def Memory_Delete_def Let_def
        put_absent_def memory_view_def fun_eq_iff split: option.splits)
qed

end
