(* ===== verification/Git3_Maintenance.thy ===== *)
theory Git3_Maintenance
  imports Git3_AdminSafe "HOL-Library.Multiset"
begin

text \<open>
  Compaction of the packs and of the log (\<^verbatim>\<open>Maintenance\<close> and its helpers in
  \<^verbatim>\<open>src/internal/engine/admin.go\<close>): the refs at the packset's generation, the choice of a
  target generation, the upload of packs, the merging of full levels, and the publication.

  \<^verbatim>\<open>sort.Slice\<close> is \<open>sort_key\<close>; it may order equal keys differently, but a level with two equal
  checksums and a packset with two equal levels are rejected by the validation. The loop over
  full levels runs on fuel; \<open>compaction_ends\<close> shows that one more step than there are packs is
  never needed.
\<close>

section \<open>Refs at the packset's generation\<close>

definition undoUpdates :: "Update list \<Rightarrow> refs \<Rightarrow> refs" where
  "undoUpdates us refs = foldr (\<lambda>u m. fmput (up_Ref u) (up_Old u) m) us refs"

definition refsAtFloor :: "RemoteState \<Rightarrow> refs" where
  "refsAtFloor s =
     foldr (\<lambda>t refs. if tx_Generation t \<le> psp_Generation (h_Packset (rs_Head s)) then refs
                     else undoUpdates (tx_Updates t) refs)
       (rs_Transactions s) (rs_Refs s)"

text \<open>The bytes a transaction adds.\<close>

definition objectBytes :: "Transaction \<Rightarrow> u64" where
  "objectBytes t = (case tx_ObjectData t of None \<Rightarrow> 0 | Some d \<Rightarrow> or_Size (od_Object d))"

text \<open>The loop that advances the target while the budget lasts.\<close>

fun boundedTarget ::
  "u64 \<Rightarrow> u64 \<Rightarrow> Transaction list \<Rightarrow> u64 \<Rightarrow> u64 \<times> string option \<times> refs \<Rightarrow>
     (u64 \<times> string option \<times> refs) res"
where
  "boundedTarget flr budget [] used tgt = Inr tgt"
| "boundedTarget flr budget (t # ts) used (gen, txid, refs) =
     (if tx_Generation t \<le> flr then boundedTarget flr budget ts used (gen, txid, refs)
      else if used + objectBytes t > budget then Inr (gen, txid, refs)
      else (case Apply refs [t] of
          (_, Some e) \<Rightarrow> Inl e
        | (refs', None) \<Rightarrow>
            boundedTarget flr budget ts (used + objectBytes t)
              (tx_Generation t, Some (tx_TransactionID t), refs')))"

section \<open>Packs\<close>

definition fileDigest :: "'g lib \<Rightarrow> string \<Rightarrow> ('g, nat \<times> string) prog" where
  "fileDigest X path =
     bindP (os_ReadFile (x_OS X) path) (\<lambda>b. returnP (length b, digest X b))"

definition rangeSize :: int where
  "rangeSize = 64 * 2 ^ 20"

text \<open>The comparison of a stored object with a file of \<open>n\<close> bytes and digest \<open>sm\<close>.\<close>

definition sameStored ::
  "'g lib \<Rightarrow> 's Repository \<Rightarrow> string \<Rightarrow> nat \<Rightarrow> string \<Rightarrow> 's \<times> 'g \<Rightarrow> bool \<times> ('s \<times> 'g)"
where
  "sameStored X r key n sm w =
     (case onStore (st_Head (r_Store r) key) w of
        (Inl e, w1) \<Rightarrow> (False, w1)
      | (Inr ob, w1) \<Rightarrow>
         (if md_Size ob \<noteq> int n then (False, w1)
          else (case copyRanges r key (of_nat n) (spans rangeSize (int n) 0) w1 of
              (k, w2) \<Rightarrow> (snd k = None \<and> digest X (fst k) = sm, w2))))"

definition uploadFile :: "'g lib \<Rightarrow> 's Repository \<Rightarrow> string \<Rightarrow> string \<Rightarrow> ('s \<times> 'g, ObjectRef) prog" where
  "uploadFile X r key path =
     bindP (onLocal (fileDigest X path)) (\<lambda>d.
     bindP (onLocal (os_ReadFile (x_OS X) path)) (\<lambda>body.
     (let ref = \<lparr>or_Key = key, or_Size = of_nat (fst d), or_SHA256 = snd d\<rparr> in
      tryP (onStore (st_Put (r_Store r) key (body, None) (int (fst d)) (put_absent (snd d)))) (\<lambda>put. case put of
        Inr _ \<Rightarrow> returnP ref
      | Inl e \<Rightarrow>
         (if errors_Is e ErrPrecondition
          then (\<lambda>w. case sameStored X r key (fst d) (snd d) w of
                 (eq, w1) \<Rightarrow> (if eq then Inr ref else Inl (Errorf ''immutable collision'' []), w1))
          else failP e)))))"

definition packKey :: "string \<Rightarrow> string \<Rightarrow> string" where
  "packKey checksum suffix = ''.git/git3/packs/pack-'' @ checksum @ suffix"

text \<open>The upload of a pack with its index, and the entry that describes them.\<close>

definition uploadPair ::
  "'g lib \<Rightarrow> 's Repository \<Rightarrow> string \<Rightarrow> string \<Rightarrow> string \<Rightarrow> ('s \<times> 'g, PackEntry) prog"
where
  "uploadPair X r checksum pack idx =
     bindP (uploadFile X r (packKey checksum ''.pack'') pack) (\<lambda>pr.
     bindP (uploadFile X r (packKey checksum ''.idx'') idx) (\<lambda>ir.
     bindP (onLocal (git_CountPackObjects (x_OS X) idx)) (\<lambda>count.
     returnP \<lparr>pe_GitPackChecksum = checksum, pe_ObjectCount = count, pe_Pack = pr, pe_Index = ir\<rparr>)))"

text \<open>A selected pack or index: taken from the local repository when it is intact, or downloaded.\<close>

definition localFile ::
  "'g lib \<Rightarrow> 's Repository \<Rightarrow> string \<Rightarrow> ObjectRef \<Rightarrow> goerr \<Rightarrow> ('s \<times> 'g, unit) prog"
where
  "localFile X r path ref err =
     tryP (onLocal (os_Stat (x_OS X) path)) (\<lambda>st. case st of
        Inl _ \<Rightarrow>
          bindP (downloadVerified X r ref (path @ ''.part'')) (\<lambda>_.
          onLocal (os_Rename (x_OS X) (path @ ''.part'') path))
      | Inr _ \<Rightarrow>
          tryP (onLocal (fileDigest X path)) (\<lambda>d. case d of
             Inl _ \<Rightarrow> failP err
           | Inr (n, sm) \<Rightarrow>
               checkP (failIf (of_nat n \<noteq> or_Size ref \<or> sm \<noteq> or_SHA256 ref) err) (returnP ())))"

fun selectPacks ::
  "'g lib \<Rightarrow> 's Repository \<Rightarrow> State \<Rightarrow> PackEntry list \<Rightarrow> ('s \<times> 'g, string list) prog"
where
  "selectPacks X r ls [] = returnP []"
| "selectPacks X r ls (p # ps) =
     (let pp = pack_path (ls_PackDir ls) (pe_GitPackChecksum p) ''.pack'';
          ip = pack_path (ls_PackDir ls) (pe_GitPackChecksum p) ''.idx'' in
      bindP (localFile X r pp (pe_Pack p) (Errorf ''selected local pack failed verification'' [])) (\<lambda>_.
      bindP (localFile X r ip (pe_Index p) (Errorf ''selected local index failed verification'' [])) (\<lambda>_.
      bindP (onLocal (verifyTrailer (x_OS X) pp (pe_GitPackChecksum p))) (\<lambda>_.
      bindP (onLocal (git_VerifyPack (x_OS X) (r_Git r) ip)) (\<lambda>_.
      bindP (selectPacks X r ls ps) (\<lambda>names.
      returnP ((''pack-'' @ pe_GitPackChecksum p @ ''.pack'') # names)))))))"

section \<open>Levels\<close>

definition addToLevel :: "u64 \<Rightarrow> PackEntry \<Rightarrow> PackLevel list \<Rightarrow> PackLevel list" where
  "addToLevel n e levels =
     map (\<lambda>l. if pl_Level l = n
              then l\<lparr>pl_Packs := sort_key pe_GitPackChecksum (pl_Packs l @ [e])\<rparr> else l) levels"

definition addPack :: "PackEntry \<Rightarrow> PackLevel list \<Rightarrow> PackLevel list" where
  "addPack e levels =
     (if 0 \<in> pl_Level ` set levels then addToLevel 0 e levels
      else \<lparr>pl_Level = 0, pl_Packs = [e]\<rparr> # levels)"

definition mergeInto :: "u64 \<Rightarrow> PackEntry \<Rightarrow> PackLevel list \<Rightarrow> PackLevel list" where
  "mergeInto n e levels =
     (if n \<in> pl_Level ` set levels then addToLevel n e levels
      else sort_key pl_Level (levels @ [\<lparr>pl_Level = n, pl_Packs = [e]\<rparr>]))"

text \<open>The first full level, and the levels without it.\<close>

fun takeFull :: "int \<Rightarrow> PackLevel list \<Rightarrow> (PackLevel \<times> PackLevel list) option" where
  "takeFull fanout [] = None"
| "takeFull fanout (l # ls) =
     (if int (length (pl_Packs l)) \<ge> fanout then Some (l, ls)
      else (case takeFull fanout ls of None \<Rightarrow> None | Some (sel, others) \<Rightarrow> Some (sel, l # others)))"

definition packCount :: "PackLevel list \<Rightarrow> nat" where
  "packCount levels = sum_list (map (\<lambda>l. length (pl_Packs l)) levels)"

text \<open>\<^verbatim>\<open>strings.TrimSuffix(strings.TrimPrefix(filepath.Base(path), prefix), ".pack")\<close>.\<close>

definition checksumOf :: "string \<Rightarrow> string \<Rightarrow> string" where
  "checksumOf pre path = TrimSuffix (TrimPrefix (filepath_Base path) pre) ''.pack''"

definition mergeLevel ::
  "'g lib \<Rightarrow> 's Repository \<Rightarrow> State \<Rightarrow> string \<Rightarrow> PackLevel \<Rightarrow> ('s \<times> 'g, PackEntry) prog"
where
  "mergeLevel X r ls tmp sel =
     bindP (selectPacks X r ls (pl_Packs sel)) (\<lambda>names.
     bindP (onLocal (git_MergePacks (x_OS X) (r_Git r) tmp names)) (\<lambda>(mp, mi).
     uploadPair X r (checksumOf ''merge-'' mp) mp mi))"

fun compactLevels ::
  "nat \<Rightarrow> 'g lib \<Rightarrow> 's Repository \<Rightarrow> State \<Rightarrow> string \<Rightarrow> int \<Rightarrow> PackLevel list \<Rightarrow>
     ('s \<times> 'g, PackLevel list) prog"
where
  "compactLevels 0 X r ls tmp fanout levels = failP OutOfFuel"
| "compactLevels (Suc k) X r ls tmp fanout levels =
     (case takeFull fanout levels of
        None \<Rightarrow> returnP levels
      | Some (sel, others) \<Rightarrow>
          bindP (mergeLevel X r ls tmp sel) (\<lambda>e.
          compactLevels k X r ls tmp fanout (mergeInto (pl_Level sel + 1) e others)))"

section \<open>Maintenance\<close>

record MaintenanceOptions =
  mo_Fanout :: int
  mo_MaxBytes :: int

definition effectiveFanout :: "int \<Rightarrow> int" where
  "effectiveFanout fanout = (if fanout < 2 then 4 else fanout)"

text \<open>The pack of the new objects, added at level zero, and the merges it causes.\<close>

definition newLevels ::
  "'g lib \<Rightarrow> 's Repository \<Rightarrow> State \<Rightarrow> RemoteState \<Rightarrow> string \<Rightarrow> refs \<Rightarrow> int \<Rightarrow> PackLevel list \<Rightarrow>
     ('s \<times> 'g, PackLevel list) prog"
where
  "newLevels X r ls s tmp targetRefs fanout levels =
     bindP (onLocal (git_CreatePack (x_OS X) (r_Git r) tmp (ref_values targetRefs)
              (ref_values (refsAtFloor s)))) (\<lambda>(pack, idx).
     bindP (uploadPair X r (checksumOf ''pack-'' pack) pack idx) (\<lambda>e.
     (let levels' = addPack e levels in
      compactLevels (Suc (packCount levels')) X r ls tmp (effectiveFanout fanout) levels')))"

definition maintenancePackset ::
  "RemoteState \<Rightarrow> string \<Rightarrow> u64 \<Rightarrow> string option \<Rightarrow> PackLevel list \<Rightarrow> Packset"
where
  "maintenancePackset s packID gen txid levels =
     \<lparr>ps_FormatVersion = 1, ps_RepositoryID = h_RepositoryID (rs_Head s),
      ps_ObjectFormat = h_ObjectFormat (rs_Head s), ps_PacksetID = packID, ps_Generation = gen,
      ps_TransactionID = txid, ps_Levels = (if levels = [] then None else Some levels)\<rparr>"

definition maintenanceSnapshot :: "RemoteState \<Rightarrow> Snapshot" where
  "maintenanceSnapshot s =
     \<lparr>sn_RepositoryID = h_RepositoryID (rs_Head s), sn_ObjectFormat = h_ObjectFormat (rs_Head s),
      sn_Generation = h_LogicalGeneration (rs_Head s), sn_TransactionID = h_TransactionID (rs_Head s),
      sn_Refs = rs_Refs s\<rparr>"

definition maintenanceHead ::
  "Head \<Rightarrow> u64 \<Rightarrow> string option \<Rightarrow> string \<Rightarrow> ObjectRef \<Rightarrow> string \<Rightarrow> ObjectRef \<Rightarrow> string \<Rightarrow> Head"
where
  "maintenanceHead h gen txid packID psref snapID sref pubID =
     h\<lparr>h_Packset := \<lparr>psp_PacksetID = packID, psp_Generation = gen, psp_TransactionID = txid,
         psp_Object = psref\<rparr>,
       h_RefSnapshot := \<lparr>snp_SnapshotID = snapID, snp_Generation = h_LogicalGeneration h,
         snp_TransactionID = h_TransactionID h, snp_Object = sref\<rparr>,
       h_Log := (h_Log h)\<lparr>log_FloorGeneration := gen, log_FloorTransactionID := txid,
         log_Tail := Some (filter (\<lambda>e. tx_Generation (env_Transaction e) > gen)
            (case_option [] id (log_Tail (h_Log h)))),
         log_TipPage := (case log_TipPage (h_Log h) of
             None \<Rightarrow> None
           | Some p \<Rightarrow> if pp_LastGeneration p \<le> gen then None else Some p)\<rparr>,
       h_ManifestRevision := h_ManifestRevision h + 1,
       h_PublicationID := pubID\<rparr>"

definition maintenancePublication :: "RemoteState \<Rightarrow> string \<Rightarrow> headPublication" where
  "maintenancePublication s packID =
     \<lparr>hp_operation = ''maintenance'', hp_expectedETag = rs_ETag s, hp_ifAbsent = False,
      hp_conflict = ''another publisher replaced HEAD'',
      hp_confirm = Some (\<lambda>observed _. (psp_PacksetID (h_Packset (rs_Head observed)) = packID, None))\<rparr>"

text \<open>From the computed levels to the new HEAD, and its publication.\<close>

definition prepareMaintenance ::
  "'g lib \<Rightarrow> 's Repository \<Rightarrow> RemoteState \<Rightarrow> u64 \<Rightarrow> string option \<Rightarrow> PackLevel list \<Rightarrow>
     ('s \<times> 'g, string \<times> Head) prog"
where
  "prepareMaintenance X r s gen txid levels =
     bindP (NewString X) (\<lambda>packID.
     bindP (NewString X) (\<lambda>snapID.
     (let ps = maintenancePackset s packID gen txid levels in
      checkP (Packset_Validate (x_ident X) ps)
      (bindP (liftP (Marshal (x_json X) (x_Packset X) ps)) (\<lambda>psb.
       bindP (immutable X r (packsetKey packID) psb) (\<lambda>psref.
       bindP (liftP (MarshalText (x_ident X) (maintenanceSnapshot s))) (\<lambda>sb.
       bindP (immutable X r (snapshotKey snapID) sb) (\<lambda>sref.
       bindP (NewString X) (\<lambda>pubID.
       (let h = maintenanceHead (rs_Head s) gen txid packID psref snapID sref pubID in
        bindP (validateBootstrap X r h (rs_Transactions s) (rs_Refs s)) (\<lambda>_.
        returnP (packID, h))))))))))))"

definition publishMaintenance ::
  "'g lib \<Rightarrow> 's Repository \<Rightarrow> RemoteState \<Rightarrow> u64 \<Rightarrow> string option \<Rightarrow> PackLevel list \<Rightarrow>
     ('s \<times> 'g, string) prog"
where
  "publishMaintenance X r s gen txid levels =
     bindP (prepareMaintenance X r s gen txid levels) (\<lambda>(packID, h).
     bindP (publishHead X r h (maintenancePublication s packID)) (\<lambda>_.
     returnP (h_PublicationID h)))"

text \<open>The choice of the target: everything, or as much as the byte budget allows.\<close>

definition maintenanceTarget :: "RemoteState \<Rightarrow> int \<Rightarrow> (u64 \<times> string option \<times> refs) res" where
  "maintenanceTarget s maxBytes =
     (if maxBytes > 0
      then boundedTarget (psp_Generation (h_Packset (rs_Head s))) (of_int maxBytes) (rs_Transactions s) 0
             (psp_Generation (h_Packset (rs_Head s)), psp_TransactionID (h_Packset (rs_Head s)), refsAtFloor s)
      else Inr (h_LogicalGeneration (rs_Head s), h_TransactionID (rs_Head s), rs_Refs s))"

definition maintainFrom ::
  "'g lib \<Rightarrow> 's Repository \<Rightarrow> MaintenanceOptions \<Rightarrow> State \<Rightarrow> RemoteState \<Rightarrow> Packset \<Rightarrow>
     ('s \<times> 'g, string) prog"
where
  "maintainFrom X r options ls s old =
     (let h = rs_Head s in
      if psp_Generation (h_Packset h) = h_LogicalGeneration h \<and>
         snp_Generation (h_RefSnapshot h) = h_LogicalGeneration h
      then returnP (h_PublicationID h)
      else
        bindP (liftP (maintenanceTarget s (mo_MaxBytes options))) (\<lambda>(gen, txid, refs).
        if mo_MaxBytes options > 0 \<and> gen = psp_Generation (h_Packset h)
        then returnP (h_PublicationID h)
        else
          (let levels = case_option [] id (ps_Levels old) in
           if psp_Generation (h_Packset h) < gen
           then
             bindP (onLocal (os_MkdirTemp (x_OS X) (ls_Root ls) ''maintenance-'')) (\<lambda>tmp.
             finallyP
               (bindP (newLevels X r ls s tmp refs (mo_Fanout options) levels) (\<lambda>levels'.
                publishMaintenance X r s gen txid levels'))
               (onLocal (os_RemoveAll (x_OS X) tmp)))
           else publishMaintenance X r s gen txid levels)))"

definition maintainState ::
  "'g lib \<Rightarrow> 's Repository \<Rightarrow> MaintenanceOptions \<Rightarrow> RemoteState \<Rightarrow> ('s \<times> 'g, string) prog"
where
  "maintainState X r options s =
     checkP (failIf (h_GCBarrier (rs_Head s) \<noteq> None)
               (E GCBarrierActive ''maintenance'' (Errorf ''GC barrier active'' [])))
     (checkP (ensureWritePolicy r s)
     (bindP (onLocal (git_IsComplete (x_OS X) (r_Git r))) (\<lambda>_.
      bindP (onLocal (Resolve X (r_Git r) (h_RepositoryID (rs_Head s)))) (\<lambda>ls.
      bindP (onLocal (State_Lock X ls)) (\<lambda>_.
      finallyP
        (bindP (onLocal (git_VerifyConnectivity (x_OS X) (r_Git r) (rs_Refs s))) (\<lambda>_.
         bindP (loadPackset X r s) (\<lambda>old.
         maintainFrom X r options ls s old)))
        (onLocal (Lock_Close X ls)))))))"

definition Maintenance ::
  "'g lib \<Rightarrow> 's Repository \<Rightarrow> MaintenanceOptions \<Rightarrow> ('s \<times> 'g, string) prog"
where
  "Maintenance X r options =
     bindP (onLocal (git_RequireVersion (x_OS X) (r_Git r) 2 38)) (\<lambda>_.
     bindP (ReadUnconditional X r) (\<lambda>s.
     maintainState X r options s))"

section \<open>Undoing and choosing\<close>

lemma undo_applyUpdates: "applyUpdates refs us = (refs', None) \<Longrightarrow> undoUpdates us refs' = refs"
proof (induction us arbitrary: refs)
  case (Cons u us)
  from Cons.prems have old: "fmlookup refs (up_Ref u) = up_Old u"
    and step: "applyUpdates (fmput (up_Ref u) (up_New u) refs) us = (refs', None)"
    by (auto simp: old_mismatch_iff split: if_splits)
  have "undoUpdates (u # us) refs' = fmput (up_Ref u) (up_Old u) (fmput (up_Ref u) (up_New u) refs)"
    using Cons.IH [OF step] by (simp add: undoUpdates_def)
  also have "\<dots> = refs" using old by (intro fmap_ext) simp
  finally show ?case .
qed (simp add: undoUpdates_def)

lemma undo_Apply:
  assumes "Apply refs (filter (\<lambda>t. tx_Generation t > flr) txs) = (refs', None)"
  shows "foldr (\<lambda>t m. if tx_Generation t \<le> flr then m else undoUpdates (tx_Updates t) m) txs refs' = refs"
  using assms
proof (induction txs arbitrary: refs)
  case (Cons t txs)
  show ?case
  proof (cases "tx_Generation t \<le> flr")
    case False
    with Cons.prems obtain refs1 where "applyUpdates refs (tx_Updates t) = (refs1, None)"
      and "Apply refs1 (filter (\<lambda>t. tx_Generation t > flr) txs) = (refs', None)"
      by (auto simp: not_le split: prod.splits option.splits)
    with Cons.IH undo_applyUpdates False show ?thesis by auto
  qed (use Cons in \<open>simp add: leD\<close>)
qed simp

text \<open>The number of bytes of a list of transactions.\<close>

definition totalBytes :: "Transaction list \<Rightarrow> nat" where
  "totalBytes ts = sum_list (map (\<lambda>t. unat (objectBytes t)) ts)"

lemma boundedTarget_spec:
  assumes "unat used + totalBytes (filter (\<lambda>t. tx_Generation t > flr) txs) < 2 ^ 64"
    and "Apply refs (filter (\<lambda>t. tx_Generation t > flr) txs) = (refs', None)"
  shows "\<exists>pre suf refs1. filter (\<lambda>t. tx_Generation t > flr) txs = pre @ suf \<and>
    Apply refs pre = (refs1, None) \<and>
    boundedTarget flr budget txs used (gen, txid, refs) =
      Inr (if pre = [] then gen else tx_Generation (last pre),
           if pre = [] then txid else Some (tx_TransactionID (last pre)), refs1) \<and>
    (pre \<noteq> [] \<longrightarrow> unat used + totalBytes pre \<le> unat budget) \<and>
    (suf \<noteq> [] \<longrightarrow> unat used + totalBytes (pre @ [hd suf]) > unat budget)"
  using assms
proof (induction txs arbitrary: used gen txid refs)
  case Nil
  then show ?case by (intro exI [of _ "[]"]) simp
next
  case (Cons t txs)
  let ?f = "filter (\<lambda>t. tx_Generation t > flr)"
  show ?case
  proof (cases "tx_Generation t \<le> flr")
    case True
    then have fe: "?f (t # txs) = ?f txs" and
      be: "boundedTarget flr budget (t # txs) used (gen, txid, refs) = boundedTarget flr budget txs used (gen, txid, refs)"
      by (simp_all add: leD)
    show ?thesis unfolding fe be by (rule Cons.IH [OF Cons.prems [unfolded fe]])
  next
    case False
    then have ft: "?f (t # txs) = t # ?f txs" by simp
    from Cons.prems(1) have small: "unat used + unat (objectBytes t) + totalBytes (?f txs) < 2 ^ 64"
      by (simp add: ft totalBytes_def del: filter.simps)
    then have add: "unat (used + objectBytes t) = unat used + unat (objectBytes t)"
      by (intro unat_plus_simple [THEN iffD1]) (simp add: no_olen_add_nat)
    show ?thesis
    proof (cases "used + objectBytes t > budget")
      case True
      then have "unat used + totalBytes [t] > unat budget"
        by (simp add: totalBytes_def word_less_nat_alt add)
      with True False ft show ?thesis
        by (intro exI [of _ "[]"] exI [of _ "t # ?f txs"]) simp
    next
      case le: False
      from Cons.prems(2) obtain refs1 where app: "Apply refs [t] = (refs1, None)"
        and rest': "Apply refs1 (?f txs) = (refs', None)"
        unfolding ft by (auto split: prod.splits option.splits)
      from Cons.IH [OF _ rest', of "used + objectBytes t" "tx_Generation t" "Some (tx_TransactionID t)"] small
      obtain pre suf refs2 where ih: "?f txs = pre @ suf" "Apply refs1 pre = (refs2, None)"
        "boundedTarget flr budget txs (used + objectBytes t) (tx_Generation t, Some (tx_TransactionID t), refs1) =
          Inr (if pre = [] then tx_Generation t else tx_Generation (last pre),
            if pre = [] then Some (tx_TransactionID t) else Some (tx_TransactionID (last pre)), refs2)"
        "pre \<noteq> [] \<longrightarrow> unat (used + objectBytes t) + totalBytes pre \<le> unat budget"
        "suf \<noteq> [] \<longrightarrow> unat (used + objectBytes t) + totalBytes (pre @ [hd suf]) > unat budget"
        by (auto simp: add)
      have "unat used + totalBytes (t # pre) \<le> unat budget"
        using le ih(4) by (cases pre) (simp_all add: totalBytes_def add not_less word_le_nat_alt)
      moreover have "suf \<noteq> [] \<longrightarrow> unat used + totalBytes ((t # pre) @ [hd suf]) > unat budget"
        using ih(5) by (simp add: totalBytes_def add add.assoc)
      moreover have "boundedTarget flr budget (t # txs) used (gen, txid, refs) =
          Inr (tx_Generation (last (t # pre)), Some (tx_TransactionID (last (t # pre))), refs2)"
        using False le app ih(3) by simp
      moreover have "Apply refs (t # pre) = (refs2, None)"
        using app ih(2) by (auto split: prod.splits option.splits)
      ultimately show ?thesis
        unfolding ft using ih(1) by (intro exI [of _ "t # pre"] exI [of _ suf] exI [of _ refs2]) simp
    qed
  qed
qed

section \<open>Compaction ends\<close>

lemma takeFull_Some:
  "takeFull f ls = Some (sel, others) \<Longrightarrow> \<exists>xs ys. ls = xs @ sel # ys \<and> others = xs @ ys \<and> int (length (pl_Packs sel)) \<ge> f"
proof (induction ls arbitrary: others)
  case (Cons l ls)
  show ?case
  proof (cases "int (length (pl_Packs l)) \<ge> f")
    case True
    with Cons.prems show ?thesis by (intro exI [of _ "[]"] exI [of _ ls]) simp
  next
    case False
    with Cons.prems obtain o' where "takeFull f ls = Some (sel, o')" "others = l # o'"
      by (auto split: option.splits)
    with Cons.IH [of o'] obtain xs ys where "ls = xs @ sel # ys" "others = (l # xs) @ ys"
      "int (length (pl_Packs sel)) \<ge> f" by auto
    then show ?thesis by (intro exI [of _ "l # xs"] exI [of _ ys]) simp
  qed
qed simp

lemma takeFull_None: "takeFull f ls = None \<Longrightarrow> l \<in> set ls \<Longrightarrow> int (length (pl_Packs l)) < f"
  by (induction ls) (auto split: if_splits option.splits)

lemma packCount_simps [simp]:
  "packCount [] = 0" "packCount (l # ls) = length (pl_Packs l) + packCount ls"
  "packCount (xs @ ys) = packCount xs + packCount ys"
  by (simp_all add: packCount_def)

lemma packCount_sort [simp]: "packCount (sort_key f ls) = packCount ls"
proof -
  have "packCount xs = sum_mset (image_mset (\<lambda>l. length (pl_Packs l)) (mset xs))" for xs
    by (simp add: packCount_def flip: sum_mset_sum_list)
  then show ?thesis by simp
qed

lemma addToLevel_levels [simp]: "map pl_Level (addToLevel n e ls) = map pl_Level ls"
  by (simp add: addToLevel_def)

lemma packCount_addToLevel:
  "distinct (map pl_Level ls) \<Longrightarrow> packCount (addToLevel n e ls) = packCount ls + (if n \<in> pl_Level ` set ls then 1 else 0)"
  by (induction ls) (auto simp: addToLevel_def packCount_def)

lemma mergeInto_props:
  assumes "distinct (map pl_Level ls)"
  shows "packCount (mergeInto n e ls) = packCount ls + 1" "distinct (map pl_Level (mergeInto n e ls))"
proof -
  have sorted: "distinct (map pl_Level (sort_key f xs)) = distinct (map pl_Level xs)" for f :: "PackLevel \<Rightarrow> u64" and xs
    by (intro mset_eq_imp_distinct_iff) simp
  show "packCount (mergeInto n e ls) = packCount ls + 1"
    using packCount_addToLevel [OF assms] by (simp add: mergeInto_def)
  show "distinct (map pl_Level (mergeInto n e ls))"
    using assms by (simp add: mergeInto_def sorted)
qed

lemma merge_step:
  assumes "takeFull f ls = Some (sel, others)" "distinct (map pl_Level ls)" "2 \<le> f"
  shows "packCount (mergeInto n e others) < packCount ls" "distinct (map pl_Level (mergeInto n e others))"
proof -
  obtain xs ys where ls: "ls = xs @ sel # ys" "others = xs @ ys" "int (length (pl_Packs sel)) \<ge> f"
    using takeFull_Some [OF assms(1)] by blast
  with assms(2) have d: "distinct (map pl_Level others)" by auto
  have "packCount others + 2 \<le> packCount ls" using ls assms(3) by simp
  with mergeInto_props [OF d, of n e] show "packCount (mergeInto n e others) < packCount ls"
    "distinct (map pl_Level (mergeInto n e others))" by simp_all
qed

lemma compactLevels_fuel:
  assumes "distinct (map pl_Level levels)" "2 \<le> fanout" "packCount levels \<le> k" "packCount levels \<le> k'"
  shows "compactLevels (Suc k) X r ls tmp fanout levels = compactLevels (Suc k') X r ls tmp fanout levels"
  using assms
proof (induction "packCount levels" arbitrary: levels k k' rule: less_induct)
  case less
  show ?case
  proof (cases "takeFull fanout levels")
    case (Some p)
    obtain sel others where p: "p = (sel, others)" by (cases p)
    note step = merge_step [OF Some [unfolded p] less.prems(1,2)]
    obtain j where j: "k = Suc j" using step(1) less.prems(3) by (cases k) auto
    obtain j' where j': "k' = Suc j'" using step(1) less.prems(4) by (cases k') auto
    have "compactLevels (Suc j) X r ls tmp fanout (mergeInto n e others) =
        compactLevels (Suc j') X r ls tmp fanout (mergeInto n e others)" for n e
    proof (rule less.hyps [OF step(1) step(2) less.prems(2)])
      show "packCount (mergeInto n e others) \<le> j" "packCount (mergeInto n e others) \<le> j'"
        using step(1) [of n e] less.prems(3,4) j j' by simp_all
    qed
    then show ?thesis using Some p j j' by simp
  qed simp
qed

lemma compactLevels_Inr:
  assumes "compactLevels k X r ls tmp fanout levels w = (Inr levels', w')" "distinct (map pl_Level levels)" "2 \<le> fanout"
  shows "distinct (map pl_Level levels')" "\<And>l. l \<in> set levels' \<Longrightarrow> int (length (pl_Packs l)) < fanout"
    "packCount levels' \<le> packCount levels"
proof -
  have "distinct (map pl_Level levels') \<and> (\<forall>l \<in> set levels'. int (length (pl_Packs l)) < fanout) \<and>
      packCount levels' \<le> packCount levels"
    using assms
  proof (induction k arbitrary: levels w)
    case (Suc k)
    show ?case
    proof (cases "takeFull fanout levels")
      case None
      with Suc.prems takeFull_None [OF None] show ?thesis by simp
    next
      case (Some p)
      obtain sel others where p: "p = (sel, others)" by (cases p)
      with Suc.prems(1) Some obtain e w1 where
        "compactLevels k X r ls tmp fanout (mergeInto (pl_Level sel + 1) e others) w1 = (Inr levels', w')"
        by (auto simp: bindP_Inr_iff)
      from Suc.IH [OF this] merge_step [OF Some [unfolded p] Suc.prems(2,3), of "pl_Level sel + 1" e] Suc.prems(3)
      show ?thesis by auto
    qed
  qed simp
  then show "distinct (map pl_Level levels')" "\<And>l. l \<in> set levels' \<Longrightarrow> int (length (pl_Packs l)) < fanout"
    "packCount levels' \<le> packCount levels" by blast+
qed

section \<open>What maintenance may change\<close>

lemma packKey_not_HEAD [simp]: "packKey c suf \<noteq> HEAD_KEY"
  by (simp add: packKey_def HEAD_KEY_def)

context object_store
begin

lemma sameStored_view:
  assumes r: "r_Store r = S" and run: "sameStored X r key n sm w = (eq, w')"
  shows "view (fst w') = view (fst w)"
proof -
  obtain h w1 where h: "onStore (st_Head (r_Store r) key) w = (h, w1)" by (cases "onStore (st_Head (r_Store r) key) w")
  have v1: "view (fst w1) = view (fst w)" by (rule unchangedD [OF keepsD [OF keeps_head [OF r] h]])
  show ?thesis
  proof (cases h)
    case (Inr ob)
    obtain k w2 where k: "copyRanges r key (of_nat n) (spans rangeSize (int n) 0) w1 = (k, w2)"
      by (cases "copyRanges r key (of_nat n) (spans rangeSize (int n) 0) w1")
    have "view (fst w2) = view (fst w1)" using copyRanges_view [OF r k] .
    with run h k Inr v1 show ?thesis by (auto simp: sameStored_def split: if_splits)
  qed (use run h v1 in \<open>simp add: sameStored_def\<close>)
qed

lemma keeps_uploadFile:
  assumes r: "r_Store r = S" and key: "key \<noteq> HEAD_KEY"
  shows "keeps uploading (uploadFile X r key path)"
proof -
  have same: "keeps uploading (\<lambda>w. case sameStored X r key n sm w of
      (eq, w1) \<Rightarrow> (if eq then Inr ref else Inl (Errorf ''immutable collision'' []), w1))" for n sm and ref :: ObjectRef
    using sameStored_view [OF r]
    by (intro keeps_uploading) (auto simp: keeps_def unchanged_def store_rel_def split: prod.splits)
  have put: "keeps uploading (onStore (st_Put (r_Store r) key rd n (put_absent sha)))" for rd n sha
    unfolding r by (rule keeps_put_absent [OF key])
  show ?thesis
    unfolding uploadFile_def Let_def
    by (rule keeps_uploads put same | (split sum.split, intro conjI allI impI) | (split if_split, intro conjI impI))+
qed

lemma keeps_uploadPair: "r_Store r = S \<Longrightarrow> keeps uploading (uploadPair X r c pack idx)"
  unfolding uploadPair_def by (intro keeps_uploads keeps_uploadFile) simp_all

lemma keeps_selectPacks: "r_Store r = S \<Longrightarrow> keeps unchanged (selectPacks X r ls ps)"
  by (induction ps) (auto simp: localFile_def Let_def intro!: keeps_unchanged keeps_downloadVerified split: sum.splits)

lemma keeps_mergeLevel: "r_Store r = S \<Longrightarrow> keeps uploading (mergeLevel X r ls tmp sel)"
  unfolding mergeLevel_def
  by (auto intro!: keeps_uploads keeps_uploadPair keeps_uploading [OF keeps_selectPacks])

lemma keeps_compactLevels: "r_Store r = S \<Longrightarrow> keeps uploading (compactLevels k X r ls tmp fanout levels)"
  by (induction k arbitrary: levels) (auto intro!: keeps_uploads keeps_mergeLevel split: option.splits)

lemma keeps_newLevels: "r_Store r = S \<Longrightarrow> keeps uploading (newLevels X r ls s tmp refs fanout levels)"
  unfolding newLevels_def Let_def
  by (rule keeps_uploads keeps_uploadPair keeps_compactLevels | assumption | (split prod.split, intro allI impI))+

lemma guards_finallyP: "guards X etag absent m \<Longrightarrow> guards X etag absent (finallyP m (onLocal c))"
  by (simp add: guards_def finallyP_def tryP_def split_beta)

lemma keeps_prepareMaintenance:
  assumes r: "r_Store r = S"
  shows "keeps uploading (prepareMaintenance X r s gen txid levels)"
  unfolding prepareMaintenance_def Let_def
  by (intro keeps_uploads keeps_immutable [OF r] keeps_uploading [OF keeps_NewString]
      keeps_uploading [OF keeps_validateBootstrap [OF r]] keys_not_HEAD)

lemma guards_publishMaintenance:
  assumes r: "r_Store r = S"
  shows "guards X (rs_ETag s) False (publishMaintenance X r s gen txid levels)"
proof -
  have publish: "guards X (rs_ETag s) False (bindP (publishHead X r h (maintenancePublication s packID)) (\<lambda>_. returnP pubID))"
    for h packID and pubID :: string
    by (intro guards_end guards_publish [OF r] keeps_unchanged) (simp_all add: maintenancePublication_def)
  show ?thesis
    unfolding publishMaintenance_def split_beta
    by (rule guards_bindP [OF keeps_prepareMaintenance [OF r]]) (rule publish)
qed

lemma guards_maintainFrom:
  assumes r: "r_Store r = S"
  shows "guards X (rs_ETag s) False (maintainFrom X r options ls s old)"
  unfolding maintainFrom_def Let_def
  by (rule guards_publishMaintenance [OF r] guards_pure | rule guards_finallyP | rule guards_bindP | rule keeps_local(2)
      keeps_newLevels [OF r] keeps_pure(3) [OF uploading_po(1)]
      | (split prod.split, intro allI impI) | (split if_split, intro conjI impI))+

lemma guards_maintainState:
  assumes r: "r_Store r = S"
  shows "guards X (rs_ETag s) False (maintainState X r options s)"
  unfolding maintainState_def
  by (rule guards_maintainFrom [OF r] | rule guards_finallyP | rule guards_checkP | rule guards_bindP
      | rule keeps_local(2) keeps_uploading [OF keeps_loadPackset [OF r]])+

end

section \<open>What a reader sees after a full compaction\<close>

text \<open>
  A compaction up to the tip leaves an empty log: a valid HEAD of that shape has no page and no
  tail.
\<close>

lemma full_log_empty:
  assumes h': "h' = maintenanceHead h (h_LogicalGeneration h) (h_TransactionID h) packID psref snapID sref pubID"
    and valid: "Head_Validate X h' = None"
  shows "log_TipPage (h_Log h') = None" "log_Tail (h_Log h') = Some []"
proof -
  let ?es = "filter (\<lambda>e. tx_Generation (env_Transaction e) > h_LogicalGeneration h) (case_option [] id (log_Tail (h_Log h)))"
  have tail: "log_Tail (h_Log h') = Some ?es" and gen: "h_LogicalGeneration h' = h_LogicalGeneration h"
    and flr: "log_FloorGeneration (h_Log h') = h_LogicalGeneration h"
    by (simp_all add: h' maintenanceHead_def)
  show tip: "log_TipPage (h_Log h') = None"
  proof (rule ccontr)
    assume "log_TipPage (h_Log h') \<noteq> None"
    then obtain p where p: "log_TipPage (h_Log h') = Some p" "pp_LastGeneration p > h_LogicalGeneration h"
      by (auto simp: h' maintenanceHead_def not_le split: option.splits if_splits)
    from checkTipPage_Some(3) [OF Head_Validate_bounds(7) [OF valid] p(1)] p(2) gen show False by simp
  qed
  from valid tip obtain es where "log_Tail (h_Log h') = Some es" "length es \<le> 32"
    "h_LogicalGeneration h' = log_FloorGeneration (h_Log h') + of_nat (length es)"
    by (rule Head_Validate_chained)
  then have es: "(of_nat (length es) :: u64) = 0" "length es \<le> 32" "log_Tail (h_Log h') = Some es"
    using gen flr by simp_all
  from es(2) have "unat (of_nat (length es) :: u64) = length es"
    by (simp add: unsigned_of_nat take_bit_nat_eq_self)
  with es show "log_Tail (h_Log h') = Some []" by simp
qed

text \<open>The state a reader finds after a full compaction.\<close>

definition compacted :: "RemoteState \<Rightarrow> Head \<Rightarrow> string \<Rightarrow> RemoteState" where
  "compacted s h t =
     \<lparr>rs_Head = h, rs_ETag = t, rs_Refs = rs_Refs s, rs_Transactions = [], rs_Cached = False,
      rs_logResolved = True, rs_logEnvelopes = [], rs_logPages = []\<rparr>"

lemma readV_compacted:
  assumes rd: "readV X v = Inr s"
    and h': "h' = maintenanceHead (rs_Head s) (h_LogicalGeneration (rs_Head s)) (h_TransactionID (rs_Head s))
      packID psref snapID (shaRef X (snapshotKey snapID) sb) pubID"
    and sb: "MarshalText (x_ident X) (maintenanceSnapshot s) = Inr sb" "length sb \<le> MaxSnapshot"
    and stored: "v1 (snapshotKey snapID) = Some (sb, t0)"
    and pub: "publishes X h' pub v1 v2" and codec: "codec_ok (x_json X) (x_Head X) MaxHead"
    and ident: "uuid_canonical (x_ident X)"
    and gen: "unat (h_LogicalGeneration (rs_Head s)) < 2 ^ 53" "h_LogicalGeneration (rs_Head s) \<noteq> 0"
  shows "\<exists>t. readV X v2 = Inr (compacted s h' t)"
proof -
  from pub obtain b t where b: "Marshal (x_json X) (x_Head X) h' = Inr b" "length b \<le> MaxHead"
    and valid: "Head_Validate (x_ident X) h' = None" and v2: "v2 = v1(HEAD_KEY \<mapsto> (b, t))"
    by (auto simp: publishes_def)
  have head: "headV X b = Inr h'" using b valid codec_okD [OF codec b(1)] by (simp add: headV_Inr)
  have f: "h_RefSnapshot h' = \<lparr>snp_SnapshotID = snapID, snp_Generation = h_LogicalGeneration (rs_Head s),
      snp_TransactionID = h_TransactionID (rs_Head s), snp_Object = shaRef X (snapshotKey snapID) sb\<rparr>"
    "log_FloorGeneration (h_Log h') = h_LogicalGeneration (rs_Head s)"
    "log_FloorTransactionID (h_Log h') = h_TransactionID (rs_Head s)"
    "h_LogicalGeneration h' = h_LogicalGeneration (rs_Head s)" "h_TransactionID h' = h_TransactionID (rs_Head s)"
    "h_RepositoryID h' = h_RepositoryID (rs_Head s)" "h_ObjectFormat h' = h_ObjectFormat (rs_Head s)"
    "h_HeadSymref h' = h_HeadSymref (rs_Head s)"
    by (simp_all add: h' maintenanceHead_def)
  have col: "collectV X v2 h' = Inr \<lparr>rl_transactions = [], rl_envelopes = [], rl_pages = []\<rparr>"
    using full_log_empty [OF h' valid] f by (simp add: collectV_def)
  have len: "of_nat (length sb) \<le> (of_nat MaxSnapshot :: u64)"
    using sb(2) by (simp add: word_le_nat_alt unsigned_of_nat take_bit_nat_eq_self MaxSnapshot_def)
  have obj: "validateObject (shaRef X (snapshotKey snapID) sb) = None"
    using Head_Validate_bounds(6) [OF valid] by (simp add: f)
  have ver: "verifiedV X v2 (shaRef X (snapshotKey snapID) sb) MaxSnapshot = Inr sb"
    using obj stored len keys_not_HEAD(4) [of snapID] by (simp add: verifiedV_def shaRef_def v2 not_less)
  have tx: "h_TransactionID (rs_Head s) \<noteq> None"
    using Head_Validate_None(1) [OF valid] gen(2)
    unfolding Head_Validate_fields_def firstError_Cons_None failIf_None by (auto simp: f)
  have parse: "ParseSnapshot (x_ident X) sb = Inr (maintenanceSnapshot s)"
    using gen tx by (intro MarshalText_Parse [OF ident sb(1) _ _ _ sb(2)]) (simp_all add: maintenanceSnapshot_def)
  have "reconstructV X v2 h' [] = Inr (rs_Refs s)"
    using ver parse readV_symref [OF rd]
    by (cases "h_HeadSymref (rs_Head s)") (simp_all add: reconstructV_def f maintenanceSnapshot_def)
  with col head show ?thesis by (simp add: readV_def v2 stateV_def compacted_def)
qed

text \<open>
  \<open>fresh_ids\<close>: no snapshot has a name that is still to be generated. \<open>reads_refs\<close>: a reader
  finds the refs, the tip and the default branch of \<open>s\<close>.
\<close>

definition fresh_ids :: "'g lib \<Rightarrow> view \<Rightarrow> bool" where
  "fresh_ids X v \<longleftrightarrow> (\<forall>g. v (snapshotKey (fst (x_NewString X g))) = None)"

definition reads_refs :: "'g lib \<Rightarrow> RemoteState \<Rightarrow> view \<Rightarrow> bool" where
  "reads_refs X s v \<longleftrightarrow> (\<exists>s'. readV X v = Inr s' \<and> rs_Refs s' = rs_Refs s \<and>
     h_LogicalGeneration (rs_Head s') = h_LogicalGeneration (rs_Head s) \<and>
     h_TransactionID (rs_Head s') = h_TransactionID (rs_Head s) \<and>
     h_HeadSymref (rs_Head s') = h_HeadSymref (rs_Head s))"

text \<open>What is new under an unused key is what was written.\<close>

context object_store
begin

lemma immutable_written:
  assumes r: "r_Store r = S" and none: "view (fst w) key = None"
    and run: "immutable X r key b w = (Inr ref, w')"
  shows "\<exists>t. view (fst w') key = Some (b, t)" "ref = shaRef X key b"
proof -
  obtain s g where w: "w = (s, g)" by (cases w)
  obtain p s1 where put: "st_Put S key (b, None) (int (length b)) (put_absent (digest X b)) s = (p, s1)"
    by (cases "st_Put S key (b, None) (int (length b)) (put_absent (digest X b)) s")
  show "\<exists>t. view (fst w') key = Some (b, t)"
  proof (cases p)
    case (Inl e)
    with put_precondition [OF put [unfolded Inl]] get_missing [of s1 key "[]"] none w run put show ?thesis
      by (auto simp: immutable_run r split: if_splits)
  next
    case (Inr m)
    with put_ok [OF put [unfolded Inr]] run put w show ?thesis
      by (auto simp: immutable_run r)
  qed
  show "ref = shaRef X key b" by (rule immutable_Inr(1) [OF r run])
qed

lemma prepareMaintenance_Inr:
  assumes r: "r_Store r = S" and run: "prepareMaintenance X r s gen txid levels w = (Inr (packID, h), w')"
    and fresh: "\<forall>g. view (fst w) (snapshotKey (fst (x_NewString X g))) = None"
  obtains psref snapID sb pubID t where
    "h = maintenanceHead (rs_Head s) gen txid packID psref snapID (shaRef X (snapshotKey snapID) sb) pubID"
    "MarshalText (x_ident X) (maintenanceSnapshot s) = Inr sb" "view (fst w') (snapshotKey snapID) = Some (sb, t)"
proof -
  from run obtain snapID psb psref sb sref pubID w1 w2 w3 w4 w5 where
    n1: "NewString X w = (Inr packID, w1)" and n2: "NewString X w1 = (Inr snapID, w2)"
    and im1: "immutable X r (packsetKey packID) psb w2 = (Inr psref, w3)"
    and marsh: "MarshalText (x_ident X) (maintenanceSnapshot s) = Inr sb"
    and im2: "immutable X r (snapshotKey snapID) sb w3 = (Inr sref, w4)" and n3: "NewString X w4 = (Inr pubID, w5)"
    and val: "validateBootstrap X r h (rs_Transactions s) (rs_Refs s) w5 = (Inr (), w')"
    and h: "h = maintenanceHead (rs_Head s) gen txid packID psref snapID sref pubID"
    by (auto simp: prepareMaintenance_def bindP_Inr_iff checkP_Inr_iff Let_def)
  have v: "view (fst w1) = view (fst w)" "view (fst w2) = view (fst w1)" "view (fst w5) = view (fst w4)"
    "view (fst w') = view (fst w5)"
    using unchangedD [OF keepsD [OF keeps_NewString n1]] unchangedD [OF keepsD [OF keeps_NewString n2]]
      unchangedD [OF keepsD [OF keeps_NewString n3]] unchangedD [OF keepsD [OF keeps_validateBootstrap [OF r] val]]
    by simp_all
  obtain g where "snapID = fst (x_NewString X g)"
    using n2 by (auto simp: NewString_def onLocal_def total_def split: prod.splits) (metis fst_conv)
  then have "view (fst w2) (snapshotKey snapID) = None" using fresh v by simp
  moreover have "packsetKey packID \<noteq> snapshotKey snapID" by (simp add: packsetKey_def snapshotKey_def)
  ultimately have "view (fst w3) (snapshotKey snapID) = None"
    using keepsD [OF keeps_immutable_other [OF r] im1] by (simp add: same_at_def)
  note im = immutable_written [OF r this im2]
  from im(1) v h im(2) marsh that show thesis by metis
qed

lemma publishMaintenance_reads:
  assumes r: "r_Store r = S" and codec: "codec_ok (x_json X) (x_Head X) MaxHead"
    and ident: "uuid_canonical (x_ident X)"
    and rd: "readV X (view (fst w)) = Inr s"
    and fresh: "\<forall>g. view (fst w) (snapshotKey (fst (x_NewString X g))) = None"
    and small: "\<forall>sb. MarshalText (x_ident X) (maintenanceSnapshot s) = Inr sb \<longrightarrow> length sb \<le> MaxSnapshot"
    and gen: "unat (h_LogicalGeneration (rs_Head s)) < 2 ^ 53" "h_LogicalGeneration (rs_Head s) \<noteq> 0"
    and run: "publishMaintenance X r s (h_LogicalGeneration (rs_Head s)) (h_TransactionID (rs_Head s)) levels w = (res, w')"
  shows "readV X (view (fst w')) = Inr s \<or> (\<exists>h t. readV X (view (fst w')) = Inr (compacted s h t) \<and>
    h_LogicalGeneration h = h_LogicalGeneration (rs_Head s) \<and> h_TransactionID h = h_TransactionID (rs_Head s) \<and>
    h_HeadSymref h = h_HeadSymref (rs_Head s))"
proof -
  let ?h = "rs_Head s"
  have same: "readV X (view (fst w1)) = Inr s" if "uploads (view (fst w)) (view (fst w1))" for w1 :: "'s \<times> 'g"
    using that by (intro readV_unmoved [OF rd]) (auto simp: uploads_def)
  note up = keeps_prepareMaintenance [OF r]
  from run [unfolded publishMaintenance_def] show ?thesis
  proof (cases rule: bindP_cases)
    case (stop e)
    from same [OF uploadingD [OF keepsD [OF up stop]]] show ?thesis by simp
  next
    case (go x w1)
    obtain packID h where x: "x = (packID, h)" by (cases x)
    have up1: "uploads (view (fst w)) (view (fst w1))" by (rule uploadingD [OF keepsD [OF up go(1)]])
    obtain y where pub: "publishHead X r h (maintenancePublication s packID) w1 = (y, w')"
      using go(2) unfolding x prod.case by (cases rule: bindP_cases) auto
    obtain psref snapID sb pubID t0 where h: "h = maintenanceHead ?h (h_LogicalGeneration ?h) (h_TransactionID ?h)
        packID psref snapID (shaRef X (snapshotKey snapID) sb) pubID"
      and sb: "MarshalText (x_ident X) (maintenanceSnapshot s) = Inr sb"
      and stored: "view (fst w1) (snapshotKey snapID) = Some (sb, t0)"
      by (rule prepareMaintenance_Inr [OF r go(1) [unfolded x] fresh])
    from publishHead_view [OF r pub] show ?thesis
    proof
      assume p: "publishes X h (maintenancePublication s packID) (view (fst w1)) (view (fst w'))"
      obtain t where "readV X (view (fst w')) = Inr (compacted s h t)"
        using readV_compacted [OF rd h sb _ stored p codec ident gen] small sb by blast
      then show ?thesis by (auto simp: h maintenanceHead_def)
    qed (use same [OF up1] in simp)
  qed
qed

text \<open>Until the publication, only packs are written.\<close>

lemma sameStored_same_at:
  "r_Store r = S \<Longrightarrow> keeps (same_at k) (\<lambda>w. case sameStored X r key n sm w of
      (eq, w1) \<Rightarrow> (if eq then Inr ref else Inl err, w1))"
  using sameStored_view [of r X key n sm]
  by (intro keeps_same_at) (auto simp: keeps_def unchanged_def store_rel_def split: prod.splits)

lemma uploadFile_other:
  assumes r: "r_Store r = S" and key: "key \<noteq> k"
  shows "keeps (same_at k) (uploadFile X r key path)"
  unfolding uploadFile_def Let_def
  by (rule keeps_others sameStored_same_at [OF r] keeps_put_other [OF key, folded r]
      | (split sum.split, intro conjI allI impI) | (split if_split, intro conjI impI))+

lemma packKey_not_snapshot [simp]: "packKey c suf \<noteq> snapshotKey i"
  by (simp add: packKey_def snapshotKey_def)

lemma uploadPair_other: "r_Store r = S \<Longrightarrow> keeps (same_at (snapshotKey i)) (uploadPair X r c pack idx)"
  unfolding uploadPair_def by (intro keeps_others uploadFile_other) simp_all

lemma compactLevels_other: "r_Store r = S \<Longrightarrow> keeps (same_at (snapshotKey i)) (compactLevels k X r ls tmp fanout levels)"
proof (induction k arbitrary: levels)
  case (Suc k)
  have "keeps (same_at (snapshotKey i)) (mergeLevel X r ls tmp sel)" for sel
    unfolding mergeLevel_def
    by (auto intro!: keeps_others uploadPair_other [OF Suc.prems] keeps_same_at [OF keeps_selectPacks [OF Suc.prems]])
  with Suc show ?case by (auto intro!: keeps_others split: option.splits)
qed (auto intro!: keeps_others)

lemma newLevels_other: "r_Store r = S \<Longrightarrow> keeps (same_at (snapshotKey i)) (newLevels X r ls s tmp refs fanout levels)"
  unfolding newLevels_def Let_def
  by (rule keeps_others uploadPair_other compactLevels_other | assumption | (split prod.split, intro allI impI))+

text \<open>
  \<open>settles X s m\<close>: whatever \<open>m\<close> does in a store in which \<open>s\<close> could be read, a reader finds the
  refs of \<open>s\<close> afterwards.
\<close>

definition settles :: "'g lib \<Rightarrow> RemoteState \<Rightarrow> ('s \<times> 'g, 'a) prog \<Rightarrow> bool" where
  "settles X s m \<longleftrightarrow>
     (\<forall>w. readV X (view (fst w)) = Inr s \<longrightarrow> fresh_ids X (view (fst w)) \<longrightarrow>
        reads_refs X s (view (fst (snd (m w)))))"

lemma settlesI:
  assumes "\<And>w res w'. readV X (view (fst w)) = Inr s \<Longrightarrow> fresh_ids X (view (fst w)) \<Longrightarrow> m w = (res, w') \<Longrightarrow>
    reads_refs X s (view (fst w'))"
  shows "settles X s m"
  unfolding settles_def using assms by (metis prod.collapse)

lemma reads_refs_refl: "readV X v = Inr s \<Longrightarrow> reads_refs X s v"
  by (auto simp: reads_refs_def)

lemma settles_bindP:
  assumes m: "keeps uploading m" "\<And>i. keeps (same_at (snapshotKey i)) m" and f: "\<And>x. settles X s (f x)"
  shows "settles X s (bindP m f)"
proof (rule settlesI)
  fix w res w'
  assume rd: "readV X (view (fst w)) = Inr s" and fresh: "fresh_ids X (view (fst w))" and run: "bindP m f w = (res, w')"
  have keep: "readV X (view (fst w1)) = Inr s" "fresh_ids X (view (fst w1))" if "m w = (x, w1)" for x w1
  proof -
    have "uploads (view (fst w)) (view (fst w1))" by (rule uploadingD [OF keepsD [OF m(1) that]])
    then show "readV X (view (fst w1)) = Inr s" by (intro readV_unmoved [OF rd]) (auto simp: uploads_def)
    show "fresh_ids X (view (fst w1))"
      using fresh keepsD [OF m(2) that] by (simp add: fresh_ids_def same_at_def)
  qed
  from run show "reads_refs X s (view (fst w'))"
  proof (cases rule: bindP_cases)
    case (stop e)
    show ?thesis by (rule reads_refs_refl [OF keep(1) [OF stop]])
  next
    case (go x w1)
    from f [of x] keep [OF go(1)] have "reads_refs X s (view (fst (snd (f x w1))))" unfolding settles_def by blast
    with go(2) show ?thesis by simp
  qed
qed

lemma settles_checkP: "settles X s m \<Longrightarrow> settles X s (checkP c m)"
  by (auto simp: settles_def checkP_def reads_refs_refl split: option.splits)

lemma settles_returnP: "settles X s (returnP x)"
  by (simp add: settles_def reads_refs_refl)

lemma settles_finallyP: "settles X s m \<Longrightarrow> settles X s (finallyP m (onLocal c))"
  by (simp add: settles_def finallyP_def tryP_def split_beta)

lemma settles_publish:
  assumes "r_Store r = S" "codec_ok (x_json X) (x_Head X) MaxHead" "uuid_canonical (x_ident X)"
    "\<forall>sb. MarshalText (x_ident X) (maintenanceSnapshot s) = Inr sb \<longrightarrow> length sb \<le> MaxSnapshot"
    "unat (h_LogicalGeneration (rs_Head s)) < 2 ^ 53" "h_LogicalGeneration (rs_Head s) \<noteq> 0"
  shows "settles X s (publishMaintenance X r s (h_LogicalGeneration (rs_Head s)) (h_TransactionID (rs_Head s)) levels)"
proof (rule settlesI)
  fix w res w'
  assume "readV X (view (fst w)) = Inr s" "fresh_ids X (view (fst w))"
    and run: "publishMaintenance X r s (h_LogicalGeneration (rs_Head s)) (h_TransactionID (rs_Head s)) levels w = (res, w')"
  from publishMaintenance_reads [OF assms(1-3) this(1) _ assms(4-6) run] this(2)
  show "reads_refs X s (view (fst w'))" by (auto simp: fresh_ids_def reads_refs_def compacted_def)
qed

lemma settles_maintainFrom:
  assumes r: "r_Store r = S" and codec: "codec_ok (x_json X) (x_Head X) MaxHead" and ident: "uuid_canonical (x_ident X)"
    and small: "\<forall>sb. MarshalText (x_ident X) (maintenanceSnapshot s) = Inr sb \<longrightarrow> length sb \<le> MaxSnapshot"
    and gen: "unat (h_LogicalGeneration (rs_Head s)) < 2 ^ 53" and valid: "Head_Validate (x_ident X) (rs_Head s) = None"
    and full: "mo_MaxBytes options \<le> 0"
  shows "settles X s (maintainFrom X r options ls s old)"
proof (cases "psp_Generation (h_Packset (rs_Head s)) = h_LogicalGeneration (rs_Head s) \<and>
    snp_Generation (h_RefSnapshot (rs_Head s)) = h_LogicalGeneration (rs_Head s)")
  case True
  then show ?thesis by (simp add: maintainFrom_def settles_returnP)
next
  case False
  then have "h_LogicalGeneration (rs_Head s) \<noteq> 0"
    using Head_Validate_bounds(1,2,4) [OF valid] by (auto simp: word_le_0_iff)
  note publish = settles_publish [OF r codec ident small gen this]
  have chosen: "bindP (liftP (Inr p)) f = f p" for p and f :: "'b \<Rightarrow> ('s \<times> 'g, 'c) prog"
    by (simp add: fun_eq_iff)
  have "settles X s (finallyP (bindP (newLevels X r ls s tmp refs fanout levels) (\<lambda>levels'.
      publishMaintenance X r s (h_LogicalGeneration (rs_Head s)) (h_TransactionID (rs_Head s)) levels'))
      (onLocal (os_RemoveAll (x_OS X) tmp)))" for tmp refs fanout levels
    by (intro settles_finallyP settles_bindP publish keeps_newLevels [OF r] newLevels_other [OF r])
  then show ?thesis
    using False full
    by (auto simp: maintainFrom_def Let_def maintenanceTarget_def chosen publish
        intro!: settles_bindP keeps_local(2) keeps_same_at [OF keeps_local(1)])
qed

lemma settles_maintainState:
  assumes r: "r_Store r = S" and codec: "codec_ok (x_json X) (x_Head X) MaxHead" and ident: "uuid_canonical (x_ident X)"
    and small: "\<forall>sb. MarshalText (x_ident X) (maintenanceSnapshot s) = Inr sb \<longrightarrow> length sb \<le> MaxSnapshot"
    and gen: "unat (h_LogicalGeneration (rs_Head s)) < 2 ^ 53" and valid: "Head_Validate (x_ident X) (rs_Head s) = None"
    and full: "mo_MaxBytes options \<le> 0"
  shows "settles X s (maintainState X r options s)"
  unfolding maintainState_def
  by (rule settles_maintainFrom [OF assms] | rule settles_checkP | rule settles_finallyP | rule settles_bindP
      | rule keeps_local(2) keeps_same_at [OF keeps_local(1)] keeps_uploading [OF keeps_loadPackset [OF r]]
          keeps_same_at [OF keeps_loadPackset [OF r]])+

end

context reliable_store
begin

lemma Maintenance_reads:
  assumes r: "r_Store r = S" and codec: "codec_ok (x_json X) (x_Head X) MaxHead" and ident: "uuid_canonical (x_ident X)"
    and small: "\<forall>sb. MarshalText (x_ident X) (maintenanceSnapshot s) = Inr sb \<longrightarrow> length sb \<le> MaxSnapshot"
    and gen: "unat (h_LogicalGeneration (rs_Head s)) < 2 ^ 53"
    and full: "mo_MaxBytes options \<le> 0" and rd: "readV X (view (fst w)) = Inr s" and fresh: "fresh_ids X (view (fst w))"
    and run: "Maintenance X r options w = (res, w')"
  shows "reads_refs X s (view (fst w'))"
  using run [unfolded Maintenance_def]
proof (cases rule: bindP_cases)
  case (stop e)
  with keepsD [OF keeps_local(1) stop] rd show ?thesis by (simp add: unchanged_def store_rel_def reads_refs_refl)
next
  case (go u w1)
  have v1: "view (fst w1) = view (fst w)" by (rule unchangedD [OF keepsD [OF keeps_local(1) go(1)]])
  obtain got w2 where read: "ReadUnconditional X r w1 = (got, w2)" by (cases "ReadUnconditional X r w1")
  note V = ReadUnconditional_view [OF r read]
  from V rd v1 have got: "got = Inr s" "readV X (view (fst w2)) = Inr s" "fresh_ids X (view (fst w2))"
    using fresh by simp_all
  have valid: "Head_Validate (x_ident X) (rs_Head s) = None"
    using rd by (rule readV_Inr) (simp add: headV_Inr)
  have "maintainState X r options s w2 = (res, w')" using go(2) read got(1) by simp
  with settles_maintainState [OF r codec ident small gen valid full] got show ?thesis
    unfolding settles_def by (metis snd_conv)
qed

end

end
