(* ===== verification/Git3_Config.thy ===== *)
theory Git3_Config
  imports Git3_Locator Git3_Git
begin

text \<open>
  Client configuration (\<^verbatim>\<open>src/internal/config/config.go\<close>): the defaults, the settings read from
  Git's configuration and from the environment, their parsing and their validation.

  \<^verbatim>\<open>url.Parse\<close> is the argument \<open>url_Parse\<close>, the operating system the argument \<open>Os\<close>. A failed
  step loses the partly filled configuration: every caller discards it.
\<close>

section \<open>Data\<close>

record Config =
  cf_Profile :: string
  cf_Region :: string
  cf_Endpoint :: string
  cf_PathStyle :: bool
  cf_AllowInsecure :: bool
  cf_SSE :: string
  cf_KMSKeyID :: string
  cf_BucketKeyEnabled :: "bool option"
  cf_MultipartThreshold :: int
  cf_PartSize :: int
  cf_UploadConcurrency :: int
  cf_DownloadChunkSize :: int
  cf_DownloadConcurrency :: int
  cf_MaxAttempts :: int
  cf_CompactionFanout :: int
  cf_CompactAfterTransactions :: int
  cf_CompactAfterBytes :: int
  cf_LogFormat :: string

definition Defaults :: Config where
  "Defaults =
     \<lparr>cf_Profile = [], cf_Region = [], cf_Endpoint = [], cf_PathStyle = False, cf_AllowInsecure = False,
      cf_SSE = ''inherit'', cf_KMSKeyID = [], cf_BucketKeyEnabled = None,
      cf_MultipartThreshold = 100 * 2 ^ 20, cf_PartSize = 128 * 2 ^ 20, cf_UploadConcurrency = 2,
      cf_DownloadChunkSize = 64 * 2 ^ 20, cf_DownloadConcurrency = 4, cf_MaxAttempts = 5,
      cf_CompactionFanout = 4, cf_CompactAfterTransactions = 32, cf_CompactAfterBytes = 128 * 2 ^ 20,
      cf_LogFormat = ''human''\<rparr>"

section \<open>Parsing values\<close>

definition parseBool :: "string \<Rightarrow> bool res" where
  "parseBool s =
     (if ToLower s \<in> {''true'', ''yes'', ''on'', ''1''} then Inr True
      else if ToLower s \<in> {''false'', ''no'', ''off'', ''0''} then Inr False
      else Inl (Errorf ''invalid boolean %q'' [s]))"

definition byteUnits :: "(string \<times> nat) list" where
  "byteUnits = [(''TiB'', 2 ^ 40), (''GiB'', 2 ^ 30), (''MiB'', 2 ^ 20), (''KiB'', 2 ^ 10), ([], 1)]"

fun parseUnits :: "string \<Rightarrow> (string \<times> nat) list \<Rightarrow> int res" where
  "parseUnits s [] = Inl (Errorf ''invalid byte suffix'' [])"
| "parseUnits s ((u, m) # us) =
     (if HasSuffix s u \<and> TrimSuffix s u \<noteq> [] then
        (case ParseUint (TrimSuffix s u) 63 of
           None \<Rightarrow> Inl (Errorf ''invalid byte quantity %q'' [s])
         | Some v \<Rightarrow>
            (if v > (2 ^ 63 - 1) div m then Inl (Errorf ''invalid byte quantity %q'' [s])
             else Inr (int (v * m))))
      else parseUnits s us)"

definition ParseBytes :: "string \<Rightarrow> int res" where
  "ParseBytes s = parseUnits s byteUnits"

text \<open>\<^verbatim>\<open>strconv.Atoi\<close> with its error.\<close>

definition AtoiRes :: "string \<Rightarrow> int res" where
  "AtoiRes s = (case Atoi s of
      Some i \<Rightarrow> Inr i
    | None \<Rightarrow>
       (let d = (if HasPrefix s ''-'' \<or> HasPrefix s ''+'' then drop 1 s else s) in
        Inl (Errorf (if d \<noteq> [] \<and> list_all is_digit d then ''strconv.Atoi: parsing %q: value out of range''
                     else ''strconv.Atoi: parsing %q: invalid syntax'') [s])))"

definition parseCount :: "string \<Rightarrow> int res" where
  "parseCount v = (case AtoiRes v of
      Inl e \<Rightarrow> Inl e
    | Inr i \<Rightarrow> if i < 1 \<or> i > 1024 then Inl (Errorf ''value out of range'' []) else Inr i)"

text \<open>Storing a parsed value; an error is wrapped with the name of the setting.\<close>

definition setParsed :: "string \<Rightarrow> 'a res \<Rightarrow> ('a \<Rightarrow> Config) \<Rightarrow> Config res" where
  "setParsed k r f = (case r of Inl e \<Rightarrow> Inl (Wrapf ''%s: %w'' [k] e) | Inr x \<Rightarrow> Inr (f x))"

definition applySetting :: "Config \<Rightarrow> string \<Rightarrow> string \<Rightarrow> Config res" where
  "applySetting c k v =
     (if k = ''AWS_PROFILE'' then Inr (c\<lparr>cf_Profile := v\<rparr>)
      else if k = ''GIT3_REGION'' then Inr (c\<lparr>cf_Region := v\<rparr>)
      else if k = ''GIT3_ENDPOINT'' then Inr (c\<lparr>cf_Endpoint := v\<rparr>)
      else if k = ''GIT3_SSE'' then Inr (c\<lparr>cf_SSE := v\<rparr>)
      else if k = ''GIT3_KMS_KEY_ID'' then Inr (c\<lparr>cf_KMSKeyID := v\<rparr>)
      else if k = ''GIT3_LOG_FORMAT'' then Inr (c\<lparr>cf_LogFormat := v\<rparr>)
      else if k = ''GIT3_PATH_STYLE'' then setParsed k (parseBool v) (\<lambda>b. c\<lparr>cf_PathStyle := b\<rparr>)
      else if k = ''GIT3_ALLOW_INSECURE_ENDPOINT''
      then setParsed k (parseBool v) (\<lambda>b. c\<lparr>cf_AllowInsecure := b\<rparr>)
      else if k = ''GIT3_BUCKET_KEY_ENABLED''
      then setParsed k (parseBool v) (\<lambda>b. c\<lparr>cf_BucketKeyEnabled := Some b\<rparr>)
      else if k = ''GIT3_MULTIPART_THRESHOLD''
      then setParsed k (ParseBytes v) (\<lambda>n. c\<lparr>cf_MultipartThreshold := n\<rparr>)
      else if k = ''GIT3_PART_SIZE'' then setParsed k (ParseBytes v) (\<lambda>n. c\<lparr>cf_PartSize := n\<rparr>)
      else if k = ''GIT3_DOWNLOAD_CHUNK_SIZE''
      then setParsed k (ParseBytes v) (\<lambda>n. c\<lparr>cf_DownloadChunkSize := n\<rparr>)
      else if k = ''GIT3_COMPACT_AFTER_BYTES''
      then setParsed k (ParseBytes v) (\<lambda>n. c\<lparr>cf_CompactAfterBytes := n\<rparr>)
      else if k = ''GIT3_UPLOAD_CONCURRENCY''
      then setParsed k (parseCount v) (\<lambda>i. c\<lparr>cf_UploadConcurrency := i\<rparr>)
      else if k = ''GIT3_DOWNLOAD_CONCURRENCY''
      then setParsed k (parseCount v) (\<lambda>i. c\<lparr>cf_DownloadConcurrency := i\<rparr>)
      else if k = ''GIT3_MAX_ATTEMPTS'' then setParsed k (parseCount v) (\<lambda>i. c\<lparr>cf_MaxAttempts := i\<rparr>)
      else if k = ''GIT3_COMPACTION_FANOUT''
      then setParsed k (parseCount v) (\<lambda>i. c\<lparr>cf_CompactionFanout := i\<rparr>)
      else setParsed k (parseCount v) (\<lambda>i. c\<lparr>cf_CompactAfterTransactions := i\<rparr>))"

section \<open>Validation\<close>

definition endpointOk :: "(string \<Rightarrow> URL res) \<Rightarrow> Config \<Rightarrow> bool" where
  "endpointOk url_Parse c =
     (case url_Parse (cf_Endpoint c) of
        Inl e \<Rightarrow> False
      | Inr u \<Rightarrow> \<not> (u_Host u = [] \<or> u_User u \<noteq> None \<or> u_RawQuery u \<noteq> [] \<or> u_Fragment u \<noteq> [] \<or>
                  (u_Scheme u \<noteq> ''https'' \<and> (u_Scheme u \<noteq> ''http'' \<or> \<not> cf_AllowInsecure c))))"

definition Config_Validate :: "(string \<Rightarrow> URL res) \<Rightarrow> Config \<Rightarrow> goerr option" where
  "Config_Validate url_Parse c =
     firstError
       [failIf (cf_PartSize c < 5 * 2 ^ 20 \<or> cf_PartSize c < (2 ^ 40 + 9999) div 10000)
          (Errorf ''part size cannot support 1 TiB within 10,000 parts'' []),
        failIf (cf_PartSize c > 5 * 2 ^ 30 \<or> cf_MultipartThreshold c < 0 \<or> cf_MultipartThreshold c > 2 ^ 40 \<or>
                cf_DownloadChunkSize c < 2 ^ 20 \<or> cf_DownloadChunkSize c > 5 * 2 ^ 30 \<or>
                cf_CompactAfterBytes c < 1 \<or> cf_CompactAfterBytes c > 2 ^ 40)
          (Errorf ''byte setting outside supported bounds'' []),
        failIf (cf_UploadConcurrency c < 1 \<or> cf_UploadConcurrency c > 16 \<or>
                cf_DownloadConcurrency c < 1 \<or> cf_DownloadConcurrency c > 64 \<or>
                cf_MaxAttempts c < 1 \<or> cf_MaxAttempts c > 20 \<or>
                cf_CompactionFanout c < 2 \<or> cf_CompactionFanout c > 1024 \<or>
                cf_CompactAfterTransactions c < 1 \<or> cf_CompactAfterTransactions c > 100000)
          (Errorf ''integer setting outside supported bounds'' []),
        failIf (cf_Endpoint c \<noteq> [] \<and> \<not> endpointOk url_Parse c) (Errorf ''invalid or insecure endpoint'' []),
        failIf (cf_SSE c \<noteq> ''inherit'' \<and> cf_SSE c \<noteq> ''s3'' \<and> cf_SSE c \<noteq> ''kms'')
          (Errorf ''invalid SSE mode'' []),
        failIf (cf_SSE c \<noteq> ''kms'' \<and> (cf_KMSKeyID c \<noteq> [] \<or> cf_BucketKeyEnabled c \<noteq> None))
          (Errorf ''KMS settings require sse=kms'' []),
        failIf (cf_LogFormat c \<noteq> ''human'' \<and> cf_LogFormat c \<noteq> ''json'') (Errorf ''invalid log format'' [])]"

section \<open>Sources\<close>

record gitConfigEntry =
  gc_key :: string
  gc_value :: string

text \<open>
  \<^verbatim>\<open>strings.EqualFold\<close> against an ASCII text: letters match in either case, and the long s and
  the Kelvin sign, the only other characters that fold to ASCII, match \<^verbatim>\<open>s\<close> and \<^verbatim>\<open>k\<close>.
\<close>

fun EqualFold :: "string \<Rightarrow> string \<Rightarrow> bool" where
  "EqualFold s [] = (s = [])"
| "EqualFold s (d # t) =
     (case s of
        [] \<Rightarrow> False
      | c # s1 \<Rightarrow>
         (if lower_byte c = lower_byte d then EqualFold s1 t
          else if lower_byte d = CHR ''s'' \<and> take 2 s = [CHR 0xC5, CHR 0xBF] then EqualFold (drop 2 s) t
          else lower_byte d = CHR ''k'' \<and> take 3 s = [CHR 0xE2, CHR 0x84, CHR 0xAA] \<and> EqualFold (drop 3 s) t))"

fun parseRecords0 :: "bytes list \<Rightarrow> gitConfigEntry list res" where
  "parseRecords0 [] = Inr []"
| "parseRecords0 (b # bs) =
     (if b = [] then parseRecords0 bs
      else (case CutByte b NL of
          (key, val, ok) \<Rightarrow>
           (if \<not> ok then Inl (Errorf ''invalid Git configuration record'' [])
            else (case parseRecords0 bs of
                Inl e \<Rightarrow> Inl e
              | Inr es \<Rightarrow> Inr (\<lparr>gc_key = key, gc_value = val\<rparr> # es)))))"

definition readGitConfig :: "'g OS \<Rightarrow> ('g, gitConfigEntry list) prog" where
  "readGitConfig Os g =
     (case os_Exec Os (os_Environ Os g) []
             [''config'', ''--null'', ''--get-regexp'', ''^(git3'' @ [CHR 0x5C] @ ''.|remote'' @ [CHR 0x5C] @
              ''..*'' @ [CHR 0x5C] @ ''.git3)''] ([], None) g of
        (r, g') \<Rightarrow>
          (case exec_error r of
             None \<Rightarrow> (parseRecords0 (SplitByte (CHR 0x00) (xr_out r)), g')
           | Some e \<Rightarrow>
              (if xr_start r = None \<and> xr_code r = Some 1 then (Inr [], g')
               else (Inl (Wrapf ''read Git configuration: %w'' [] e), g'))))"

text \<open>The last entry that matches.\<close>

definition lastValue :: "(string \<Rightarrow> bool) \<Rightarrow> gitConfigEntry list \<Rightarrow> string option" where
  "lastValue P es = map_option gc_value (find (\<lambda>e. P (gc_key e)) (rev es))"

definition globalValue :: "gitConfigEntry list \<Rightarrow> string \<Rightarrow> string option" where
  "globalValue es key = lastValue (\<lambda>k. EqualFold k key) es"

definition remoteKey :: "string \<Rightarrow> string \<Rightarrow> string \<Rightarrow> bool" where
  "remoteKey remote suffix k =
     (let rest = drop 7 k; marker = CHR ''.'' # suffix; n = length rest - length marker in
      length k \<ge> 7 \<and> EqualFold (take 7 k) ''remote.'' \<and>
      length rest > length marker \<and> take n rest = remote \<and> EqualFold (drop n rest) marker)"

definition remoteValue :: "gitConfigEntry list \<Rightarrow> string \<Rightarrow> string \<Rightarrow> string option" where
  "remoteValue es remote suffix = lastValue (remoteKey remote suffix) es"

text \<open>\<^verbatim>\<open>os.LookupEnv\<close>: the first entry of the environment with this name.\<close>

definition LookupEnv :: "string list \<Rightarrow> string \<Rightarrow> string option" where
  "LookupEnv env k =
     map_option (\<lambda>v. fst (snd (CutByte v (CHR ''='')))) 
       (find (\<lambda>v. fst (CutByte v (CHR ''='')) = k \<and> snd (snd (CutByte v (CHR ''='')))) env)"

section \<open>Loading\<close>

definition settings :: "(string \<times> string \<times> string) list" where
  "settings =
     [(''AWS_PROFILE'', ''git3.profile'', ''git3Profile''),
      (''GIT3_REGION'', ''git3.region'', ''git3Region''),
      (''GIT3_ENDPOINT'', ''git3.endpoint'', ''git3Endpoint''),
      (''GIT3_PATH_STYLE'', ''git3.pathStyle'', ''git3PathStyle''),
      (''GIT3_ALLOW_INSECURE_ENDPOINT'', ''git3.allowInsecureEndpoint'', ''git3AllowInsecureEndpoint''),
      (''GIT3_SSE'', ''git3.sse'', ''git3Sse''),
      (''GIT3_KMS_KEY_ID'', ''git3.kmsKeyId'', ''git3KmsKeyId''),
      (''GIT3_BUCKET_KEY_ENABLED'', ''git3.bucketKeyEnabled'', ''git3BucketKeyEnabled''),
      (''GIT3_MULTIPART_THRESHOLD'', ''git3.multipartThreshold'', ''git3MultipartThreshold''),
      (''GIT3_PART_SIZE'', ''git3.partSize'', ''git3PartSize''),
      (''GIT3_UPLOAD_CONCURRENCY'', ''git3.uploadConcurrency'', ''git3UploadConcurrency''),
      (''GIT3_DOWNLOAD_CHUNK_SIZE'', ''git3.downloadChunkSize'', ''git3DownloadChunkSize''),
      (''GIT3_DOWNLOAD_CONCURRENCY'', ''git3.downloadConcurrency'', ''git3DownloadConcurrency''),
      (''GIT3_MAX_ATTEMPTS'', ''git3.maxAttempts'', ''git3MaxAttempts''),
      (''GIT3_LOG_FORMAT'', ''git3.logFormat'', ''git3LogFormat''),
      (''GIT3_COMPACTION_FANOUT'', ''git3.compactionFanout'', ''git3CompactionFanout''),
      (''GIT3_COMPACT_AFTER_TRANSACTIONS'', ''git3.compactAfterTransactions'', ''git3CompactAfterTransactions''),
      (''GIT3_COMPACT_AFTER_BYTES'', ''git3.compactAfterBytes'', ''git3CompactAfterBytes'')]"

definition override :: "'a option \<Rightarrow> 'a option \<Rightarrow> 'a option" where
  "override old new = (case new of None \<Rightarrow> old | Some v \<Rightarrow> Some v)"

definition settingValue ::
  "gitConfigEntry list \<Rightarrow> string list \<Rightarrow> string \<Rightarrow> string \<times> string \<times> string \<Rightarrow> string option"
where
  "settingValue es env remote d =
     (case d of (envName, global, suffix) \<Rightarrow>
       (let v = globalValue es global;
            v = (if remote \<noteq> [] then override v (remoteValue es remote suffix) else v) in
        override v (LookupEnv env envName)))"

fun applyAll :: "Config \<Rightarrow> (string \<times> string option) list \<Rightarrow> Config res" where
  "applyAll c [] = Inr c"
| "applyAll c ((k, v) # kvs) =
     (case v of
        None \<Rightarrow> applyAll c kvs
      | Some x \<Rightarrow> (case applySetting c k x of Inl e \<Rightarrow> Inl e | Inr c' \<Rightarrow> applyAll c' kvs))"

definition Load :: "(string \<Rightarrow> URL res) \<Rightarrow> 'g OS \<Rightarrow> string \<Rightarrow> ('g, Config) prog" where
  "Load url_Parse Os remote =
     bindP (readGitConfig Os) (\<lambda>es g.
       (case applyAll Defaults (map (\<lambda>d. (fst d, settingValue es (os_Environ Os g) remote d)) settings) of
          Inl e \<Rightarrow> (Inl e, g)
        | Inr c \<Rightarrow> (case Config_Validate url_Parse c of Some e \<Rightarrow> (Inl e, g) | None \<Rightarrow> (Inr c, g))))"

section \<open>Byte quantities\<close>

text \<open>A text of digits does not end in a unit.\<close>

lemma unit_suffix:
  assumes "list_all is_digit d" "d \<noteq> []" "u \<in> {''TiB'', ''GiB'', ''MiB'', ''KiB'', []}" "q \<in> {''TiB'', ''GiB'', ''MiB'', ''KiB''}"
  shows "HasSuffix (d @ u) q \<longleftrightarrow> q = u"
proof
  assume suf: "HasSuffix (d @ u) q"
  show "q = u"
  proof (cases "u = []")
    case True
    with suf assms(2,4) have "last d = CHR ''B''" by (auto simp: HasSuffix_iff)
    moreover have "is_digit (last d)" using assms(1,2) by (simp add: list_all_iff)
    ultimately show ?thesis by (simp add: is_digit_def)
  next
    case False
    with suf assms(3,4) have "length q = length u" by auto
    with suf show ?thesis by (auto simp: HasSuffix_iff append_eq_append_conv)
  qed
qed (use assms in auto)

lemma div_limit: "0 < m \<Longrightarrow> (v :: nat) \<le> L div m \<longleftrightarrow> v * m \<le> L"
  by (metis div_le_mono div_mult_self_is_m less_eq_div_iff_mult_less_eq)

lemma parseUnits_hit:
  assumes "0 < m"
  shows "parseUnits (dec n @ u) ((u, m) # us) =
    (if n * m < 2 ^ 63 then Inr (int (n * m)) else Inl (Errorf ''invalid byte quantity %q'' [dec n @ u]))"
proof (cases "n < 2 ^ 63")
  case True
  have "n \<le> (2 ^ 63 - 1) div m \<longleftrightarrow> n * m < 2 ^ 63" using div_limit [OF assms, of n "2 ^ 63 - 1"] by auto
  with True show ?thesis by (auto simp: not_le [symmetric])
next
  case False
  then have "n * m \<ge> 2 ^ 63" using assms by (metis le_trans mult_le_mono2 not_less Suc_leI One_nat_def mult.right_neutral)
  moreover have "ParseUint (dec n) 63 = None" using False by (simp add: ParseUint_def)
  ultimately show ?thesis by simp
qed

section \<open>Properties\<close>

text \<open>
  Byte quantities are read exactly. A decimal number with one of the units stands for the
  product, when the product fits in 63 bits; otherwise it is rejected, never wrapped.
\<close>

theorem parse_bytes_exact:
  assumes "(u, m) \<in> set byteUnits"
  shows "ParseBytes (dec n @ u) =
    (if n * m < 2 ^ 63 then Inr (int (n * m)) else Inl (Errorf ''invalid byte quantity %q'' [dec n @ u]))"
proof -
  have suf: "HasSuffix (dec n @ u) q \<longleftrightarrow> q = u" if "q \<in> {''TiB'', ''GiB'', ''MiB'', ''KiB''}" for q
    using that assms by (intro unit_suffix [OF dec_digits dec_not_Nil]) (auto simp: byteUnits_def)
  have miss: "parseUnits (dec n @ u) ((q, k) # us) = parseUnits (dec n @ u) us"
    if "q \<in> {''TiB'', ''GiB'', ''MiB'', ''KiB''}" "q \<noteq> u" for q k us
    using suf [OF that(1)] that(2) by simp
  have "0 < m" using assms by (auto simp: byteUnits_def)
  note hit = parseUnits_hit [OF this, of n u]
  from assms consider "u = ''TiB''" "m = 2 ^ 40" | "u = ''GiB''" "m = 2 ^ 30" | "u = ''MiB''" "m = 2 ^ 20"
    | "u = ''KiB''" "m = 2 ^ 10" | "u = []" "m = 1"
    by (auto simp: byteUnits_def)
  then show ?thesis
    by cases (use hit miss in \<open>simp_all only: ParseBytes_def byteUnits_def insert_iff simp_thms list.inject list.distinct char.inject\<close>)
qed

theorem parse_bytes_exact_witness:
  "ParseBytes ''128MiB'' = Inr (128 * 2 ^ 20) \<and> ParseBytes ''8388608TiB'' = Inl (Errorf ''invalid byte quantity %q'' [''8388608TiB''])"
proof -
  have d: "dec 128 = ''128''" "dec 8388608 = ''8388608''" by code_simp+
  have "(''MiB'', 2 ^ 20) \<in> set byteUnits" "(''TiB'', 2 ^ 40) \<in> set byteUnits" by (simp_all add: byteUnits_def)
  from parse_bytes_exact [OF this(1), of 128] parse_bytes_exact [OF this(2), of 8388608] show ?thesis
    unfolding d by simp
qed

section \<open>Where a setting comes from\<close>

text \<open>The text settings with the fields they fill.\<close>

definition textSettings :: "(string \<times> (Config \<Rightarrow> string)) list" where
  "textSettings =
     [(''AWS_PROFILE'', cf_Profile), (''GIT3_REGION'', cf_Region), (''GIT3_ENDPOINT'', cf_Endpoint),
      (''GIT3_SSE'', cf_SSE), (''GIT3_KMS_KEY_ID'', cf_KMSKeyID), (''GIT3_LOG_FORMAT'', cf_LogFormat)]"

lemma setParsed_Inr: "setParsed k r f = Inr c \<longleftrightarrow> (\<exists>x. r = Inr x \<and> c = f x)"
  by (auto simp: setParsed_def split: sum.splits)

text \<open>A text setting fills its own field; the remaining settings leave the text fields alone.\<close>

definition textPart :: "Config \<Rightarrow> string list" where
  "textPart c = map (\<lambda>(k, f). f c) textSettings"

lemma textPart_update [simp]:
  "textPart (c\<lparr>cf_PathStyle := b\<rparr>) = textPart c" "textPart (c\<lparr>cf_AllowInsecure := b\<rparr>) = textPart c"
  "textPart (c\<lparr>cf_BucketKeyEnabled := ob\<rparr>) = textPart c" "textPart (c\<lparr>cf_MultipartThreshold := n\<rparr>) = textPart c"
  "textPart (c\<lparr>cf_PartSize := n\<rparr>) = textPart c" "textPart (c\<lparr>cf_DownloadChunkSize := n\<rparr>) = textPart c"
  "textPart (c\<lparr>cf_CompactAfterBytes := n\<rparr>) = textPart c" "textPart (c\<lparr>cf_UploadConcurrency := n\<rparr>) = textPart c"
  "textPart (c\<lparr>cf_DownloadConcurrency := n\<rparr>) = textPart c" "textPart (c\<lparr>cf_MaxAttempts := n\<rparr>) = textPart c"
  "textPart (c\<lparr>cf_CompactionFanout := n\<rparr>) = textPart c"
  "textPart (c\<lparr>cf_CompactAfterTransactions := n\<rparr>) = textPart c"
  by (simp_all add: textPart_def textSettings_def)

lemma setParsed_textPart:
  "setParsed k r F = Inr c' \<Longrightarrow> (\<And>x. textPart (F x) = textPart c) \<Longrightarrow> textPart c' = textPart c"
  by (auto simp: setParsed_Inr)

lemma textPart_eq: "textPart c' = textPart c \<Longrightarrow> (k, f) \<in> set textSettings \<Longrightarrow> f c' = f c"
  unfolding textPart_def by (auto dest: map_eq_conv [THEN iffD1])

lemma if_eqE: "(if b then x else y) = r \<Longrightarrow> (b \<Longrightarrow> x = r \<Longrightarrow> P) \<Longrightarrow> (\<not> b \<Longrightarrow> y = r \<Longrightarrow> P) \<Longrightarrow> P"
  by (auto split: if_splits)

lemma applySetting_other:
  assumes "applySetting c k v = Inr c'" "k \<notin> fst ` set textSettings"
  shows "textPart c' = textPart c"
proof -
  have k: "k \<noteq> ''AWS_PROFILE''" "k \<noteq> ''GIT3_REGION''" "k \<noteq> ''GIT3_ENDPOINT''" "k \<noteq> ''GIT3_SSE''"
    "k \<noteq> ''GIT3_KMS_KEY_ID''" "k \<noteq> ''GIT3_LOG_FORMAT''"
    using assms(2) by (simp_all add: textSettings_def)
  from assms(1) show ?thesis
    unfolding applySetting_def if_not_P [OF k(1)] if_not_P [OF k(2)] if_not_P [OF k(3)] if_not_P [OF k(4)]
      if_not_P [OF k(5)] if_not_P [OF k(6)]
    by (elim if_eqE) (erule setParsed_textPart, rule textPart_update)+
qed

lemma apply_Profile: "applySetting c ''AWS_PROFILE'' v = Inr (c\<lparr>cf_Profile := v\<rparr>)"
  unfolding applySetting_def by simp

lemma apply_Region: "applySetting c ''GIT3_REGION'' v = Inr (c\<lparr>cf_Region := v\<rparr>)"
  unfolding applySetting_def by simp

lemma apply_Endpoint: "applySetting c ''GIT3_ENDPOINT'' v = Inr (c\<lparr>cf_Endpoint := v\<rparr>)"
  unfolding applySetting_def by simp

lemma apply_SSE: "applySetting c ''GIT3_SSE'' v = Inr (c\<lparr>cf_SSE := v\<rparr>)"
  unfolding applySetting_def by simp

lemma apply_KMSKeyID: "applySetting c ''GIT3_KMS_KEY_ID'' v = Inr (c\<lparr>cf_KMSKeyID := v\<rparr>)"
  unfolding applySetting_def by simp

lemma apply_LogFormat: "applySetting c ''GIT3_LOG_FORMAT'' v = Inr (c\<lparr>cf_LogFormat := v\<rparr>)"
  unfolding applySetting_def by simp

lemmas applySetting_own = apply_Profile apply_Region apply_Endpoint apply_SSE apply_KMSKeyID apply_LogFormat

lemma textSettings_cases:
  assumes "(k, f) \<in> set textSettings"
  obtains "k = ''AWS_PROFILE''" "f = cf_Profile" | "k = ''GIT3_REGION''" "f = cf_Region"
    | "k = ''GIT3_ENDPOINT''" "f = cf_Endpoint" | "k = ''GIT3_SSE''" "f = cf_SSE"
    | "k = ''GIT3_KMS_KEY_ID''" "f = cf_KMSKeyID" | "k = ''GIT3_LOG_FORMAT''" "f = cf_LogFormat"
  using assms unfolding textSettings_def
  by (simp only: list.set insert_iff empty_iff prod.inject simp_thms) (elim disjE conjE; assumption?; iprover)

lemma applySetting_text_own:
  assumes "(k, f0) \<in> set textSettings" "applySetting c k v = Inr c'" "(k', f) \<in> set textSettings"
  shows "f c' = (if k = k' then v else f c)"
  using assms(1)
proof (cases rule: textSettings_cases)
  case 1
  with assms(2) have "c' = c\<lparr>cf_Profile := v\<rparr>" by (simp only: applySetting_own sum.inject)
  with assms(3) 1 show ?thesis by (cases rule: textSettings_cases) simp_all
next
  case 2
  with assms(2) have "c' = c\<lparr>cf_Region := v\<rparr>" by (simp only: applySetting_own sum.inject)
  with assms(3) 2 show ?thesis by (cases rule: textSettings_cases) simp_all
next
  case 3
  with assms(2) have "c' = c\<lparr>cf_Endpoint := v\<rparr>" by (simp only: applySetting_own sum.inject)
  with assms(3) 3 show ?thesis by (cases rule: textSettings_cases) simp_all
next
  case 4
  with assms(2) have "c' = c\<lparr>cf_SSE := v\<rparr>" by (simp only: applySetting_own sum.inject)
  with assms(3) 4 show ?thesis by (cases rule: textSettings_cases) simp_all
next
  case 5
  with assms(2) have "c' = c\<lparr>cf_KMSKeyID := v\<rparr>" by (simp only: applySetting_own sum.inject)
  with assms(3) 5 show ?thesis by (cases rule: textSettings_cases) simp_all
next
  case 6
  with assms(2) have "c' = c\<lparr>cf_LogFormat := v\<rparr>" by (simp only: applySetting_own sum.inject)
  with assms(3) 6 show ?thesis by (cases rule: textSettings_cases) simp_all
qed

lemma applySetting_text:
  assumes "applySetting c k v = Inr c'" "(k', f) \<in> set textSettings"
  shows "f c' = (if k = k' then v else f c)"
proof (cases "k \<in> fst ` set textSettings")
  case False
  moreover have "k \<noteq> k'" using False assms(2) by force
  ultimately show ?thesis using textPart_eq [OF applySetting_other [OF assms(1)] assms(2)] by simp
next
  case True
  then obtain f0 where "(k, f0) \<in> set textSettings" by auto
  then show ?thesis using assms by (rule applySetting_text_own)
qed

lemma applyAll_text:
  assumes "applyAll c kvs = Inr c'" "(k', f) \<in> set textSettings" "distinct (map fst kvs)"
  shows "f c' = (case map_of kvs k' of Some (Some v) \<Rightarrow> v | _ \<Rightarrow> f c)"
  using assms(1,3)
proof (induction kvs arbitrary: c)
  case (Cons kv kvs)
  obtain k v where kv: "kv = (k, v)" by (cases kv)
  show ?case
  proof (cases v)
    case None
    then have "f c' = (case map_of kvs k' of Some (Some v) \<Rightarrow> v | _ \<Rightarrow> f c)"
      using Cons kv by simp
    moreover have "map_of kvs k' = None" if "k' = k"
      using that Cons.prems(2) kv by (simp add: map_of_eq_None_iff)
    ultimately show ?thesis using None kv by (cases "k' = k") simp_all
  next
    case (Some x)
    with Cons.prems kv obtain c1 where c1: "applySetting c k x = Inr c1" "applyAll c1 kvs = Inr c'"
      by (auto split: sum.splits)
    have "f c' = (case map_of kvs k' of Some (Some v) \<Rightarrow> v | _ \<Rightarrow> f c1)"
      using Cons.IH [OF c1(2)] Cons.prems(2) by simp
    moreover have "map_of kvs k' = None" if "k' = k"
      using that Cons.prems(2) kv by (simp add: map_of_eq_None_iff)
    ultimately show ?thesis
      using applySetting_text [OF c1(1) assms(2)] kv Some by (cases "k' = k") (simp_all add: eq_commute cong: option.case_cong)
  qed
qed simp

lemma Load_Inr:
  assumes "Load url_Parse Os remote g = (Inr c, g')"
  obtains es where "readGitConfig Os g = (Inr es, g')"
    "applyAll Defaults (map (\<lambda>d. (fst d, settingValue es (os_Environ Os g') remote d)) settings) = Inr c"
    "Config_Validate url_Parse c = None"
proof -
  from assms obtain es g1 where r: "readGitConfig Os g = (Inr es, g1)"
    and l: "(case applyAll Defaults (map (\<lambda>d. (fst d, settingValue es (os_Environ Os g1) remote d)) settings) of
          Inl e \<Rightarrow> (Inl e, g1)
        | Inr c \<Rightarrow> (case Config_Validate url_Parse c of Some e \<Rightarrow> (Inl e, g1) | None \<Rightarrow> (Inr c, g1))) = (Inr c, g')"
    unfolding Load_def by (auto simp only: bindP_Inr_iff)
  from l show thesis
    by (cases "applyAll Defaults (map (\<lambda>d. (fst d, settingValue es (os_Environ Os g1) remote d)) settings)")
      (use r that in \<open>auto split: option.split_asm\<close>)
qed

text \<open>
  C39: precedence of configuration. A text setting of a loaded configuration has the value of its
  environment variable when that is set; otherwise, for a named remote, the last value configured
  for that remote; otherwise the last ordinary value in Git's configuration; otherwise the default.
\<close>

theorem config_precedence:
  assumes "Load url_Parse Os remote g = (Inr c, g')"
    and "(e, ge, su) \<in> set settings" and "(e, f) \<in> set textSettings"
  shows "\<exists>es. readGitConfig Os g = (Inr es, g') \<and>
    f c = (case LookupEnv (os_Environ Os g') e of Some v \<Rightarrow> v | None \<Rightarrow>
          (case (if remote = [] then None else remoteValue es remote su) of Some v \<Rightarrow> v | None \<Rightarrow>
          (case globalValue es ge of Some v \<Rightarrow> v | None \<Rightarrow> f Defaults)))"
proof -
  from assms(1) obtain es where es: "readGitConfig Os g = (Inr es, g')"
    and app: "applyAll Defaults (map (\<lambda>d. (fst d, settingValue es (os_Environ Os g') remote d)) settings) = Inr c"
    by (rule Load_Inr)
  let ?kvs = "map (\<lambda>d. (fst d, settingValue es (os_Environ Os g') remote d)) settings"
  have d: "distinct (map fst ?kvs)" by (simp add: settings_def)
  have "(e, settingValue es (os_Environ Os g') remote (e, ge, su)) \<in> set ?kvs" using assms(2) by force
  then have "map_of ?kvs e = Some (settingValue es (os_Environ Os g') remote (e, ge, su))"
    using d by (rule map_of_is_SomeI [rotated])
  with applyAll_text [OF app assms(3) d] es show ?thesis
    by (auto simp: settingValue_def override_def split: option.splits)
qed

definition no_system :: "(nat, 'a) prog" where
  "no_system = failP (Errorf ''not available'' [])"

definition sample_config_OS :: "nat OS" where
  "sample_config_OS =
     \<lparr>os_Exec = (\<lambda>env dir args stdin g.
        (\<lparr>xr_start = None, xr_out = ''git3.region'' @ [NL] @ ''us-east-1'' @ [CHR 0x00] @
            ''remote.origin.git3region'' @ [NL] @ ''eu-west-1'' @ [CHR 0x00],
          xr_err = [], xr_exit = None, xr_code = Some 0\<rparr>, g)),
      os_Environ = (\<lambda>g. [''HOME=x'', ''GIT3_LOG_FORMAT=json'']), os_CtxErr = (\<lambda>g. None),
      os_MkdirAll = (\<lambda>p. no_system), os_MkdirTemp = (\<lambda>d p. no_system), os_OpenExcl = (\<lambda>p. no_system),
      os_CreateTemp = (\<lambda>d p. no_system), os_Chmod = (\<lambda>p m. no_system), os_WriteFile = (\<lambda>p b. no_system),
      os_Sync = (\<lambda>p. no_system), os_Close = (\<lambda>p. no_system), os_SyncDir = (\<lambda>p. no_system),
      os_Rename = (\<lambda>p q. no_system), os_Remove = (\<lambda>p. no_system), os_RemoveAll = (\<lambda>p. no_system),
      os_ReadFile = (\<lambda>p. no_system), os_Stat = (\<lambda>p. no_system), os_Lock = (\<lambda>p. no_system),
      os_Unlock = (\<lambda>p. no_system)\<rparr>"

definition config_url :: "string \<Rightarrow> URL res" where
  "config_url s = Inl (Errorf ''no URL'' [])"

definition sample_config :: Config where
  "sample_config = Defaults\<lparr>cf_Region := ''eu-west-1'', cf_LogFormat := ''json''\<rparr>"

lemma sample_config_read: "readGitConfig sample_config_OS 0 =
  (Inr [\<lparr>gc_key = ''git3.region'', gc_value = ''us-east-1''\<rparr>,
        \<lparr>gc_key = ''remote.origin.git3region'', gc_value = ''eu-west-1''\<rparr>], 0)"
  by code_simp

lemma sample_config_values:
  "map (\<lambda>d. (fst d, settingValue
      [\<lparr>gc_key = ''git3.region'', gc_value = ''us-east-1''\<rparr>,
        \<lparr>gc_key = ''remote.origin.git3region'', gc_value = ''eu-west-1''\<rparr>]
      (os_Environ sample_config_OS 0) ''origin'' d)) settings =
   map (\<lambda>d. (fst d, if fst d = ''GIT3_REGION'' then Some ''eu-west-1''
      else if fst d = ''GIT3_LOG_FORMAT'' then Some ''json'' else None)) settings"
  by code_simp

lemma sample_config_apply:
  "applyAll Defaults (map (\<lambda>d. (fst d, if fst d = ''GIT3_REGION'' then Some ''eu-west-1''
      else if fst d = ''GIT3_LOG_FORMAT'' then Some ''json'' else None)) settings) = Inr sample_config"
  by (simp add: settings_def applySetting_own sample_config_def)

lemma sample_config_valid: "Config_Validate config_url sample_config = None"
  by (simp add: Config_Validate_def sample_config_def Defaults_def)

lemma sample_config_load: "Load config_url sample_config_OS ''origin'' 0 = (Inr sample_config, 0)"
  unfolding Load_def bindP_def sample_config_read prod.case sum.case sample_config_values sample_config_apply
    sample_config_valid option.case ..

theorem config_precedence_witness:
  "Load config_url sample_config_OS ''origin'' 0 = (Inr sample_config, 0) \<and> cf_Region sample_config = ''eu-west-1''"
proof -
  have "(''GIT3_REGION'', ''git3.region'', ''git3Region'') \<in> set settings" "(''GIT3_REGION'', cf_Region) \<in> set textSettings"
    by (simp_all add: settings_def textSettings_def)
  from config_precedence [OF sample_config_load this] obtain es
    where "readGitConfig sample_config_OS 0 = (Inr es, 0)" and v: "cf_Region sample_config =
      (case LookupEnv (os_Environ sample_config_OS 0) ''GIT3_REGION'' of Some v \<Rightarrow> v | None \<Rightarrow>
      (case (if ''origin'' = [] then None else remoteValue es ''origin'' ''git3Region'') of Some v \<Rightarrow> v | None \<Rightarrow>
      (case globalValue es ''git3.region'' of Some v \<Rightarrow> v | None \<Rightarrow> cf_Region Defaults)))" by auto
  then have es: "es = [\<lparr>gc_key = ''git3.region'', gc_value = ''us-east-1''\<rparr>,
        \<lparr>gc_key = ''remote.origin.git3region'', gc_value = ''eu-west-1''\<rparr>]"
    by (simp only: sample_config_read prod.inject sum.inject)
  have "LookupEnv (os_Environ sample_config_OS 0) ''GIT3_REGION'' = None"
    "remoteValue es ''origin'' ''git3Region'' = Some ''eu-west-1''"
    unfolding es by code_simp+
  with v sample_config_load show ?thesis by simp
qed

lemma int_div_less_iff: "0 < b \<Longrightarrow> (a :: int) div b < k \<longleftrightarrow> a < k * b"
  using pos_imp_zdiv_neg_iff [of b "a - k * b"] div_mult_self1 [of b a "-k"] by (simp add: algebra_simps) linarith

text \<open>
  C40: a configuration that loads can be used: uploads of up to one TiB need at most 10,000 parts, each
  part is between 5 MiB and 5 GiB, and compaction has a fanout of at least two.
\<close>

theorem config_bounds:
  assumes "Load url_Parse Os remote g = (Inr c, g')" and "0 < n" and "n \<le> 2 ^ 40"
  shows "(n + cf_PartSize c - 1) div cf_PartSize c \<le> 10000 \<and> 5 * 2 ^ 20 \<le> cf_PartSize c \<and>
    cf_PartSize c \<le> 5 * 2 ^ 30 \<and> 2 \<le> cf_CompactionFanout c"
proof -
  from assms(1) have v: "Config_Validate url_Parse c = None" by (rule Load_Inr)
  then have p: "cf_PartSize c \<ge> (2 ^ 40 + 9999) div 10000" "5 * 2 ^ 20 \<le> cf_PartSize c" "cf_PartSize c \<le> 5 * 2 ^ 30"
    "2 \<le> cf_CompactionFanout c" unfolding Config_Validate_def firstError_Cons_None failIf_None by auto
  then have "2 ^ 40 \<le> 10000 * cf_PartSize c" by simp
  with assms(3) have "n + cf_PartSize c - 1 < (10000 + 1) * cf_PartSize c" by (simp add: algebra_simps)
  then have "(n + cf_PartSize c - 1) div cf_PartSize c < 10000 + 1"
    using p(2) by (intro iffD2 [OF int_div_less_iff]) simp_all
  with p show ?thesis by simp
qed

theorem config_bounds_witness:
  "Load config_url sample_config_OS ''origin'' 0 = (Inr sample_config, 0) \<and> 5 * 2 ^ 20 \<le> cf_PartSize sample_config"
  using config_bounds [OF sample_config_load, of "2 ^ 40"] sample_config_load by simp

end
