(* ===== verification/Git3_S3.thy ===== *)
theory Git3_S3
  imports Git3_Config Git3_Store
begin

text \<open>
  The store on Amazon S3 (\<^verbatim>\<open>src/internal/store/s3.go\<close>). The client of the AWS SDK (the interface
  \<^verbatim>\<open>s3API\<close>) is a record of calls over an unspecified state \<open>'c\<close>; a failed call carries what
  \<^verbatim>\<open>errors.As\<close> finds in its error: an API error code and an HTTP status.

  \<open>putMultipart\<close> uploads the parts one after the other. The workers of the code, which upload
  several parts at a time, are the step relation of the theory on interleavings.
\<close>

section \<open>The client\<close>

record apierr =
  ae_ErrorCode :: "string option"
  ae_HTTPStatusCode :: "int option"
  ae_Err :: goerr

type_synonym ('c, 'a) call = "'c \<Rightarrow> (apierr + 'a) \<times> 'c"

record GetObjectOutput =
  go_Body :: Reader
  go_ContentLength :: "int option"
  go_ContentRange :: "string option"
  go_ETag :: "string option"
  go_LastModified :: "time option"

record HeadObjectOutput =
  ho_ETag :: "string option"
  ho_ContentLength :: "int option"
  ho_LastModified :: "time option"

record Encryption =
  en_ServerSideEncryption :: string
  en_SSEKMSKeyId :: "string option"
  en_BucketKeyEnabled :: "bool option"

record PutObjectInput =
  pi_Body :: Reader
  pi_ContentLength :: "int option"
  pi_IfMatch :: "string option"
  pi_IfNoneMatch :: "string option"
  pi_ChecksumSHA256 :: "string option"
  pi_Encryption :: Encryption

record CompletedPart =
  cp_ETag :: "string option"
  cp_PartNumber :: nat
  cp_ChecksumSHA256 :: "string option"

record Content =
  ct_Key :: "string option"
  ct_ETag :: "string option"
  ct_Size :: "int option"
  ct_LastModified :: "time option"

record ListOutput =
  lo_Contents :: "Content list"
  lo_IsTruncated :: "bool option"
  lo_NextContinuationToken :: "string option"

text \<open>
  The calls, each with the bucket and the key first: \<^verbatim>\<open>GetObject\<close> with \<^verbatim>\<open>IfNoneMatch\<close> and
  \<^verbatim>\<open>Range\<close>, \<^verbatim>\<open>UploadPart\<close> with the upload, the part number and the body,
  \<^verbatim>\<open>CompleteMultipartUpload\<close> with \<^verbatim>\<open>IfMatch\<close> and \<^verbatim>\<open>IfNoneMatch\<close>, \<^verbatim>\<open>ListObjectsV2\<close> with a
  prefix and the continuation token. \<open>api_Now\<close> is the clock.
\<close>

record 'c s3API =
  api_GetObject :: "string \<Rightarrow> string \<Rightarrow> string option \<Rightarrow> string option \<Rightarrow> ('c, GetObjectOutput) call"
  api_HeadObject :: "string \<Rightarrow> string \<Rightarrow> ('c, HeadObjectOutput) call"
  api_PutObject :: "string \<Rightarrow> string \<Rightarrow> PutObjectInput \<Rightarrow> ('c, string option) call"
  api_CreateMultipartUpload :: "string \<Rightarrow> string \<Rightarrow> Encryption \<Rightarrow> ('c, string option) call"
  api_UploadPart :: "string \<Rightarrow> string \<Rightarrow> string option \<Rightarrow> nat \<Rightarrow> bytes \<Rightarrow>
     ('c, string option \<times> string option) call"
  api_CompleteMultipartUpload :: "string \<Rightarrow> string \<Rightarrow> string option \<Rightarrow> CompletedPart list \<Rightarrow>
     string option \<Rightarrow> string option \<Rightarrow> ('c, string option) call"
  api_AbortMultipartUpload :: "string \<Rightarrow> string \<Rightarrow> string option \<Rightarrow> ('c, unit) call"
  api_DeleteObject :: "string \<Rightarrow> string \<Rightarrow> string option \<Rightarrow> ('c, unit) call"
  api_ListObjectsV2 :: "string \<Rightarrow> string \<Rightarrow> string option \<Rightarrow> ('c, ListOutput) call"
  api_Now :: "'c \<Rightarrow> time"

text \<open>\<open>s3_list_fuel\<close> is not part of the program: it bounds the pages of a listing the model follows.\<close>

record 'c S3 =
  s3_client :: "'c s3API"
  s3_bucket :: string
  s3_loc :: Locator
  s3_cfg :: Config
  s3_encryption :: string
  s3_list_fuel :: nat

text \<open>\<^verbatim>\<open>aws.ToString\<close>, \<^verbatim>\<open>aws.ToInt64\<close>, \<^verbatim>\<open>aws.ToTime\<close>, \<^verbatim>\<open>aws.ToBool\<close>: the zero value for nil.\<close>

definition ToString :: "string option \<Rightarrow> string" where
  "ToString o0 = (case o0 of None \<Rightarrow> [] | Some s \<Rightarrow> s)"

definition ToInt64 :: "int option \<Rightarrow> int" where
  "ToInt64 o0 = (case o0 of None \<Rightarrow> 0 | Some i \<Rightarrow> i)"

definition ToTime :: "time option \<Rightarrow> time" where
  "ToTime o0 = (case o0 of None \<Rightarrow> - 62135596800000000000 | Some t \<Rightarrow> t)"

section \<open>Construction\<close>

record LoadOptions =
  lop_Region :: "string option"
  lop_Profile :: "string option"
  lop_MaxAttempts :: int

definition loadOptions :: "Config \<Rightarrow> LoadOptions" where
  "loadOptions c =
     \<lparr>lop_Region = (if cf_Region c \<noteq> [] then Some (cf_Region c) else None),
      lop_Profile = (if cf_Profile c \<noteq> [] then Some (cf_Profile c) else None),
      lop_MaxAttempts = cf_MaxAttempts c\<rparr>"

text \<open>
  \<open>load\<close> is \<^verbatim>\<open>awsconfig.LoadDefaultConfig\<close>, \<open>newClient\<close> is \<^verbatim>\<open>s3.NewFromConfig\<close> with the path style
  and the base endpoint.
\<close>

definition NewS3 ::
  "(LoadOptions \<Rightarrow> 'g \<Rightarrow> 'a res \<times> 'g) \<Rightarrow> ('a \<Rightarrow> bool \<Rightarrow> string option \<Rightarrow> 'c s3API) \<Rightarrow> nat \<Rightarrow>
     Locator \<Rightarrow> Config \<Rightarrow> ('g, 'c S3) prog"
where
  "NewS3 load newClient fuel l c =
     bindP (load (loadOptions c)) (\<lambda>ac. returnP
       \<lparr>s3_client = newClient ac (cf_PathStyle c)
          (if cf_Endpoint c \<noteq> [] then Some (cf_Endpoint c) else None),
        s3_bucket = loc_Bucket l, s3_loc = l, s3_cfg = c,
        s3_encryption = (if cf_SSE c = ''s3'' then ''AES256'' else if cf_SSE c = ''kms'' then ''aws:kms'' else []),
        s3_list_fuel = fuel\<rparr>)"

definition s3_key :: "'c S3 \<Rightarrow> string \<Rightarrow> string" where
  "s3_key s k = Locator_Key (s3_loc s) k"

section \<open>Errors\<close>

definition mapCode :: "apierr \<Rightarrow> string \<Rightarrow> goerr option" where
  "mapCode e c =
     (if c \<in> {''NoSuchKey'', ''NotFound'', ''404''} then Some ErrNotFound
      else if c \<in> {''NotModified'', ''304''} then Some ErrNotModified
      else if c \<in> {''PreconditionFailed'', ''412'', ''ConditionalRequestConflict'', ''409''} then Some ErrPrecondition
      else if c \<in> {''AccessDenied'', ''InvalidAccessKeyId'', ''ExpiredToken''}
      then Some (E AuthFailed ''s3'' (ae_Err e))
      else if c = ''NoSuchBucket'' then Some (E BucketNotFound ''s3'' (ae_Err e))
      else if c \<in> {''RequestTimeout'', ''SlowDown'', ''ServiceUnavailable'', ''InternalError''}
      then Some (E NetworkExhausted ''s3'' (ae_Err e))
      else None)"

definition mapStatus :: "apierr \<Rightarrow> int \<Rightarrow> goerr option" where
  "mapStatus e n =
     (if n = 304 then Some ErrNotModified
      else if n = 404 then Some ErrNotFound
      else if n = 409 \<or> n = 412 then Some ErrPrecondition
      else if n = 401 \<or> n = 403 then Some (E AuthFailed ''s3'' (ae_Err e))
      else if n \<in> {408, 429, 500, 502, 503, 504} then Some (E NetworkExhausted ''s3'' (ae_Err e))
      else None)"

definition mapS3 :: "apierr \<Rightarrow> goerr" where
  "mapS3 e =
     (case Option.bind (ae_ErrorCode e) (mapCode e) of
        Some g \<Rightarrow> g
      | None \<Rightarrow> (case Option.bind (ae_HTTPStatusCode e) (mapStatus e) of Some g \<Rightarrow> g | None \<Rightarrow> ae_Err e))"

text \<open>A call whose error is mapped.\<close>

definition callP :: "('c, 'a) call \<Rightarrow> ('c, 'a) prog" where
  "callP m c = (case m c of (Inl e, c') \<Rightarrow> (Inl (mapS3 e), c') | (Inr x, c') \<Rightarrow> (Inr x, c'))"

section \<open>Reading\<close>

definition getLimit :: "string \<Rightarrow> nat" where
  "getLimit key =
     (if key = ''.git/git3/HEAD'' then 2 * 2 ^ 20
      else if HasPrefix key ''.git/git3/transactions/'' then 64 * 2 ^ 20
      else if HasPrefix key ''.git/git3/log-pages/'' \<or> HasPrefix key ''.git/git3/refs/'' then 128 * 2 ^ 20
      else if HasPrefix key ''.git/git3/packsets/'' then 64 * 2 ^ 20
      else if HasPrefix key ''.git/git3/gc/'' then 256 * 2 ^ 20
      else 2 ^ 40)"

definition S3_Get :: "'c S3 \<Rightarrow> string \<Rightarrow> string \<Rightarrow> ('c, Object) prog" where
  "S3_Get s key none =
     bindP (callP (api_GetObject (s3_client s) (s3_bucket s) (s3_key s key)
              (if none \<noteq> [] then Some none else None) None)) (\<lambda>out.
     checkP (case go_ContentLength out of
         None \<Rightarrow> None
       | Some n \<Rightarrow> failIf (n > int (getLimit key)) (Errorf ''object %s exceeds read limit'' [key]))
     (let b = fst (go_Body out) in
      checkP (failIf (length b > getLimit key) (Errorf ''object %s exceeds read limit'' [key]))
      (checkP (snd (go_Body out))
       (returnP \<lparr>ob_Body = b, ob_ETag = ToString (go_ETag out), ob_Size = int (length b),
                 ob_LastModified = ToTime (go_LastModified out)\<rparr>))))"

definition parseContentRange :: "string \<Rightarrow> (int \<times> int \<times> int) option" where
  "parseContentRange v =
     (if \<not> HasPrefix v ''bytes '' then None
      else (case CutByte (TrimPrefix v ''bytes '') (CHR ''/'') of
          (span, totalText, ok) \<Rightarrow>
           (if \<not> ok then None
            else (case CutByte span (CHR ''-'') of
                (startText, endText, ok') \<Rightarrow>
                 (if \<not> ok' then None
                  else (case (Atoi startText, Atoi endText, Atoi totalText) of
                      (Some a, Some b, Some n) \<Rightarrow>
                        (if a < 0 \<or> b < a \<or> n \<le> b then None else Some (a, b, n))
                    | _ \<Rightarrow> None))))))"

definition S3_OpenRange :: "'c S3 \<Rightarrow> string \<Rightarrow> int \<Rightarrow> int \<Rightarrow> ('c, Range) prog" where
  "S3_OpenRange s key start end =
     checkP (failIf (start < 0 \<or> end < start) (Errorf ''invalid range'' []))
     (bindP (callP (api_GetObject (s3_client s) (s3_bucket s) (s3_key s key) None
              (Some (''bytes='' @ dec_int start @ ''-'' @ dec_int end)))) (\<lambda>out.
      (let want = end - start + 1 in
       case parseContentRange (ToString (go_ContentRange out)) of
         None \<Rightarrow> failP (Errorf ''invalid range response metadata'' [])
       | Some (a, b, tot) \<Rightarrow>
          (if a \<noteq> start \<or> b \<noteq> end \<or> tot \<le> end \<or> go_ContentLength out \<noteq> Some want
           then failP (Errorf ''invalid range response metadata'' [])
           else returnP \<lparr>rg_Body = go_Body out, rg_Size = want, rg_TotalSize = tot\<rparr>))))"

definition S3_Head :: "'c S3 \<Rightarrow> string \<Rightarrow> ('c, Metadata) prog" where
  "S3_Head s key =
     bindP (callP (api_HeadObject (s3_client s) (s3_bucket s) (s3_key s key))) (\<lambda>out.
     returnP \<lparr>md_Key = key, md_ETag = ToString (ho_ETag out), md_Size = ToInt64 (ho_ContentLength out),
              md_LastModified = ToTime (ho_LastModified out)\<rparr>)"

section \<open>Writing\<close>

text \<open>\<^verbatim>\<open>bytesToHex\<close> decodes lower-case hexadecimal text.\<close>

definition hexIndex :: "char \<Rightarrow> nat option" where
  "hexIndex c = IndexByte ''0123456789abcdef'' c"

fun decodeHex :: "string \<Rightarrow> bytes option" where
  "decodeHex [] = Some []"
| "decodeHex [c] = None"
| "decodeHex (a # c # v) =
     (case (hexIndex a, hexIndex c, decodeHex v) of
        (Some i, Some j, Some b) \<Rightarrow> Some (char_of (16 * i + j) # b)
      | _ \<Rightarrow> None)"

text \<open>\<^verbatim>\<open>base64.StdEncoding.EncodeToString\<close>.\<close>

definition base64_digit :: "nat \<Rightarrow> char" where
  "base64_digit n = ''ABCDEFGHIJKLMNOPQRSTUVWXYZabcdefghijklmnopqrstuvwxyz0123456789+/'' ! n"

fun base64 :: "bytes \<Rightarrow> string" where
  "base64 [] = []"
| "base64 [a] = (let n = 65536 * of_char a in
     [base64_digit (n div 262144), base64_digit (n div 4096 mod 64), CHR ''='', CHR ''=''])"
| "base64 [a, b] = (let n = 65536 * of_char a + 256 * of_char b in
     [base64_digit (n div 262144), base64_digit (n div 4096 mod 64), base64_digit (n div 64 mod 64), CHR ''=''])"
| "base64 (a # b # c # v) = (let n = 65536 * of_char a + 256 * of_char b + of_char c in
     base64_digit (n div 262144) # base64_digit (n div 4096 mod 64) # base64_digit (n div 64 mod 64) #
     base64_digit (n mod 64) # base64 v)"

definition s3Encryption :: "'c S3 \<Rightarrow> Encryption" where
  "s3Encryption s =
     \<lparr>en_ServerSideEncryption = s3_encryption s,
      en_SSEKMSKeyId = (if s3_encryption s = ''aws:kms'' \<and> cf_KMSKeyID (s3_cfg s) \<noteq> []
                        then Some (cf_KMSKeyID (s3_cfg s)) else None),
      en_BucketKeyEnabled = (if s3_encryption s = ''aws:kms'' then cf_BucketKeyEnabled (s3_cfg s) else None)\<rparr>"

definition ifMatchOf :: "PutOptions \<Rightarrow> string option" where
  "ifMatchOf opts = (if po_IfMatch opts \<noteq> [] then Some (po_IfMatch opts) else None)"

definition ifNoneMatchOf :: "PutOptions \<Rightarrow> string option" where
  "ifNoneMatchOf opts = (if po_IfNoneMatch opts then Some ''*'' else None)"

definition stamped :: "'c S3 \<Rightarrow> string \<Rightarrow> string option \<Rightarrow> int \<Rightarrow> ('c, Metadata) prog" where
  "stamped s key etag sz c =
     (Inr \<lparr>md_Key = key, md_ETag = ToString etag, md_Size = sz,
           md_LastModified = api_Now (s3_client s) c\<rparr>, c)"

definition putInput :: "'c S3 \<Rightarrow> Reader \<Rightarrow> int \<Rightarrow> PutOptions \<Rightarrow> PutObjectInput" where
  "putInput s r sz opts =
     \<lparr>pi_Body = r, pi_ContentLength = (if sz \<ge> 0 then Some sz else None),
      pi_IfMatch = ifMatchOf opts, pi_IfNoneMatch = ifNoneMatchOf opts,
      pi_ChecksumSHA256 = (if po_ContentSHA256 opts \<noteq> []
        then map_option base64 (decodeHex (po_ContentSHA256 opts)) else None),
      pi_Encryption = s3Encryption s\<rparr>"

definition putSingle ::
  "'c S3 \<Rightarrow> string \<Rightarrow> Reader \<Rightarrow> int \<Rightarrow> PutOptions \<Rightarrow> ('c, Metadata) prog"
where
  "putSingle s key r sz opts =
     bindP (callP (api_PutObject (s3_client s) (s3_bucket s) (s3_key s key) (putInput s r sz opts))) (\<lambda>etag.
     stamped s key etag sz)"

text \<open>One part; the completed part records its number.\<close>

definition uploadPart ::
  "'c S3 \<Rightarrow> string \<Rightarrow> string option \<Rightarrow> nat \<Rightarrow> bytes \<Rightarrow> ('c, CompletedPart) prog"
where
  "uploadPart s key uid n body =
     bindP (callP (api_UploadPart (s3_client s) (s3_bucket s) (s3_key s key) uid n body)) (\<lambda>(etag, sum).
     returnP \<lparr>cp_ETag = etag, cp_PartNumber = n, cp_ChecksumSHA256 = sum\<rparr>)"

text \<open>
  The reading loop from part \<open>n\<close> on: \<^verbatim>\<open>io.ReadFull\<close> fills a buffer of \<open>ps\<close> bytes, stops without a
  part at the end of the input, and yields a shorter last part when the input ends inside it.
\<close>

function uploadParts ::
  "'c S3 \<Rightarrow> string \<Rightarrow> string option \<Rightarrow> nat \<Rightarrow> nat \<Rightarrow> Reader \<Rightarrow> ('c, CompletedPart list \<times> int) prog"
where
  "uploadParts s key uid ps n r =
     (let chunk = take ps (fst r) in
      if length chunk = ps then
        (if n > 10000 then failP (Errorf ''multipart upload exceeds 10,000 parts'' [])
         else bindP (uploadPart s key uid n chunk) (\<lambda>part.
           bindP (uploadParts s key uid ps (Suc n) (drop ps (fst r), snd r)) (\<lambda>(parts, tot).
           returnP (part # parts, int (length chunk) + tot))))
      else (case snd r of
          Some e \<Rightarrow> failP e
        | None \<Rightarrow>
           (if chunk = [] then returnP ([], 0)
            else if n > 10000 then failP (Errorf ''multipart upload exceeds 10,000 parts'' [])
            else bindP (uploadPart s key uid n chunk) (\<lambda>part. returnP ([part], int (length chunk))))))"
  by pat_completeness auto
termination by (relation "measure (\<lambda>(s, key, uid, ps, n, r). 10001 - n)") auto

declare uploadParts.simps [simp del]

text \<open>The deferred abort of an upload that did not complete; its result is dropped.\<close>

definition abortOnError :: "'c S3 \<Rightarrow> string \<Rightarrow> string option \<Rightarrow> ('c, 'a) prog \<Rightarrow> ('c, 'a) prog" where
  "abortOnError s key uid m = tryP m (\<lambda>r. case r of
      Inr x \<Rightarrow> returnP x
    | Inl e \<Rightarrow> (\<lambda>c. (Inl e, snd (api_AbortMultipartUpload (s3_client s) (s3_bucket s) (s3_key s key) uid c))))"

definition putMultipart :: "'c S3 \<Rightarrow> string \<Rightarrow> Reader \<Rightarrow> PutOptions \<Rightarrow> ('c, Metadata) prog" where
  "putMultipart s key r opts =
     bindP (callP (api_CreateMultipartUpload (s3_client s) (s3_bucket s) (s3_key s key) (s3Encryption s))) (\<lambda>uid.
     abortOnError s key uid
       (checkP (failIf (cf_PartSize (s3_cfg s) > 2 ^ 63 - 1) (Errorf ''part size exceeds platform limit'' []))
       (bindP (uploadParts s key uid (nat (cf_PartSize (s3_cfg s))) 1 r) (\<lambda>(parts, tot).
        bindP (callP (api_CompleteMultipartUpload (s3_client s) (s3_bucket s) (s3_key s key) uid
                 (sort_key cp_PartNumber parts) (ifMatchOf opts) (ifNoneMatchOf opts))) (\<lambda>etag.
        stamped s key etag tot)))))"

definition S3_Put ::
  "'c S3 \<Rightarrow> string \<Rightarrow> Reader \<Rightarrow> int \<Rightarrow> PutOptions \<Rightarrow> ('c, Metadata) prog"
where
  "S3_Put s key r sz opts =
     (let threshold = cf_MultipartThreshold (s3_cfg s) in
      if sz < 0 then
        (if int (length (fst r)) > threshold then putMultipart s key r opts
         else (case snd r of
             Some e \<Rightarrow> failP e
           | None \<Rightarrow> putSingle s key (fst r, None) (int (length (fst r))) opts))
      else if sz > 0 \<and> sz \<ge> threshold \<and> po_IfMatch opts = [] then putMultipart s key r opts
      else putSingle s key r sz opts)"

definition S3_Delete :: "'c S3 \<Rightarrow> string \<Rightarrow> DeleteOptions \<Rightarrow> ('c, unit) prog" where
  "S3_Delete s key opts =
     callP (api_DeleteObject (s3_client s) (s3_bucket s) (s3_key s key)
       (if do_IfMatch opts \<noteq> [] then Some (do_IfMatch opts) else None))"

section \<open>Listing\<close>

definition contentMetadata :: "'c S3 \<Rightarrow> Content \<Rightarrow> Metadata" where
  "contentMetadata s x =
     \<lparr>md_Key = (let k = ToString (ct_Key x); base = loc_Prefix (s3_loc s) in
        if base \<noteq> [] then TrimPrefix k (base @ ''/'') else k),
      md_ETag = ToString (ct_ETag x), md_Size = ToInt64 (ct_Size x), md_LastModified = ToTime (ct_LastModified x)\<rparr>"

fun listPages ::
  "nat \<Rightarrow> 'c S3 \<Rightarrow> string \<Rightarrow> string option \<Rightarrow> 'c \<Rightarrow> (Metadata list \<times> goerr option) \<times> 'c"
where
  "listPages 0 s prefix token c = (([], Some OutOfFuel), c)"
| "listPages (Suc fuel) s prefix token c =
     (case api_ListObjectsV2 (s3_client s) (s3_bucket s) (s3_key s prefix) token c of
        (Inl e, c') \<Rightarrow> (([], Some (mapS3 e)), c')
      | (Inr r, c') \<Rightarrow>
         (let ms = map (contentMetadata s) (lo_Contents r); next = lo_NextContinuationToken r in
          if lo_IsTruncated r \<noteq> Some True then ((ms, None), c')
          else if next = None \<or> ToString next = []
          then ((ms, Some (Errorf ''truncated object listing omitted continuation token'' [])), c')
          else if token \<noteq> None \<and> ToString next = ToString token
          then ((ms, Some (Errorf ''truncated object listing repeated continuation token'' [])), c')
          else (case listPages fuel s prefix next c' of ((further, err), c'') \<Rightarrow> ((ms @ further, err), c''))))"

definition S3_List :: "'c S3 \<Rightarrow> string \<Rightarrow> 'c \<Rightarrow> (Metadata list \<times> goerr option) \<times> 'c" where
  "S3_List s prefix = listPages (s3_list_fuel s) s prefix None"

definition S3Store :: "'c S3 \<Rightarrow> 'c Store" where
  "S3Store s =
     \<lparr>st_Get = S3_Get s, st_OpenRange = S3_OpenRange s, st_Head = S3_Head s, st_Put = S3_Put s,
      st_Delete = S3_Delete s, st_List = S3_List s\<rparr>"

end
