(* ===== verification/Git3_Lfs.thy ===== *)
theory Git3_Lfs
  imports Git3_Fetch
begin

text \<open>
  Git LFS: the custom-transfer agent (\<^verbatim>\<open>src/internal/lfs/agent.go\<close>) and its installation
  (\<^verbatim>\<open>src/internal/lfs/install.go\<close>).

  Input is the list of lines the scanner delivers, with the error it stops with; output is the list of
  responses, each of which the encoder writes as one JSON line; writing them does not fail.
  \<^verbatim>\<open>json.Unmarshal\<close> into a request is the argument \<open>decode\<close>. The download workers write disjoint
  ranges of one file; here the ranges are fetched one after the other, and \<^verbatim>\<open>Git3_Pool\<close> models the workers.
  A range body is closed without an error. The functions an agent or an installation is given are there,
  so the tests for nil are left out.
\<close>

section \<open>Data\<close>

definition defaultChunkSize :: int where "defaultChunkSize = 64 * 2 ^ 20"

definition maxObjectSize :: int where "maxObjectSize = 2 ^ 40"

text \<open>The narrow interface \<^verbatim>\<open>ObjectStore\<close>, and what it is for a store.\<close>

record 's ObjectStore =
  obs_Head :: "string \<Rightarrow> ('s, Metadata) prog"
  obs_OpenRange :: "string \<Rightarrow> int \<Rightarrow> int \<Rightarrow> ('s, Range) prog"
  obs_Put :: "string \<Rightarrow> Reader \<Rightarrow> int \<Rightarrow> PutOptions \<Rightarrow> ('s, Metadata) prog"

definition storeObjects :: "'s Store \<Rightarrow> 's ObjectStore" where
  "storeObjects S = \<lparr>obs_Head = st_Head S, obs_OpenRange = st_OpenRange S, obs_Put = st_Put S\<rparr>"

record 's Backend =
  bd_Store :: "'s ObjectStore option"
  bd_DownloadChunkSize :: int
  bd_DownloadConcurrency :: int

text \<open>
  The file operations, as far as the agent uses them: \<open>fs_Stat\<close> yields whether the file is regular,
  whether it is executable, and its size; \<open>fs_Read\<close> reads from the start to the end.
\<close>

record 'g Files =
  fs_Open :: "string \<Rightarrow> ('g, unit) prog"
  fs_Stat :: "string \<Rightarrow> ('g, bool \<times> bool \<times> int) prog"
  fs_SeekStart :: "string \<Rightarrow> ('g, unit) prog"
  fs_Read :: "string \<Rightarrow> 'g \<Rightarrow> Reader \<times> 'g"
  fs_CreateTemp :: "string \<Rightarrow> string \<Rightarrow> ('g, string) prog"
  fs_Truncate :: "string \<Rightarrow> int \<Rightarrow> ('g, unit) prog"
  fs_WriteAt :: "string \<Rightarrow> int \<Rightarrow> bytes \<Rightarrow> ('g, unit) prog"
  fs_Sync :: "string \<Rightarrow> ('g, unit) prog"
  fs_Close :: "string \<Rightarrow> ('g, unit) prog"
  fs_Remove :: "string \<Rightarrow> ('g, unit) prog"
  fs_Abs :: "string \<Rightarrow> ('g, string) prog"

record request =
  rq_Event :: string
  rq_Operation :: string
  rq_Remote :: string
  rq_OID :: string
  rq_Size :: "int option"
  rq_Path :: string

record response =
  rp_Event :: string
  rp_OID :: string
  rp_Path :: string
  rp_BytesSoFar :: int
  rp_BytesSinceLast :: int
  rp_Error :: "(int \<times> string) option"

definition noResponse :: response where
  "noResponse = \<lparr>rp_Event = [], rp_OID = [], rp_Path = [], rp_BytesSoFar = 0, rp_BytesSinceLast = 0, rp_Error = None\<rparr>"

definition objectError :: "goerr \<Rightarrow> int \<times> string" where
  "objectError e = (2, error_string e)"

definition decodeRequest :: "(bytes \<Rightarrow> request res) \<Rightarrow> bytes \<Rightarrow> request res" where
  "decodeRequest decode line =
     (if length line = 0 then Inl (Errorf ''empty protocol line'' []) else decode line)"

definition lfs_progress :: "string \<Rightarrow> int \<Rightarrow> int \<Rightarrow> response" where
  "lfs_progress oid tot delta =
     noResponse\<lparr>rp_Event := ''progress'', rp_OID := oid, rp_BytesSoFar := tot, rp_BytesSinceLast := delta\<rparr>"

section \<open>Checks\<close>

definition oidMatches :: "string \<Rightarrow> bool" where
  "oidMatches s \<longleftrightarrow> length s = 64 \<and> list_all is_hex_lower s"

definition validateTransfer :: "request \<Rightarrow> bool \<Rightarrow> int res" where
  "validateTransfer req upload =
     (if \<not> oidMatches (rq_OID req) then Inl (Errorf ''invalid LFS OID'' [])
      else (case rq_Size req of
          None \<Rightarrow> Inl (Errorf ''invalid LFS object size'' [])
        | Some n \<Rightarrow>
           (if n < 0 \<or> n > maxObjectSize then Inl (Errorf ''invalid LFS object size'' [])
            else if upload \<and> rq_Path req = [] then Inl (Errorf ''upload path is required'' [])
            else Inr n)))"

definition objectKey :: "string \<Rightarrow> string" where
  "objectKey oid = ''.git/git3/lfs/objects/'' @ take 2 oid @ ''/'' @ take 2 (drop 2 oid) @ ''/'' @ oid"

definition chunkSize :: "'s Backend \<Rightarrow> int" where
  "chunkSize bd = (if bd_DownloadChunkSize bd > 0 then bd_DownloadChunkSize bd else defaultChunkSize)"

text \<open>Size and digest of a file.\<close>

definition lfs_fileDigest :: "'g Files \<Rightarrow> (bytes \<Rightarrow> bytes) \<Rightarrow> string \<Rightarrow> ('g, int \<times> string) prog" where
  "lfs_fileDigest Fs Sum256 path =
     bindP (fs_SeekStart Fs path) (\<lambda>_ g.
       (case fs_Read Fs path g of
          ((b, Some e), g') \<Rightarrow> (Inl e, g')
        | ((b, None), g') \<Rightarrow> (Inr (int (length b), EncodeToString (Sum256 b)), g')))"

section \<open>Ranges\<close>

text \<open>The bytes written to the destination, and the error.\<close>

definition lfs_copyRange ::
  "'s ObjectStore \<Rightarrow> string \<Rightarrow> int \<Rightarrow> int \<Rightarrow> int \<Rightarrow> 's \<Rightarrow> (bytes \<times> goerr option) \<times> 's"
where
  "lfs_copyRange ob key start end tot s =
     (case obs_OpenRange ob key start end s of
        (Inl e, s') \<Rightarrow> (([], Some e), s')
      | (Inr part, s') \<Rightarrow>
         (let want = end - start + 1 in
          if rg_Size part \<noteq> want \<or> rg_TotalSize part \<noteq> tot
          then (([], Some (Errorf ''invalid LFS range response'' [])), s')
          else (case copyLimited (rg_Body part) (want + 1) of
              (bs, Some e) \<Rightarrow> ((bs, Some e), s')
            | (bs, None) \<Rightarrow>
               ((bs, failIf (int (length bs) \<noteq> want) (Errorf ''short or oversized LFS range response'' [])), s'))))"

fun hashRanges ::
  "'s ObjectStore \<Rightarrow> string \<Rightarrow> int \<Rightarrow> (int \<times> int) list \<Rightarrow> ('s, bytes) prog"
where
  "hashRanges ob key tot [] s = (Inr [], s)"
| "hashRanges ob key tot ((a, b) # xs) s =
     (case lfs_copyRange ob key a b tot s of
        ((bs, Some e), s') \<Rightarrow> (Inl e, s')
      | ((bs, None), s') \<Rightarrow> bindP (hashRanges ob key tot xs) (\<lambda>cs. returnP (bs @ cs)) s')"

definition verifyRemote ::
  "(bytes \<Rightarrow> bytes) \<Rightarrow> 's ObjectStore \<Rightarrow> string \<Rightarrow> int \<Rightarrow> string \<Rightarrow> int \<Rightarrow> ('s, unit) prog"
where
  "verifyRemote Sum256 ob key sz oid chunk =
     bindP (hashRanges ob key sz (spans chunk sz 0)) (\<lambda>b.
     checkP (failIf (EncodeToString (Sum256 b) \<noteq> oid) (Errorf ''remote LFS object integrity mismatch'' []))
     (returnP ()))"

section \<open>Upload\<close>

definition uploadRemote ::
  "'g Files \<Rightarrow> (bytes \<Rightarrow> bytes) \<Rightarrow> 's ObjectStore \<Rightarrow> int \<Rightarrow> request \<Rightarrow> int \<Rightarrow> ('s \<times> 'g, unit) prog"
where
  "uploadRemote Fs Sum256 ob chunk req sz =
     (let key = objectKey (rq_OID req);
          verify = onStore (verifyRemote Sum256 ob key sz (rq_OID req) chunk) in
      tryP (onStore (obs_Head ob key)) (\<lambda>h. case h of
        Inr md \<Rightarrow>
          checkP (failIf (md_Size md \<noteq> sz) (Errorf ''remote LFS object size mismatch'' [])) verify
      | Inl he \<Rightarrow>
         (if \<not> errors_Is he ErrNotFound then failP he
          else bindP (onLocal (fs_SeekStart Fs (rq_Path req))) (\<lambda>_ w.
            (case fs_Read Fs (rq_Path req) (snd w) of
               (file, g') \<Rightarrow>
                 tryP (onStore (obs_Put ob key file sz
                    \<lparr>po_IfMatch = [], po_IfNoneMatch = True, po_ContentSHA256 = rq_OID req\<rparr>)) (\<lambda>p. case p of
                      Inr _ \<Rightarrow> returnP ()
                    | Inl e \<Rightarrow> if errors_Is e ErrPrecondition then verify else failP e) (fst w, g'))))))"

definition upload ::
  "'g Files \<Rightarrow> (bytes \<Rightarrow> bytes) \<Rightarrow> 's ObjectStore \<Rightarrow> int \<Rightarrow> request \<Rightarrow> ('s \<times> 'g, unit) prog"
where
  "upload Fs Sum256 ob chunk req =
     bindP (liftP (validateTransfer req True)) (\<lambda>sz.
     bindP (onLocal (fs_Open Fs (rq_Path req))) (\<lambda>_.
     finallyP
       (bindP (onLocal (fs_Stat Fs (rq_Path req))) (\<lambda>(regular, executable, n).
        checkP (failIf (\<not> regular \<or> n \<noteq> sz) (Errorf ''LFS upload size or file type mismatch'' []))
        (bindP (onLocal (lfs_fileDigest Fs Sum256 (rq_Path req))) (\<lambda>(n, digest).
         checkP (failIf (n \<noteq> sz \<or> digest \<noteq> rq_OID req) (Errorf ''LFS upload integrity mismatch'' []))
         (uploadRemote Fs Sum256 ob chunk req sz)))))
       (onLocal (fs_Close Fs (rq_Path req)))))"

section \<open>Download\<close>

text \<open>The ranges in order, with the progress responses; the first failure stops.\<close>

fun downloadSpans ::
  "'g Files \<Rightarrow> 's ObjectStore \<Rightarrow> string \<Rightarrow> string \<Rightarrow> int \<Rightarrow> string \<Rightarrow> int \<Rightarrow> (int \<times> int) list \<Rightarrow>
     's \<times> 'g \<Rightarrow> (goerr option \<times> response list) \<times> 's \<times> 'g"
where
  "downloadSpans Fs ob oid key sz path completed [] w = ((None, []), w)"
| "downloadSpans Fs ob oid key sz path completed ((a, b) # xs) (s, g) =
     (case lfs_copyRange ob key a b sz s of
        ((bs, err), s') \<Rightarrow>
          (case fs_WriteAt Fs path a bs g of
             (Inl we, g') \<Rightarrow> ((Some we, []), (s', g'))
           | (Inr _, g') \<Rightarrow>
              (case err of
                 Some e \<Rightarrow> ((Some e, []), (s', g'))
               | None \<Rightarrow>
                  (let done1 = completed + int (length bs) in
                   case downloadSpans Fs ob oid key sz path done1 xs (s', g') of
                     ((e, out), w') \<Rightarrow> ((e, lfs_progress oid done1 (int (length bs)) # out), w')))))"

definition downloadRanges ::
  "'g Files \<Rightarrow> 's ObjectStore \<Rightarrow> int \<Rightarrow> string \<Rightarrow> string \<Rightarrow> int \<Rightarrow> string \<Rightarrow>
     's \<times> 'g \<Rightarrow> (goerr option \<times> response list) \<times> 's \<times> 'g"
where
  "downloadRanges Fs ob chunk oid key sz path w =
     (if sz = 0 then ((None, []), w) else downloadSpans Fs ob oid key sz path 0 (spans chunk sz 0) w)"

definition verifyFile :: "'g Files \<Rightarrow> (bytes \<Rightarrow> bytes) \<Rightarrow> string \<Rightarrow> int \<Rightarrow> string \<Rightarrow> ('g, unit) prog" where
  "verifyFile Fs Sum256 path sz oid =
     bindP (fs_Open Fs path) (\<lambda>_.
     bindP (finallyP (lfs_fileDigest Fs Sum256 path) (fs_Close Fs path)) (\<lambda>(n, digest).
     checkP (failIf (n \<noteq> sz \<or> digest \<noteq> oid) (Errorf ''downloaded LFS object integrity mismatch'' []))
     (returnP ())))"

text \<open>The part after the temporary file exists; its deferred clean-up closes and removes the file.\<close>

definition downloadInto ::
  "'g Files \<Rightarrow> (bytes \<Rightarrow> bytes) \<Rightarrow> 's ObjectStore \<Rightarrow> int \<Rightarrow> string \<Rightarrow> string \<Rightarrow> int \<Rightarrow> string \<Rightarrow>
     's \<times> 'g \<Rightarrow> (unit res \<times> response list) \<times> 's \<times> 'g"
where
  "downloadInto Fs Sum256 ob chunk oid key sz path w =
     (case onLocal (fs_Truncate Fs path sz) w of
        (Inl e, w1) \<Rightarrow> ((Inl e, []), w1)
      | (Inr _, w1) \<Rightarrow>
         (case downloadRanges Fs ob chunk oid key sz path w1 of
            ((Some e, out), w2) \<Rightarrow> ((Inl e, out), w2)
          | ((None, out), w2) \<Rightarrow>
             (case bindP (onLocal (fs_Sync Fs path)) (\<lambda>_.
                   bindP (onLocal (fs_Close Fs path)) (\<lambda>_.
                   onLocal (verifyFile Fs Sum256 path sz oid))) w2 of
                (r, w3) \<Rightarrow> ((r, out), w3))))"

definition discard :: "'g Files \<Rightarrow> string \<Rightarrow> ('g, unit) prog" where
  "discard Fs path = tryP (fs_Close Fs path) (\<lambda>_. fs_Remove Fs path)"

definition download ::
  "'g Files \<Rightarrow> (bytes \<Rightarrow> bytes) \<Rightarrow> string \<Rightarrow> 's ObjectStore \<Rightarrow> int \<Rightarrow> request \<Rightarrow>
     's \<times> 'g \<Rightarrow> (string res \<times> response list) \<times> 's \<times> 'g"
where
  "download Fs Sum256 tempDir ob chunk req w =
     (let key = objectKey (rq_OID req) in
      case bindP (liftP (validateTransfer req False)) (\<lambda>sz.
           bindP (onStore (obs_Head ob key)) (\<lambda>md.
           checkP (failIf (md_Size md \<noteq> sz) (Errorf ''remote LFS object size mismatch'' []))
           (bindP (onLocal (fs_CreateTemp Fs tempDir ''git3-lfs-download-*'')) (\<lambda>path. returnP (path, sz))))) w of
        (Inl e, w1) \<Rightarrow> ((Inl e, []), w1)
      | (Inr (path, sz), w1) \<Rightarrow>
         (case downloadInto Fs Sum256 ob chunk (rq_OID req) key sz path w1 of
            ((Inr _, out), w2) \<Rightarrow> ((Inr path, out), snd (onLocal (fs_Close Fs path) w2))
          | ((Inl e, out), w2) \<Rightarrow> ((Inl e, out), snd (onLocal (discard Fs path) w2))))"

section \<open>The session\<close>

definition lfs_complete :: "string \<Rightarrow> string res \<Rightarrow> response" where
  "lfs_complete oid r =
     (case r of
        Inl e \<Rightarrow> noResponse\<lparr>rp_Event := ''complete'', rp_OID := oid, rp_Error := Some (objectError e)\<rparr>
      | Inr path \<Rightarrow> noResponse\<lparr>rp_Event := ''complete'', rp_OID := oid, rp_Path := path\<rparr>)"

definition transfer ::
  "'g Files \<Rightarrow> (bytes \<Rightarrow> bytes) \<Rightarrow> string \<Rightarrow> string \<Rightarrow> 's ObjectStore \<Rightarrow> int \<Rightarrow> request \<Rightarrow>
     's \<times> 'g \<Rightarrow> (string res \<times> response list) \<times> 's \<times> 'g"
where
  "transfer Fs Sum256 tempDir operation ob chunk req w =
     (if operation = ''upload'' then
        (case upload Fs Sum256 ob chunk req w of
           (Inl e, w') \<Rightarrow> ((Inl e, []), w') | (Inr _, w') \<Rightarrow> ((Inr [], []), w'))
      else download Fs Sum256 tempDir ob chunk req w)"

fun serve ::
  "(bytes \<Rightarrow> request res) \<Rightarrow> 'g Files \<Rightarrow> (bytes \<Rightarrow> bytes) \<Rightarrow> string \<Rightarrow> string \<Rightarrow> 's ObjectStore \<Rightarrow> int \<Rightarrow>
     goerr option \<Rightarrow> bytes list \<Rightarrow> 's \<times> 'g \<Rightarrow> (goerr option \<times> response list) \<times> 's \<times> 'g"
where
  "serve decode Fs Sum256 tempDir operation ob chunk scErr [] w = ((scErr, []), w)"
| "serve decode Fs Sum256 tempDir operation ob chunk scErr (line # ls) w =
     (case decodeRequest decode line of
        Inl e \<Rightarrow> ((Some (Wrapf ''decode LFS transfer: %w'' [] e), []), w)
      | Inr req \<Rightarrow>
         (if rq_Event req = ''terminate'' then ((None, []), w)
          else if rq_Event req \<noteq> operation
          then ((Some (Errorf ''unexpected LFS event %q during %s'' [rq_Event req, operation]), []), w)
          else (case transfer Fs Sum256 tempDir operation ob chunk req w of
              ((r, out), w1) \<Rightarrow>
                (case serve decode Fs Sum256 tempDir operation ob chunk scErr ls w1 of
                   ((e, rest_out), w2) \<Rightarrow>
                     ((e, out @ lfs_complete (rq_OID req) r # rest_out), w2)))))"

text \<open>\<open>Open\<close> resolves the remote named by the init message.\<close>

definition Agent_Run ::
  "(string \<Rightarrow> string \<Rightarrow> ('s \<times> 'g, 's Backend) prog) \<Rightarrow> (bytes \<Rightarrow> request res) \<Rightarrow> 'g Files \<Rightarrow>
     (bytes \<Rightarrow> bytes) \<Rightarrow> string \<Rightarrow> goerr option \<Rightarrow> bytes list \<Rightarrow> 's \<times> 'g \<Rightarrow>
     (goerr option \<times> response list) \<times> 's \<times> 'g"
where
  "Agent_Run Open decode Fs Sum256 tempDir scErr ls0 w =
     (case ls0 of
        [] \<Rightarrow> ((Some (case scErr of Some e \<Rightarrow> e | None \<Rightarrow> ErrUnexpectedEOF), []), w)
      | line # ls \<Rightarrow>
         (case decodeRequest decode line of
            Inl e \<Rightarrow> ((Some (Wrapf ''decode LFS init: %w'' [] e), []), w)
          | Inr init \<Rightarrow>
             (if rq_Event init \<noteq> ''init'' \<or>
                 (rq_Operation init \<noteq> ''upload'' \<and> rq_Operation init \<noteq> ''download'') \<or> rq_Remote init = []
              then ((Some (Errorf ''invalid LFS init message'' []), []), w)
              else (case Open (rq_Operation init) (rq_Remote init) w of
                  (Inl e, w1) \<Rightarrow> ((None, [noResponse\<lparr>rp_Error := Some (objectError e)\<rparr>]), w1)
                | (Inr bd, w1) \<Rightarrow>
                   (case bd_Store bd of
                      None \<Rightarrow> ((None, [noResponse\<lparr>rp_Error :=
                          Some (objectError (Errorf ''remote has no object store'' []))\<rparr>]), w1)
                    | Some ob \<Rightarrow>
                       (case serve decode Fs Sum256 tempDir (rq_Operation init) ob (chunkSize bd) scErr ls w1 of
                          ((e, out), w2) \<Rightarrow> ((e, noResponse # out), w2)))))))"

section \<open>Installation\<close>

definition transferName :: string where "transferName = ''git3-s3''"

definition lfsSettings :: "string \<Rightarrow> (string \<times> string) list" where
  "lfsSettings abs0 =
     [(''lfs.customtransfer.'' @ transferName @ ''.path'', abs0),
      (''lfs.customtransfer.'' @ transferName @ ''.args'', ''lfs-transfer''),
      (''lfs.customtransfer.'' @ transferName @ ''.concurrent'', ''true''),
      (''lfs.customtransfer.'' @ transferName @ ''.direction'', ''both''),
      (''lfs.https://s3/.standalonetransferagent'', transferName),
      (''lfs.https://s3/.locksverify'', ''false'')]"

fun configureAll :: "(string list \<Rightarrow> ('g, bytes) prog) \<Rightarrow> (string \<times> string) list \<Rightarrow> ('g, unit) prog" where
  "configureAll run [] = returnP ()"
| "configureAll run ((k, v) # kvs) =
     bindP (mapErr (Wrapf ''configure %s: %w'' [k])
              (run [''config'', ''--global'', ''--replace-all'', k, v])) (\<lambda>_. configureAll run kvs)"

text \<open>The hook file is read and its mode inspected; the executable bit is the second component.\<close>

definition verifyPrePushHook ::
  "'g Files \<Rightarrow> (string list \<Rightarrow> ('g, bytes) prog) \<Rightarrow> ('g, unit) prog"
where
  "verifyPrePushHook Fs run =
     tryP (run [''rev-parse'', ''--git-path'', ''hooks/pre-push'']) (\<lambda>r. case r of
       Inl _ \<Rightarrow> returnP ()
     | Inr out \<Rightarrow>
        (let failed = Wrapf ''verify Git LFS pre-push hook: %w'' []; hook0 = TrimSpace out in
         if hook0 = [] then failP (Errorf ''verify Git LFS pre-push hook: Git returned an empty hook path'' [])
         else
           bindP (if HasPrefix hook0 ''/'' then returnP hook0 else mapErr failed (fs_Abs Fs hook0)) (\<lambda>hook.
           bindP (mapErr failed (\<lambda>g. case fs_Read Fs hook g of
               ((b, Some e), g') \<Rightarrow> (Inl e, g') | ((b, None), g') \<Rightarrow> (Inr b, g'))) (\<lambda>contents.
           bindP (mapErr failed (fs_Stat Fs hook)) (\<lambda>(regular, executable, n).
           checkP (failIf (\<not> executable \<or> \<not> Contains contents ''git lfs pre-push'')
                     (Errorf ''verify Git LFS pre-push hook: %s is not an executable Git LFS hook'' [hook]))
           (returnP ()))))))"

definition Install ::
  "'g Files \<Rightarrow> (string list \<Rightarrow> ('g, bytes) prog) \<Rightarrow> string \<Rightarrow> ('g, unit) prog"
where
  "Install Fs run executable =
     bindP (fs_Abs Fs executable) (\<lambda>abs0.
     bindP (mapErr (Wrapf ''git LFS is required: %w'' []) (run [''lfs'', ''version''])) (\<lambda>_.
     bindP (mapErr (Wrapf ''install Git LFS filters and hooks: %w'' []) (run [''lfs'', ''install''])) (\<lambda>_.
     bindP (verifyPrePushHook Fs run) (\<lambda>_.
     bindP (configureAll run (lfsSettings abs0)) (\<lambda>_.
     bindP (mapErr (Wrapf ''verify Git LFS transfer registration: %w'' [])
              (run [''config'', ''--global'', ''--get-urlmatch'', ''lfs.standalonetransferagent'',
                    ''https://s3///git3-probe.git/info/lfs''])) (\<lambda>out.
     checkP (failIf (TrimSpace out \<noteq> transferName)
               (Wrapf ''verify Git LFS transfer registration: %w'' []
                 (Errorf ''resolved agent %q'' [TrimSpace out])))
     (returnP ())))))))"

end
