(* ===== verification/Git3_Helper.thy ===== *)
theory Git3_Helper
  imports Git3_Push
begin

text \<open>
  Git's remote-helper protocol (\<^verbatim>\<open>src/internal/helper/helper.go\<close>): the loop over the lines of
  standard input, the options, the ref advertisement, and the fetch and push batches.

  \<^verbatim>\<open>In\<close> is the list of lines the scanner delivers, with the error it stops with, if any. \<^verbatim>\<open>Out\<close> is
  the text written so far: the buffered writer is flushed on every way out, and writing does not
  fail. \<^verbatim>\<open>Err\<close> is the sequence of warnings and progress calls; \<^verbatim>\<open>progress.go\<close> turns the calls
  into text. Go iterates over a map in no fixed order, which is the argument \<open>ord\<close>.
\<close>

section \<open>Data\<close>

datatype ProgressUnit = ProgressUnitNone | ProgressUnitBytes | ProgressUnitCount

record ProgressEvent =
  pe_Phase :: string
  pe_Current :: u64
  pe_Total :: u64
  pe_Unit :: ProgressUnit
  pe_Done :: bool

datatype err_event = Warned string | Updated ProgressEvent | Wrote bytes

text \<open>
  The interface \<^verbatim>\<open>Remote\<close>. \<^verbatim>\<open>Fetch\<close> and \<^verbatim>\<open>Push\<close> are told whether a progress sink is present and
  return the calls they made on it.
\<close>

record 'w Remote =
  rm_Advertise :: "('w, Advertisement) prog"
  rm_Fetch :: "Advertisement \<Rightarrow> string list \<Rightarrow> bool \<Rightarrow> 'w \<Rightarrow> (FetchReport res \<times> err_event list) \<times> 'w"
  rm_Push :: "Advertisement option \<Rightarrow> PushCommand list \<Rightarrow> PushOptions \<Rightarrow> bool \<Rightarrow>
     'w \<Rightarrow> (PushResult list res \<times> err_event list) \<times> 'w"

record Helper =
  hl_Out :: string
  hl_Err :: "err_event list"
  hl_advertisement :: "Advertisement option"
  hl_atomic :: bool
  hl_connectivity :: bool
  hl_progress :: bool
  hl_verbosity :: int
  hl_dryRun :: bool
  hl_wantObjectFormat :: bool
  hl_requestedFormat :: string

definition NewHelper :: Helper where
  "NewHelper =
     \<lparr>hl_Out = [], hl_Err = [], hl_advertisement = None, hl_atomic = False, hl_connectivity = False,
      hl_progress = False, hl_verbosity = 0, hl_dryRun = False, hl_wantObjectFormat = False,
      hl_requestedFormat = []\<rparr>"

section \<open>Small operations\<close>

definition say :: "string list \<Rightarrow> Helper \<Rightarrow> Helper" where
  "say ls h = h\<lparr>hl_Out := hl_Out h @ println_lines ls\<rparr>"

definition note_err :: "err_event list \<Rightarrow> Helper \<Rightarrow> Helper" where
  "note_err es h = h\<lparr>hl_Err := hl_Err h @ es\<rparr>"

definition sanitize :: "string \<Rightarrow> string" where
  "sanitize s = map (\<lambda>c. if c = CHR 0x0A \<or> c = CHR 0x0D then CHR '' '' else c) s"

text \<open>
  The insertion sort of \<^verbatim>\<open>sorted\<close>. The inner loop swaps the element at \<^verbatim>\<open>j\<close> towards the front while
  it is smaller than its neighbour; the sorted front part is kept in reverse.
\<close>

fun swapDown :: "string \<Rightarrow> string list \<Rightarrow> string list" where
  "swapDown x [] = [x]"
| "swapDown x (y # front) = (if x < y then y # swapDown x front else x # y # front)"

definition sorted_names :: "string list \<Rightarrow> string list" where
  "sorted_names o0 = rev (fold swapDown o0 [])"

definition progressSink :: "Helper \<Rightarrow> bool" where
  "progressSink h \<longleftrightarrow> \<not> (\<not> hl_progress h \<and> hl_verbosity h < 2)"

definition resolving :: "bool \<Rightarrow> ProgressEvent" where
  "resolving d = \<lparr>pe_Phase = ''Resolving S3 repository state'', pe_Current = 0, pe_Total = 0,
     pe_Unit = ProgressUnitNone, pe_Done = d\<rparr>"

definition advertise :: "'w Remote \<Rightarrow> Helper \<Rightarrow> 'w \<Rightarrow> (Advertisement res \<times> Helper) \<times> 'w" where
  "advertise R h w =
     (case hl_advertisement h of
        Some s \<Rightarrow> ((Inr s, h), w)
      | None \<Rightarrow>
         (let h1 = (if progressSink h then note_err [Updated (resolving False)] h else h) in
          case rm_Advertise R w of
            (Inr s, w') \<Rightarrow>
              ((Inr s, (if progressSink h then note_err [Updated (resolving True)] h1 else h1)
                 \<lparr>hl_advertisement := Some s\<rparr>), w')
          | (Inl e, w') \<Rightarrow>
              ((Inl e, if progressSink h \<and> e = ErrNotFound then note_err [Updated (resolving True)] h1 else h1),
               w')))"

section \<open>Options\<close>

text \<open>\<^verbatim>\<open>strconv.ParseBool\<close>.\<close>

definition ParseBool :: "string \<Rightarrow> bool option" where
  "ParseBool s =
     (if s \<in> {''1'', ''t'', ''T'', ''TRUE'', ''true'', ''True''} then Some True
      else if s \<in> {''0'', ''f'', ''F'', ''FALSE'', ''false'', ''False''} then Some False else None)"

definition setFlag :: "string \<Rightarrow> (bool \<Rightarrow> Helper \<Rightarrow> Helper) \<Rightarrow> Helper \<Rightarrow> string \<times> Helper" where
  "setFlag v upd h = (case ParseBool v of
      None \<Rightarrow> (''error invalid boolean'', h) | Some b \<Rightarrow> (''ok'', upd b h))"

definition option0 :: "string \<Rightarrow> string \<Rightarrow> Helper \<Rightarrow> string \<times> Helper" where
  "option0 n v h =
     (if n = ''verbosity'' then
        (case Atoi v of
           None \<Rightarrow> (''error verbosity must be non-negative'', h)
         | Some i \<Rightarrow> if i < 0 then (''error verbosity must be non-negative'', h)
                     else (''ok'', h\<lparr>hl_verbosity := i\<rparr>))
      else if n = ''progress'' then setFlag v (\<lambda>b h. h\<lparr>hl_progress := b\<rparr>) h
      else if n \<in> {''cloning'', ''force'', ''followtags''} then setFlag v (\<lambda>b h. h) h
      else if n = ''check-connectivity'' then setFlag v (\<lambda>b h. h\<lparr>hl_connectivity := b\<rparr>) h
      else if n = ''atomic'' then setFlag v (\<lambda>b h. h\<lparr>hl_atomic := b\<rparr>) h
      else if n = ''dry-run'' then setFlag v (\<lambda>b h. h\<lparr>hl_dryRun := b\<rparr>) h
      else if n = ''object-format'' then
        (if v = ''true'' then (''ok'', h\<lparr>hl_wantObjectFormat := True\<rparr>)
         else if v = ''sha1'' \<or> v = ''sha256''
         then (''ok'', h\<lparr>hl_wantObjectFormat := True, hl_requestedFormat := v\<rparr>)
         else (''error unsupported object format'', h))
      else if n \<in> {''depth'', ''deepen-since'', ''deepen-not'', ''deepen-relative'', ''update-shallow'',
                   ''from-promisor'', ''no-dependents''}
      then (''error shallow and partial operation is unsupported'', h)
      else (''unsupported'', h))"

text \<open>\<^verbatim>\<open>strings.SplitN(line, " ", 3)\<close> of a line that starts with \<^verbatim>\<open>option\<close> and a blank.\<close>

definition optionLine :: "string \<Rightarrow> Helper \<Rightarrow> Helper" where
  "optionLine line h =
     (case CutByte (drop 7 line) (CHR '' '') of
        (n, v, ok) \<Rightarrow>
          (if \<not> ok then say [''error invalid option''] h
           else (case option0 n v h of (reply, h') \<Rightarrow> say [reply] h')))"

section \<open>Advertisement\<close>

definition listLines :: "(refs \<Rightarrow> string list) \<Rightarrow> bool \<Rightarrow> Advertisement \<Rightarrow> string list" where
  "listLines ord want s =
     (if want then ['':object-format '' @ ad_ObjectFormat s] else []) @
     map (\<lambda>ref. (case fmlookup (ad_Refs s) ref of Some oid \<Rightarrow> oid | None \<Rightarrow> []) @ '' '' @ ref)
       (sorted_names (ord (ad_Refs s))) @
     (case ad_HeadSymref s of None \<Rightarrow> [] | Some t \<Rightarrow> [''@'' @ t @ '' HEAD'']) @ [[]]"

definition listCommand ::
  "(refs \<Rightarrow> string list) \<Rightarrow> 'w Remote \<Rightarrow> Helper \<Rightarrow> 'w \<Rightarrow> (goerr option \<times> Helper) \<times> 'w"
where
  "listCommand ord R h w =
     (case advertise R h w of
        ((Inl e, h1), w') \<Rightarrow>
          (if e = ErrNotFound then ((None, say [[]] h1), w') else ((Some e, h1), w'))
      | ((Inr s, h1), w') \<Rightarrow>
          (let h2 = h1\<lparr>hl_advertisement := Some s\<rparr> in
           if hl_requestedFormat h2 \<noteq> [] \<and> hl_requestedFormat h2 \<noteq> ad_ObjectFormat s
           then ((Some (Errorf ''requested object format %s, remote uses %s''
                          [hl_requestedFormat h2, ad_ObjectFormat s]), h2), w')
           else ((None, say (listLines ord (hl_wantObjectFormat h2) s) h2), w')))"

section \<open>Fetch\<close>

text \<open>The lines of a batch up to the empty line; the lines after it are left.\<close>

fun fetchBatch :: "string \<Rightarrow> string list \<Rightarrow> (string list \<times> string list) res" where
  "fetchBatch line ls =
     (if length (Fields line) \<noteq> 3 then Inl (Errorf ''invalid fetch command'' [])
      else (case ls of
          [] \<Rightarrow> Inl ErrUnexpectedEOF
        | l # ls' \<Rightarrow>
           (if l = [] then Inr ([Fields line ! 1], ls')
            else if \<not> HasPrefix l ''fetch '' then Inl (Errorf ''expected fetch command'' [])
            else (case fetchBatch l ls' of
                Inl e \<Rightarrow> Inl e | Inr (req, left) \<Rightarrow> Inr (Fields line ! 1 # req, left)))))"

declare fetchBatch.simps [simp del]

definition fetchCommand ::
  "'w Remote \<Rightarrow> string list \<Rightarrow> Helper \<Rightarrow> 'w \<Rightarrow> (goerr option \<times> Helper) \<times> 'w"
where
  "fetchCommand R req h w =
     (case advertise R h w of
        ((Inl e, h1), w1) \<Rightarrow> ((Some e, h1), w1)
      | ((Inr s, h1), w1) \<Rightarrow>
         (case rm_Fetch R s req (progressSink h1) w1 of
            ((Inl e, calls), w2) \<Rightarrow> ((Some e, note_err calls h1), w2)
          | ((Inr report, calls), w2) \<Rightarrow>
              ((None, say (map (\<lambda>p. ''lock '' @ p) (fr_InstalledKeeps report) @
                           (if hl_connectivity h1 then [''connectivity-ok''] else []) @ [[]])
                        (note_err (calls @ map (\<lambda>m. Warned m) (fr_Warnings report)) h1)), w2)))"

section \<open>Push\<close>

fun pushBatch :: "string \<Rightarrow> string list \<Rightarrow> (string list \<times> string list) res" where
  "pushBatch line ls =
     (case ls of
        [] \<Rightarrow> Inl ErrUnexpectedEOF
      | l # ls' \<Rightarrow>
         (if l = [] then Inr ([TrimPrefix line ''push ''], ls')
          else if \<not> HasPrefix l ''push '' then Inl (Errorf ''expected push command'' [])
          else (case pushBatch l ls' of
              Inl e \<Rightarrow> Inl e | Inr (specs, left) \<Rightarrow> Inr (TrimPrefix line ''push '' # specs, left))))"

declare pushBatch.simps [simp del]

definition parseSpec :: "string \<Rightarrow> PushCommand res" where
  "parseSpec x =
     (case CutByte (TrimPrefix x ''+'') (CHR '':'') of
        (src, dst, ok) \<Rightarrow>
          (if \<not> ok then Inl (Errorf ''invalid push refspec'' [])
           else Inr \<lparr>pc_Source = src, pc_Dst = dst, pc_NewOID = None, pc_Force = HasPrefix x ''+''\<rparr>))"

fun parseSpecs :: "string list \<Rightarrow> PushCommand list res" where
  "parseSpecs [] = Inr []"
| "parseSpecs (x # xs) = (case parseSpec x of
      Inl e \<Rightarrow> Inl e
    | Inr c \<Rightarrow> (case parseSpecs xs of Inl e \<Rightarrow> Inl e | Inr cs \<Rightarrow> Inr (c # cs)))"

definition resultLine :: "PushResult \<Rightarrow> string" where
  "resultLine x = (if pres_OK x then ''ok '' @ pres_Dst x
                   else ''error '' @ pres_Dst x @ '' '' @ sanitize (pres_Reason x))"

definition failureLine :: "goerr \<Rightarrow> PushCommand \<Rightarrow> string" where
  "failureLine e c = ''error '' @ pc_Dst c @ '' '' @ sanitize (error_string e)"

definition pushCommand ::
  "'w Remote \<Rightarrow> string list \<Rightarrow> Helper \<Rightarrow> 'w \<Rightarrow> (goerr option \<times> Helper) \<times> 'w"
where
  "pushCommand R specs h w =
     (case parseSpecs specs of
        Inl e \<Rightarrow> ((Some e, h), w)
      | Inr cmds \<Rightarrow>
         (case rm_Push R (hl_advertisement h) cmds
                 \<lparr>pop_Atomic = hl_atomic h, pop_DryRun = hl_dryRun h\<rparr> (progressSink h) w of
            ((res, calls), w') \<Rightarrow>
              ((None, say ((case res of Inl e \<Rightarrow> map (failureLine e) cmds | Inr rs \<Rightarrow> map resultLine rs) @ [[]])
                        (note_err calls h)), w')))"

section \<open>The loop\<close>

definition capabilities :: "string list" where
  "capabilities = [''fetch'', ''push'', ''option'', ''check-connectivity'', ''object-format'', []]"

lemma fetchBatch_shorter: "fetchBatch line ls = Inr (req, left) \<Longrightarrow> length left < length ls"
proof (induction line ls arbitrary: req rule: fetchBatch.induct)
  case (1 line ls)
  show ?case
  proof (cases ls)
    case (Cons l ls')
    with 1 show ?thesis
      by (fastforce simp: fetchBatch.simps [of line] split: if_splits sum.splits)
  qed (use 1 in \<open>simp add: fetchBatch.simps [of line] split: if_splits\<close>)
qed

lemma pushBatch_shorter: "pushBatch line ls = Inr (specs, left) \<Longrightarrow> length left < length ls"
proof (induction line ls arbitrary: specs rule: pushBatch.induct)
  case (1 line ls)
  show ?case
  proof (cases ls)
    case (Cons l ls')
    with 1 show ?thesis
      by (fastforce simp: pushBatch.simps [of line] split: if_splits sum.splits)
  qed (use 1 in \<open>simp add: pushBatch.simps [of line]\<close>)
qed

function Run ::
  "(refs \<Rightarrow> string list) \<Rightarrow> 'w Remote \<Rightarrow> goerr option \<Rightarrow> string list \<Rightarrow> Helper \<Rightarrow> 'w \<Rightarrow>
     (goerr option \<times> Helper) \<times> 'w"
where
  "Run ord R scErr [] h w = ((scErr, h), w)"
| "Run ord R scErr (line # ls) h w =
     (if line = ''capabilities'' then Run ord R scErr ls (say capabilities h) w
      else if HasPrefix line ''option '' then Run ord R scErr ls (optionLine line h) w
      else if line = ''list'' \<or> line = ''list for-push'' then
        (case listCommand ord R h w of
           ((Some e, h'), w') \<Rightarrow> ((Some e, h'), w')
         | ((None, h'), w') \<Rightarrow> Run ord R scErr ls h' w')
      else if HasPrefix line ''fetch '' then
        (case fetchBatch line ls of
           Inl e \<Rightarrow> ((Some e, h), w)
         | Inr (req, left) \<Rightarrow>
            (case fetchCommand R req h w of
               ((Some e, h'), w') \<Rightarrow> ((Some e, h'), w')
             | ((None, h'), w') \<Rightarrow> Run ord R scErr left h' w'))
      else if HasPrefix line ''push '' then
        (case pushBatch line ls of
           Inl e \<Rightarrow> ((Some e, h), w)
         | Inr (specs, left) \<Rightarrow>
            (case pushCommand R specs h w of
               ((Some e, h'), w') \<Rightarrow> ((Some e, h'), w')
             | ((None, h'), w') \<Rightarrow> Run ord R scErr left h' w'))
      else if line = [] then Run ord R scErr ls h w
      else ((Some (Errorf ''unsupported remote-helper command %q'' [line]), h), w))"
  by pat_completeness auto
termination
  by (relation "measure (\<lambda>(ord, R, scErr, ls, h, w). length ls)")
    (auto dest: fetchBatch_shorter pushBatch_shorter)

section \<open>The engine as a remote\<close>

text \<open>The engine's operations behind the interface; its progress calls are not modelled.\<close>

definition engineRemote :: "'g lib \<Rightarrow> 's Repository \<Rightarrow> ('s \<times> 'g) Remote" where
  "engineRemote X r =
     \<lparr>rm_Advertise = Advertise X r,
      rm_Fetch = (\<lambda>ad req sink w. case Fetch X r (Some ad) req w of (res, w') \<Rightarrow> ((res, []), w')),
      rm_Push = (\<lambda>ad cmds opts sink w. case Push X r ad cmds opts w of (res, w') \<Rightarrow> ((res, []), w'))\<rparr>"

end
