(* ===== verification/Git3_Cli.thy ===== *)
theory Git3_Cli
  imports Git3_Maintenance Git3_S3 Git3_Lfs Git3_Helper
begin

text \<open>
  The program (\<^verbatim>\<open>cmd/git3/main.go\<close>): how a target becomes a repository over an S3 store, what each
  command does with it, and the exit status. The command-line library, which splits the arguments,
  sets the flags and refuses \<^verbatim>\<open>--execute\<close>, \<^verbatim>\<open>--resume\<close> and \<^verbatim>\<open>--abort\<close> together, is outside: a command is
  a definition over its flags and arguments. What is written is the list of outputs; a value that is
  encoded as JSON is kept as the value.
\<close>

section \<open>From a target to a repository\<close>

text \<open>
  What \<^verbatim>\<open>repositoryWithGit\<close> takes from libraries: the URL parser, the AWS configuration loader, the client
  constructor and SHA-256; \<open>sdk_pages\<close> is the bound on listing pages of the S3 store model.
\<close>

record ('g, 'a, 'c) sdk =
  sdk_url_Parse :: "string \<Rightarrow> URL res"
  sdk_Load :: "LoadOptions \<Rightarrow> 'g \<Rightarrow> 'a res \<times> 'g"
  sdk_NewFromConfig :: "'a \<Rightarrow> bool \<Rightarrow> string option \<Rightarrow> 'c s3API"
  sdk_Sum256 :: "bytes \<Rightarrow> bytes"
  sdk_OS :: "'g OS"
  sdk_pages :: nat

definition resolveTarget :: "'g OS \<Rightarrow> string \<Rightarrow> string \<Rightarrow> ('g, string \<times> string) prog" where
  "resolveTarget Os target operation =
     (if HasPrefix target ''s3://'' then returnP ([], target)
      else
       (let configured = bindP (mapErr (Wrapf ''resolve remote %s: %w'' [target])
              (git_Run Os [] [''config'', ''--get'', ''remote.'' @ target @ ''.url'']))
              (\<lambda>b. returnP (target, TrimSpace b)) in
        if operation = ''upload'' then
          tryP (git_Run Os [] [''config'', ''--get'', ''remote.'' @ target @ ''.pushurl'']) (\<lambda>r. case r of
            Inr b \<Rightarrow> if length (TrimSpace b) > 0 then returnP (target, TrimSpace b) else configured
          | Inl _ \<Rightarrow> configured)
        else configured))"

definition storagePolicy :: "Config \<Rightarrow> StoragePolicy" where
  "storagePolicy c =
     \<lparr>sp_ServerSideEncryption = (if cf_SSE c = ''kms'' then ''aws:kms'' else if cf_SSE c = ''s3'' then ''AES256'' else ''inherit''),
      sp_KMSKeyID = (if cf_SSE c = ''kms'' \<and> cf_KMSKeyID c \<noteq> [] then Some (cf_KMSKeyID c) else None),
      sp_BucketKeyEnabled = (if cf_SSE c = ''kms'' then cf_BucketKeyEnabled c else None)\<rparr>"

definition newRepository :: "(bytes \<Rightarrow> bytes) \<Rightarrow> string \<Rightarrow> Locator \<Rightarrow> Config \<Rightarrow> 'c S3 \<Rightarrow> 'c Repository" where
  "newRepository Sum256 version l c s =
     \<lparr>r_Store = S3Store s, r_Git = [], r_Version = version, r_StoragePolicy = storagePolicy c,
      r_DownloadChunkSize = cf_DownloadChunkSize c, r_DownloadConcurrency = cf_DownloadConcurrency c,
      r_CacheID = EncodeToString (Sum256 (Locator_String l)), r_CompactionFanout = cf_CompactionFanout c,
      r_CompactAfterTransactions = cf_CompactAfterTransactions c,
      r_CompactAfterBytes = word_of_int (cf_CompactAfterBytes c)\<rparr>"

text \<open>
  The second component of the result is what the global \<^verbatim>\<open>resolvedLogFormat\<close> has become; it starts as
  \<^verbatim>\<open>human\<close> and is set as soon as the configuration is loaded, also when a later step fails.
\<close>

definition repositoryWithGit ::
  "('g, 'a, 'c) sdk \<Rightarrow> string \<Rightarrow> string \<Rightarrow> string \<Rightarrow> 'g \<Rightarrow> ('c Repository res \<times> string) \<times> 'g"
where
  "repositoryWithGit K version remoteName raw g =
     (case Parse (sdk_url_Parse K) raw of
        Inl e \<Rightarrow> ((Inl e, ''human''), g)
      | Inr l \<Rightarrow>
         (case Load (sdk_url_Parse K) (sdk_OS K) remoteName g of
            (Inl e, g1) \<Rightarrow> ((Inl (E ConfigInvalid ''configuration'' e), ''human''), g1)
          | (Inr c, g1) \<Rightarrow>
             (case NewS3 (sdk_Load K) (sdk_NewFromConfig K) (sdk_pages K) l c g1 of
                (Inl e, g2) \<Rightarrow> ((Inl e, cf_LogFormat c), g2)
              | (Inr s, g2) \<Rightarrow> ((Inr (newRepository (sdk_Sum256 K) version l c s), cf_LogFormat c), g2))))"

definition repository ::
  "('g, 'a, 'c) sdk \<Rightarrow> string \<Rightarrow> string \<Rightarrow> 'g \<Rightarrow> ('c Repository res \<times> string) \<times> 'g"
where
  "repository K version target g =
     (case resolveTarget (sdk_OS K) target [] g of
        (Inl e, g1) \<Rightarrow> ((Inl (E ConfigInvalid ''remote URL'' e), ''human''), g1)
      | (Inr (name, raw), g1) \<Rightarrow> repositoryWithGit K version name raw g1)"

definition repositoryForLFS ::
  "('g, 'a, 'c) sdk \<Rightarrow> string \<Rightarrow> string \<Rightarrow> string \<Rightarrow> 'g \<Rightarrow> ('c Repository res \<times> string) \<times> 'g"
where
  "repositoryForLFS K version operation target g =
     (case resolveTarget (sdk_OS K) target operation g of
        (Inl e, g1) \<Rightarrow> ((Inl e, ''human''), g1)
      | (Inr (name, raw), g1) \<Rightarrow> repositoryWithGit K version name raw g1)"

text \<open>
  The backend of the LFS agent: the repository is opened for every session, and an upload session
  only starts under the write policy.
\<close>

definition lfsOpen ::
  "('g, 'a, 'c) sdk \<Rightarrow> 'g lib \<Rightarrow> string \<Rightarrow> string \<Rightarrow> string \<Rightarrow> ('c \<times> 'g, 'c Backend) prog"
where
  "lfsOpen K X version operation remote =
     bindP (onLocal (\<lambda>g. case repositoryForLFS K version operation remote g of ((r, _), g') \<Rightarrow> (r, g'))) (\<lambda>r.
     bindP (if operation = ''upload'' then ValidateWritePolicy X r else returnP ()) (\<lambda>_.
     returnP \<lparr>bd_Store = Some (storeObjects (r_Store r)), bd_DownloadChunkSize = r_DownloadChunkSize r,
       bd_DownloadConcurrency = r_DownloadConcurrency r\<rparr>))"

section \<open>Commands\<close>

datatype json_out =
    JsonDoctor DoctorReport
  | JsonFsck bool bool "(Code \<times> string) option"
  | JsonPublication string
  | JsonGC GCReport

datatype outcome = Printed string | Notice string | Encoded json_out

text \<open>A command yields the error it returns, if any, and its outputs.\<close>

type_synonym 'w command = "'w \<Rightarrow> (goerr option \<times> outcome list) \<times> 'w"

definition errOf :: "'a res \<Rightarrow> goerr option" where
  "errOf r = (case r of Inl e \<Rightarrow> Some e | Inr _ \<Rightarrow> None)"

definition publicationLine :: "string res \<Rightarrow> outcome list" where
  "publicationLine r = (case r of Inl _ \<Rightarrow> [] | Inr i \<Rightarrow> [Printed (''publicationId='' @ i)])"

definition dec64 :: "u64 \<Rightarrow> string" where "dec64 n = dec (unat n)"

definition versionLine :: "string \<Rightarrow> string \<Rightarrow> string \<Rightarrow> string \<Rightarrow> string \<Rightarrow> outcome list" where
  "versionLine version commit buildTime dirty goVersion =
     [Printed (''git3 '' @ version @ '' commit='' @ commit @ '' buildTime='' @ buildTime @ '' dirty='' @ dirty @
       '' go='' @ goVersion)]"

definition lfsInstallCommand :: "'g Files \<Rightarrow> (string list \<Rightarrow> ('g, bytes) prog) \<Rightarrow> string res \<Rightarrow> 'g command" where
  "lfsInstallCommand Fs run executable g =
     (case bindP (liftP executable) (Install Fs run) g of
        (Inl e, g') \<Rightarrow> ((Some e, []), g')
      | (Inr _, g') \<Rightarrow> ((None, [Printed ''Git LFS configured for s3:// remotes'']), g'))"

definition doctorLine :: "DoctorReport \<Rightarrow> string" where
  "doctorLine rep =
     ''repository='' @ dr_RepositoryID rep @ '' format='' @ dr_ObjectFormat rep @
     '' generation='' @ dec64 (dr_LogicalGeneration rep) @ '' revision='' @ dec64 (dr_ManifestRevision rep) @
     '' maintenance_due='' @ (if dr_MaintenanceDue rep then ''true'' else ''false'')"

definition doctorCommand ::
  "'g lib \<Rightarrow> string \<Rightarrow> bool \<Rightarrow> bool \<Rightarrow> 's Repository \<Rightarrow> ('s \<times> 'g) command"
where
  "doctorCommand X goRuntime asJSON writeTest r w =
     (let threshold = (if r_CompactAfterTransactions r < 1 then 32 else r_CompactAfterTransactions r) in
      case Doctor X goRuntime r threshold w of
        (Inl e, w1) \<Rightarrow> ((Some e, []), w1)
      | (Inr (rep, e), w1) \<Rightarrow>
         (let out = (if asJSON then [Encoded (JsonDoctor rep)]
                     else if e = None then [Printed (doctorLine rep)] else []) in
          if e = None \<and> writeTest
          then (case Probe X r w1 of
              (p, w2) \<Rightarrow> ((errOf p, out @ [Notice ''doctor: creating and deleting a scoped write probe'']), w2))
          else ((e, out), w1)))"

definition fsckCommand :: "'g lib \<Rightarrow> bool \<Rightarrow> bool \<Rightarrow> 's Repository \<Rightarrow> ('s \<times> 'g) command" where
  "fsckCommand X full asJSON r w =
     (case Fsck X r full w of
        (res, w1) \<Rightarrow>
          ((errOf res,
            if asJSON then [Encoded (JsonFsck (errOf res = None) full
                (case res of Inl e \<Rightarrow> Some (CodeOf e, error_string e) | Inr _ \<Rightarrow> None))]
            else if errOf res = None then [Printed ''ok''] else []), w1))"

definition maintenanceCommand :: "'g lib \<Rightarrow> string \<Rightarrow> bool \<Rightarrow> 's Repository \<Rightarrow> ('s \<times> 'g) command" where
  "maintenanceCommand X maxBytes everything r w =
     (case Read X r w of
        (s, w1) \<Rightarrow>
          (let out = (case s of
                  Inl _ \<Rightarrow> []
                | Inr st \<Rightarrow> [Notice (''maintenance: repositoryId='' @ h_RepositoryID (rs_Head st) @
                    '' generation='' @ dec64 (h_LogicalGeneration (rs_Head st)) @
                    '' floor='' @ dec64 (psp_Generation (h_Packset (rs_Head st))))]);
               fanout = (if r_CompactionFanout r < 2 then 4 else r_CompactionFanout r) in
           case (if maxBytes \<noteq> [] \<and> \<not> everything then ParseBytes maxBytes else Inr 0) of
             Inl e \<Rightarrow> ((Some (E ConfigInvalid ''--max-bytes'' e), out), w1)
           | Inr n \<Rightarrow>
              (case Maintenance X r \<lparr>mo_Fanout = fanout, mo_MaxBytes = n\<rparr> w1 of
                 (res, w2) \<Rightarrow> ((errOf res, out @ publicationLine res), w2))))"

definition setHeadCommand :: "'g lib \<Rightarrow> string \<Rightarrow> 's Repository \<Rightarrow> ('s \<times> 'g) command" where
  "setHeadCommand X ref r w =
     (case SetHead X r ref w of
        (res, w1) \<Rightarrow> ((errOf res, Notice (''set-head: target='' @ ref) # publicationLine res), w1))"

section \<open>Garbage collection\<close>

text \<open>
  \<^verbatim>\<open>time.Parse(time.RFC3339, v)\<close> and \<^verbatim>\<open>time.ParseDuration\<close> are arguments; a duration is a 64-bit number
  of nanoseconds.
\<close>

definition parseCutoff ::
  "(string \<Rightarrow> time option) \<Rightarrow> (string \<Rightarrow> 64 word res) \<Rightarrow> ('g \<Rightarrow> time \<times> 'g) \<Rightarrow> string \<Rightarrow> ('g, time) prog"
where
  "parseCutoff parseTime ParseDuration Now v g =
     (case parseTime v of
        Some t \<Rightarrow> (Inr t, g)
      | None \<Rightarrow>
         (if length v > 1 \<and> (last v = CHR ''d'' \<or> last v = CHR ''w'')
          then (case ParseUint (butlast v) 32 of
              None \<Rightarrow> (Inl (Errorf ''duration outside supported range'' []), g)
            | Some n \<Rightarrow>
               (if n > 10000 then (Inl (Errorf ''duration outside supported range'' []), g)
                else (let days = of_nat n * 24 * 3600000000000 :: 64 word;
                          hours = (if last v = CHR ''w'' then days * 7 else days) in
                      case Now g of (now, g') \<Rightarrow> (Inr (now + sint (- hours)), g'))))
          else (case ParseDuration v of
              Inl e \<Rightarrow> (Inl e, g)
            | Inr d \<Rightarrow>
               (if d <s 0 then (Inl (Errorf ''duration must be positive'' []), g)
                else (case Now g of (now, g') \<Rightarrow> (Inr (now + sint (- d)), g'))))))"

record GCFlags =
  gf_execute :: bool
  gf_older :: string
  gf_resume :: string
  gf_abort :: string
  gf_json :: bool

definition gcNotice :: "GCReport \<Rightarrow> outcome" where
  "gcNotice p = Notice (''gc: repositoryId='' @ gcr_RepositoryID p @ '' cutoff='' @ gcr_Cutoff p @ '' candidates='' @
     dec (length (gcr_Candidates p)) @ '' bytes='' @ dec64 (gcr_TotalBytes p))"

definition candidateLine :: "GCCandidate \<Rightarrow> outcome" where
  "candidateLine c = Printed (gcc_Category c @ '' '' @ dec64 (gcc_Size c) @ '' '' @ gcc_ETag c @ '' '' @
     gcc_LastModified c @ '' '' @ gcc_Key c)"

definition reportLines :: "GCReport \<Rightarrow> outcome list" where
  "reportLines p =
     Printed (''repositoryId='' @ gcr_RepositoryID p @ '' publicationId='' @ gcr_PublicationID p @ '' etag='' @ gcr_ETag p @
       '' candidates='' @ dec (length (gcr_Candidates p)) @ '' bytes='' @ dec64 (gcr_TotalBytes p) @
       '' cutoff='' @ gcr_Cutoff p) # map candidateLine (gcr_Candidates p)"

definition zeroGCReport :: GCReport where
  "zeroGCReport = \<lparr>gcr_RepositoryID = [], gcr_PublicationID = [], gcr_ETag = [], gcr_Cutoff = [], gcr_Candidates = [], gcr_TotalBytes = 0\<rparr>"

definition gcCommand ::
  "(string \<Rightarrow> time option) \<Rightarrow> (string \<Rightarrow> 64 word res) \<Rightarrow> 'g lib \<Rightarrow> GCFlags \<Rightarrow> 's Repository \<Rightarrow> ('s \<times> 'g) command"
where
  "gcCommand parseTime ParseDuration X f r w =
     (if gf_abort f \<noteq> [] then (case GCAbort X r (gf_abort f) w of (res, w1) \<Rightarrow> ((errOf res, publicationLine res), w1))
      else if gf_resume f \<noteq> [] then (case GCResume X r (gf_resume f) w of (res, w1) \<Rightarrow> ((errOf res, publicationLine res), w1))
      else
       (case x_Now X (snd w) of (now, g1) \<Rightarrow>
        (case (if gf_older f \<noteq> [] then parseCutoff parseTime ParseDuration (x_Now X) (gf_older f) g1 else (Inr now, g1)) of
           (Inl e, g2) \<Rightarrow> ((Some (E ConfigInvalid ''--older-than'' e), []), (fst w, g2))
         | (Inr cutoff, g2) \<Rightarrow>
            (if gf_execute f \<and> gf_older f = []
             then ((Some (E ConfigInvalid ''gc'' (Errorf ''--execute requires --older-than'' [])), []), (fst w, g2))
             else if gf_execute f then
               (case GCDryRun X r cutoff (fst w, g2) of
                  (Inl e, w1) \<Rightarrow> ((Some e, []), w1)
                | (Inr preview, w1) \<Rightarrow>
                   (case GCExecute X r cutoff w1 of
                      (res, w2) \<Rightarrow>
                        ((errOf res, gcNotice preview #
                           (case res of Inr i \<Rightarrow> if gf_json f then [Encoded (JsonPublication i)] else publicationLine res
                            | Inl _ \<Rightarrow> [])), w2)))
             else
               (case GCDryRun X r cutoff (fst w, g2) of
                  (Inl e, w1) \<Rightarrow> ((Some e, if gf_json f then [Encoded (JsonGC zeroGCReport)] else []), w1)
                | (Inr rep, w1) \<Rightarrow> ((None, if gf_json f then [Encoded (JsonGC rep)] else reportLines rep), w1))))))"

section \<open>Exit\<close>

text \<open>
  \<^verbatim>\<open>fatal\<close>: the line on standard error, as the code with the message or as a JSON record, and the exit status.
\<close>

datatype failure_report = HumanReport string | JsonReport string Code string string



definition fatal :: "string \<Rightarrow> string \<Rightarrow> time \<Rightarrow> string \<Rightarrow> goerr \<Rightarrow> failure_report \<times> int" where
  "fatal resolvedLogFormat env now version e =
     (let code = CodeOf e in
      (if resolvedLogFormat = ''json'' \<or> env = ''json''
       then JsonReport (FormatTime now) code (error_string e) version
       else HumanReport (Code_string code @ '': '' @ error_string e),
       ExitCode code))"

definition exitStatus :: "goerr option \<Rightarrow> int" where
  "exitStatus e = (case e of None \<Rightarrow> 0 | Some err \<Rightarrow> ExitCode (CodeOf err))"

text \<open>\<^verbatim>\<open>git-remote-s3 name url\<close>: the repository behind the remote-helper protocol.\<close>

definition remoteHelper ::
  "('g, 'a, 'c) sdk \<Rightarrow> 'g lib \<Rightarrow> string \<Rightarrow> (refs \<Rightarrow> string list) \<Rightarrow> string list \<Rightarrow> goerr option \<Rightarrow> string list \<Rightarrow>
     'c \<times> 'g \<Rightarrow> (goerr option \<times> string) \<times> 'c \<times> 'g"
where
  "remoteHelper K X version ord args scErr input w =
     (if length args \<noteq> 2 then ((Some (Errorf ''usage: git-remote-s3 <name> <s3-url>'' []), []), w)
      else
       (case repositoryWithGit K version (args ! 0) (args ! 1) (snd w) of
          ((Inl e, _), g) \<Rightarrow> ((Some e, []), (fst w, g))
        | ((Inr r, _), g) \<Rightarrow>
           (case Run ord (engineRemote X r) scErr input NewHelper (fst w, g) of
              ((e, h), w') \<Rightarrow> ((e, hl_Out h), w'))))"

text \<open>A command with a target: the repository is opened first.\<close>

definition withRepository ::
  "('g, 'a, 'c) sdk \<Rightarrow> string \<Rightarrow> string \<Rightarrow> ('c Repository \<Rightarrow> ('c \<times> 'g) command) \<Rightarrow> ('c \<times> 'g) command"
where
  "withRepository K version target cmd w =
     (case repository K version target (snd w) of
        ((Inl e, _), g) \<Rightarrow> ((Some e, []), (fst w, g))
      | ((Inr r, _), g) \<Rightarrow> cmd r (fst w, g))"

end
