(* ===== verification/Git3_Sample.thy ===== *)
theory Git3_Sample
  imports Git3_PushRead
begin

text \<open>
  A concrete repository on the in-memory store, on which the hypotheses of the engine's
  properties are evaluated: a repository at generation one with one branch, a digest, a UUID
  generator that counts, and JSON codecs that know the documents of the example.

  The document codecs are tables of texts and values. The documents are those of one push, the
  deletion of the only branch, on two states: one with an empty log tail, and one whose tail
  holds 32 records that create and delete a second branch in turn.
\<close>

section \<open>Libraries\<close>

definition table_codec :: "(string \<times> 'a) list \<Rightarrow> 'a codec" where
  "table_codec t =
     (let dec = (\<lambda>b. case map_of t b of
        None \<Rightarrow> Inl (Errorf ''unexpected document'' []) | Some v \<Rightarrow> Inr (v, Some EOF)) in
      \<lparr>cd_encode = (\<lambda>v. case find (\<lambda>(b, x). x = v) t of
          None \<Rightarrow> Inl (Errorf ''unexpected value'' []) | Some (b, x) \<Rightarrow> Inr b),
       cd_decode = dec, cd_decode_strict = dec\<rparr>)"

definition sample_json :: json_lib where
  "sample_json = \<lparr>tokens = (\<lambda>b. ([NullTok], EOF)), number_json = (\<lambda>s. None), jcs_Transform = Inr\<rparr>"

lemma find_pair: "find P t = Some y \<Longrightarrow> P y \<and> y \<in> set t"
  by (induction t) (auto split: if_splits)

lemma table_codec_ok:
  assumes "distinct (map fst t)" "list_all (\<lambda>(b, x). ValidString b) t"
  shows "codec_ok sample_json (table_codec t) mx"
  unfolding codec_ok_def
proof (intro allI impI)
  fix v b
  assume m: "Marshal sample_json (table_codec t) v = Inr b" and len: "length b \<le> mx"
  from m obtain x where "find (\<lambda>(b, x). x = v) t = Some (b, x)"
    by (auto simp: Marshal_def table_codec_def sample_json_def Let_def split: option.splits if_splits)
  then have bv: "(b, v) \<in> set t" by (auto dest!: find_pair)
  with assms have "map_of t b = Some v" "ValidString b" by (auto simp: list_all_iff)
  with len show "UnmarshalForward sample_json (table_codec t) b mx = Inr v"
    by (simp add: UnmarshalForward_def unmarshalWith_def rejectDuplicatesAndNumbers_def
        scan_fuel_def sample_json_def table_codec_def Let_def ensureEOF_def numeral_eq_Suc)
qed

definition sample_sum :: "bytes \<Rightarrow> bytes" where
  "sample_sum b = take 32 (b @ replicate 32 (CHR 0x00))"

definition sample_id :: "nat \<Rightarrow> string" where
  "sample_id n = ''00000000-0000-4000-8000-0000000000'' @ pad 2 n"

definition sample_ok :: "string \<Rightarrow> exec_result" where
  "sample_ok out =
     \<lparr>xr_start = None, xr_out = out, xr_err = [], xr_exit = None, xr_code = Some 0\<rparr>"

definition no_local :: "(nat, 'a) prog" where
  "no_local = failP (Errorf ''not available'' [])"

definition sample_OS :: "nat OS" where
  "sample_OS =
     \<lparr>os_Exec = (\<lambda>env dir args stdin g.
        (sample_ok (if ''rev-parse'' \<in> set args then ''sha1'' else []), g)),
      os_Environ = (\<lambda>g. []), os_CtxErr = (\<lambda>g. None), os_MkdirAll = (\<lambda>p. no_local),
      os_MkdirTemp = (\<lambda>d p. no_local), os_OpenExcl = (\<lambda>p. no_local),
      os_CreateTemp = (\<lambda>d p. no_local), os_Chmod = (\<lambda>p m. no_local),
      os_WriteFile = (\<lambda>p b. no_local), os_Sync = (\<lambda>p. no_local), os_Close = (\<lambda>p. no_local),
      os_SyncDir = (\<lambda>p. no_local), os_Rename = (\<lambda>p q. no_local), os_Remove = (\<lambda>p. no_local),
      os_RemoveAll = (\<lambda>p. no_local), os_ReadFile = (\<lambda>p. no_local), os_Stat = (\<lambda>p. no_local),
      os_Lock = (\<lambda>p. no_local), os_Unlock = (\<lambda>p. no_local)\<rparr>"

section \<open>Documents\<close>

definition sample_hash :: "bytes \<Rightarrow> string" where
  "sample_hash b = EncodeToString (sample_sum b)"

definition sample_ref :: "string \<Rightarrow> bytes \<Rightarrow> ObjectRef" where
  "sample_ref key b = \<lparr>or_Key = key, or_Size = of_nat (length b), or_SHA256 = sample_hash b\<rparr>"

definition sample_time :: string where
  "sample_time = ''2023-11-14T22:13:20Z''"

definition sample_tx :: "nat \<Rightarrow> string \<Rightarrow> string \<Rightarrow> Update \<Rightarrow> Transaction" where
  "sample_tx g i parent u =
     \<lparr>tx_FormatVersion = 1, tx_RepositoryID = sample_uuid, tx_ObjectFormat = ''sha1'',
      tx_Generation = of_nat (Suc g), tx_TransactionID = i, tx_ParentGeneration = of_nat g,
      tx_ParentTransactionID = Some parent, tx_CreatedAt = sample_time,
      tx_WriterVersion = ''v1'', tx_Updates = [u], tx_ObjectData = None\<rparr>"

definition sample_env :: "string \<Rightarrow> Transaction \<Rightarrow> Envelope" where
  "sample_env b tx = \<lparr>env_Descriptor = sample_ref (transactionKey tx) b, env_Transaction = tx\<rparr>"

definition sample_delete :: Update where
  "sample_delete = \<lparr>up_Ref = ''refs/heads/main'', up_Old = Some sample_oid, up_New = None,
     up_Kind = ''delete''\<rparr>"

definition sample_toggle :: "nat \<Rightarrow> Update" where
  "sample_toggle n =
     (if even n then \<lparr>up_Ref = ''refs/heads/dev'', up_Old = None, up_New = Some sample_oid,
        up_Kind = ''create''\<rparr>
      else \<lparr>up_Ref = ''refs/heads/dev'', up_Old = Some sample_oid, up_New = None,
        up_Kind = ''delete''\<rparr>)"

definition sample_toggle_tx :: "nat \<Rightarrow> Transaction" where
  "sample_toggle_tx n =
     sample_tx (Suc n) (sample_id (50 + n)) (if n = 0 then sample_uuid else sample_id (49 + n))
       (sample_toggle n)"

definition sample_tail :: "Envelope list" where
  "sample_tail = map (\<lambda>n. sample_env ''T'' (sample_toggle_tx n)) [0..<32]"

definition sample_head :: "Envelope list \<Rightarrow> string \<Rightarrow> Head" where
  "sample_head es tip =
     \<lparr>h_FormatVersion = 1, h_RequiredFeatures = Some [], h_RepositoryID = sample_uuid,
      h_ObjectFormat = ''sha1'', h_LogicalGeneration = of_nat (Suc (length es)),
      h_TransactionID = Some tip, h_ManifestRevision = 7, h_PublicationID = sample_uuid,
      h_HeadSymref = Some ''refs/heads/main'',
      h_StoragePolicy = no_policy\<lparr>sp_ServerSideEncryption := ''inherit''\<rparr>,
      h_RefSnapshot = \<lparr>snp_SnapshotID = sample_uuid, snp_Generation = 1,
        snp_TransactionID = Some sample_uuid,
        snp_Object = sample_ref (snapshotKey sample_uuid) sample_text\<rparr>,
      h_Packset = \<lparr>psp_PacksetID = sample_uuid, psp_Generation = 1,
        psp_TransactionID = Some sample_uuid, psp_Object = sample_ref (packsetKey sample_uuid) ''K''\<rparr>,
      h_Log = \<lparr>log_FloorGeneration = 1, log_FloorTransactionID = Some sample_uuid,
        log_TipPage = None, log_Tail = Some es\<rparr>,
      h_GCBarrier = None, h_Extra = fmempty\<rparr>"

definition sample_state :: "Head \<Rightarrow> RemoteState" where
  "sample_state h =
     \<lparr>rs_Head = h, rs_ETag = memory_etag sample_sum ''H'', rs_Refs = sn_Refs sample_snapshot,
      rs_Transactions = map env_Transaction (the (log_Tail (h_Log h))), rs_Cached = False,
      rs_logResolved = True, rs_logEnvelopes = the (log_Tail (h_Log h)), rs_logPages = []\<rparr>"

text \<open>The push on the empty tail, and the push on the full tail.\<close>

definition sample_h0 :: Head where
  "sample_h0 = sample_head [] sample_uuid"

definition sample_t1 :: Transaction where
  "sample_t1 = sample_tx 1 (sample_id 0) sample_uuid sample_delete"

definition sample_h1 :: Head where
  "sample_h1 = (pushCandidate (sample_state sample_h0) sample_t1 [sample_delete] (sample_id 1))
     \<lparr>h_Log := (h_Log sample_h0)\<lparr>log_Tail := Some [sample_env ''T'' sample_t1]\<rparr>\<rparr>"

definition sample_hf :: Head where
  "sample_hf = sample_head sample_tail (sample_id 81)"

definition sample_tf :: Transaction where
  "sample_tf = sample_tx 33 (sample_id 0) (sample_id 81) sample_delete"

definition sample_proposed :: "Envelope list" where
  "sample_proposed = sample_tail @ [sample_env ''F'' sample_tf]"

definition sample_page :: LogPage where
  "sample_page = sealedPage sample_hf (sample_id 2) sample_proposed"

definition sample_hp :: Head where
  "sample_hp = (pushCandidate (sample_state sample_hf) sample_tf [sample_delete] (sample_id 1))
     \<lparr>h_Log := (h_Log sample_hf)\<lparr>
        log_TipPage := Some \<lparr>pp_PageID = sample_id 2, pp_FirstGeneration = 2,
          pp_LastGeneration = 34, pp_Object = sample_ref (pageKey (sample_id 2)) ''P''\<rparr>,
        log_Tail := Some []\<rparr>\<rparr>"

definition sample_packset :: Packset where
  "sample_packset =
     \<lparr>ps_FormatVersion = 1, ps_RepositoryID = sample_uuid, ps_ObjectFormat = ''sha1'',
      ps_PacksetID = sample_uuid, ps_Generation = 1, ps_TransactionID = Some sample_uuid,
      ps_Levels = Some []\<rparr>"

definition sample_lib :: "Head \<Rightarrow> Head \<Rightarrow> nat lib" where
  "sample_lib h h' =
     \<lparr>x_page_fuel = 8, x_OS = sample_OS, x_ident = sample_ident, x_Sum256 = sample_sum,
      x_NewString = (\<lambda>n. (sample_id n, Suc n)), x_Now = (\<lambda>n. (1700000000000000000, n)),
      x_json = sample_json, x_Head = table_codec [(''H'', h), (''N'', h')],
      x_Transaction = table_codec [(''T'', sample_t1), (''F'', sample_tf)],
      x_Envelopes = table_codec [(''E'', [sample_env ''T'' sample_t1]), (''G'', sample_proposed)],
      x_LogPage = table_codec [(''P'', sample_page)],
      x_Packset = table_codec [(''K'', sample_packset)], x_GCPlan = table_codec [], x_Cursor = table_codec []\<rparr>"

definition sample_bucket :: Memory where
  "sample_bucket =
     Memory_Set sample_sum (snapshotKey sample_uuid) sample_text
       (Memory_Set sample_sum HEAD_KEY ''H'' (NewMemory 0))"

definition sample_repository :: "Memory Repository" where
  "sample_repository =
     \<lparr>r_Store = MemoryStore sample_sum, r_Git = ''repo'', r_Version = ''v1'',
      r_StoragePolicy = no_policy, r_DownloadChunkSize = 0, r_DownloadConcurrency = 0,
      r_CacheID = [], r_CompactionFanout = 0, r_CompactAfterTransactions = 0,
      r_CompactAfterBytes = 0\<rparr>"

definition sample_command :: PushCommand where
  "sample_command = \<lparr>pc_Source = [], pc_Dst = ''refs/heads/main'', pc_NewOID = None, pc_Force = False\<rparr>"

definition sample_options :: PushOptions where
  "sample_options = \<lparr>pop_Atomic = True, pop_DryRun = False\<rparr>"

definition sample_push :: "Head \<Rightarrow> Head \<Rightarrow> Memory \<Rightarrow> PushResult list res \<times> (Memory \<times> nat)" where
  "sample_push h h' m =
     pushState (sample_lib h h') sample_repository (sample_state h) [sample_command] sample_options
       (m, 0)"

section \<open>Evaluation\<close>

lemma sample_id_valid: "n < 100 \<Longrightarrow> validUUID sample_ident (sample_id n)"
proof -
  assume n: "n < 100"
  have "list_all is_hex_lower (dec n)"
    using dec_digits [of n] by (auto simp: list_all_iff is_digit_code is_hex_lower_code)
  moreover have "length (pad 2 n) = 2"
    using n by (cases "n < 10") (simp_all add: pad_def dec.simps)
  moreover have "is_hex_lower (CHR ''0'')" "is_hex_lower (CHR ''8'')" "is_hex_lower (CHR ''4'')" by code_simp+
  ultimately show ?thesis
    by (auto simp: validUUID_iff sample_ident_def sample_id_def pad_def list_all_iff)
qed

lemma sample_id_eq: "m < 100 \<Longrightarrow> n < 100 \<Longrightarrow> sample_id m = sample_id n \<longleftrightarrow> m = n"
proof
  assume "sample_id m = sample_id n"
  then have "undec 0 (pad 2 m) = undec 0 (pad 2 n)" by (simp add: sample_id_def)
  moreover have "undec 0 (pad 2 k) = k" for k
  proof -
    have "undec 0 (replicate i (CHR ''0'')) = 0" for i by (induction i) (simp_all add: digit_val_def)
    then show ?thesis by (simp add: pad_def undec_append)
  qed
  ultimately show "m = n" by simp
qed simp

lemma sample_hash_props: "length (sample_hash b) = 64" "hexLower (sample_hash b)"
proof -
  show "length (sample_hash b) = 64" by (simp add: sample_hash_def sample_sum_def)
  then have "sample_hash b \<noteq> []" by auto
  then show "hexLower (sample_hash b)" by (simp add: sample_hash_def hexLower_def)
qed

lemma sample_evaluations:
  "validTime sample_time" "validRefBasic ''refs/heads/dev''"
  "FormatTime 1700000000000000000 = sample_time"
  by code_simp+

lemma toggle_valid:
  assumes "n < 32"
  shows "Transaction_Validate sample_ident (sample_toggle_tx n) = None"
proof -
  have "(2 + of_nat n :: u64) \<noteq> 1"
  proof
    assume "(2 + of_nat n :: u64) = 1"
    then have "unat (of_nat (2 + n) :: u64) = 1" by simp
    moreover have "unat (of_nat (2 + n) :: u64) = 2 + n"
      using assms by (simp only: unsigned_of_nat) (simp add: take_bit_nat_eq_self)
    ultimately show False by simp
  qed
  with assms show ?thesis
    using sample_checks sample_evaluations sample_id_valid
    by (auto simp: Transaction_Validate_def sample_toggle_tx_def sample_tx_def sample_toggle_def
        MaxRefs_def not_le intro!: Nil_less_string)
qed

definition sample_prev :: "nat \<Rightarrow> string" where
  "sample_prev n = (if n = 0 then sample_uuid else sample_id (49 + n))"

lemma toggle_fields:
  "tx_Generation (sample_toggle_tx n) = of_nat (Suc n) + 1" "tx_TransactionID (sample_toggle_tx n) = sample_prev (Suc n)"
  "tx_ParentTransactionID (sample_toggle_tx n) = Some (sample_prev n)"
  "tx_RepositoryID (sample_toggle_tx n) = sample_uuid" "tx_ObjectFormat (sample_toggle_tx n) = ''sha1''"
  "tx_Updates (sample_toggle_tx n) = [sample_toggle n]"
  by (simp_all add: sample_toggle_tx_def sample_tx_def sample_prev_def numeral_eq_Suc algebra_simps)

lemma toggle_checkTail:
  "n \<le> m \<Longrightarrow> m \<le> 32 \<Longrightarrow> checkTail sample_ident tip first (of_nat (Suc n)) (Some (sample_prev n))
     (map (\<lambda>n. sample_env ''T'' (sample_toggle_tx n)) [n..<m]) = Inr (of_nat (Suc m), Some (sample_prev m))"
proof (induction "m - n" arbitrary: n first)
  case (Suc k)
  then have "[n..<m] = n # [Suc n..<m]" by (simp add: upt_rec)
  moreover have "checkTail sample_ident tip False (of_nat (Suc (Suc n))) (Some (sample_prev (Suc n)))
     (map (\<lambda>n. sample_env ''T'' (sample_toggle_tx n)) [Suc n..<m]) = Inr (of_nat (Suc m), Some (sample_prev m))"
    using Suc by (intro Suc.hyps(1)) auto
  ultimately show ?case
    using toggle_valid [of n] Suc by (simp add: sample_env_def toggle_fields Let_def add.commute)
qed (simp)


lemma sample_ref_valid:
  "CHR ''/'' \<notin> set i \<Longrightarrow> length i = 36 \<Longrightarrow> validateObject (sample_ref (snapshotKey i) b) = None"
  "CHR ''/'' \<notin> set i \<Longrightarrow> length i = 36 \<Longrightarrow> validateObject (sample_ref (packsetKey i) b) = None"
  using managed_key_leaf [of "i @ ''.refs''" "''refs''"] managed_key_leaf [of "i @ ''.json''" "''packsets''"]
    sample_hash_props [of b]
  by (auto simp: validateObject_None sample_ref_def snapshotKey_def packsetKey_def)

lemma sample_env_valid:
  assumes "validUUID sample_ident (tx_TransactionID tx)"
  shows "validateObject (env_Descriptor (sample_env b tx)) = None"
  using transactionKey_managed [OF uuid_no_slash [OF sample_ident_canonical assms]] sample_hash_props [of b]
  by (simp add: validateObject_None sample_env_def sample_ref_def)

lemma sample_prev_valid: "n \<le> 32 \<Longrightarrow> validUUID sample_ident (sample_prev n)"
  using sample_checks(1) sample_id_valid [of "49 + n"] by (simp add: sample_prev_def)

lemma toggle_liveChain:
  assumes h: "log_FloorGeneration (h_Log h) = 1" "h_RepositoryID h = sample_uuid" "h_ObjectFormat h = ''sha1''"
    and X: "x_ident X = sample_ident"
  shows "n \<le> m \<Longrightarrow> m \<le> 32 \<Longrightarrow> liveChain X h (of_nat (Suc n)) (Some (sample_prev n))
     (map (\<lambda>n. sample_env ''T'' (sample_toggle_tx n)) [n..<m]) =
     Inr (map (\<lambda>n. sample_env ''T'' (sample_toggle_tx n)) [n..<m], of_nat (Suc m), Some (sample_prev m))"
proof (induction "m - n" arbitrary: n)
  case (Suc k)
  then have "[n..<m] = n # [Suc n..<m]" by (simp add: upt_rec)
  moreover have "liveChain X h (of_nat (Suc (Suc n))) (Some (sample_prev (Suc n)))
     (map (\<lambda>n. sample_env ''T'' (sample_toggle_tx n)) [Suc n..<m]) = Inr (map (\<lambda>n. sample_env ''T'' (sample_toggle_tx n)) [Suc n..<m], of_nat (Suc m), Some (sample_prev m))"
    using Suc by (intro Suc.hyps(1)) auto
  moreover have "\<not> of_nat (Suc (Suc n)) \<le> (1 :: u64)"
    using Suc by (simp add: word_le_nat_alt unsigned_of_nat take_bit_nat_eq_self del: of_nat_Suc)
  moreover have "validateObject (env_Descriptor (sample_env ''T'' (sample_toggle_tx n))) = None"
    using sample_prev_valid [of "Suc n"] Suc by (intro sample_env_valid) (simp add: toggle_fields)
  ultimately show ?case
    using toggle_valid [of n] Suc h X
    by (simp add: toggle_fields Let_def add.commute sample_env_def)
qed simp

lemma toggle_replay:
  assumes "fmlookup refs ''refs/heads/dev'' = None"
  shows "m \<le> 16 \<Longrightarrow> replay 1 refs (map sample_toggle_tx [2 * n..<2 * m]) = Inr refs"
proof (induction "m - n" arbitrary: n)
  case (Suc k)
  then have "[2 * n..<2 * m] = 2 * n # Suc (2 * n) # [2 * Suc n..<2 * m]" by (simp add: upt_rec)
  moreover have "replay 1 refs (map sample_toggle_tx [2 * Suc n..<2 * m]) = Inr refs"
    using Suc by (intro Suc.hyps(1)) auto
  moreover have "of_nat (Suc (Suc (2 * n))) > (1 :: u64)" "of_nat (Suc (Suc (Suc (2 * n)))) > (1 :: u64)"
    using Suc by (simp_all add: word_less_nat_alt unsigned_of_nat take_bit_nat_eq_self del: of_nat_Suc of_nat_mult)
  moreover have "fmput d None (fmput d (Some x) refs) = refs" if "fmlookup refs d = None" for d x
    using that by (auto intro: fmap_ext)
  ultimately show ?case
    using assms by (simp add: toggle_fields sample_toggle_def add.commute)
qed simp


lemma sample_tail_length [simp]: "length sample_tail = 32"
  by (simp add: sample_tail_def)

lemma sample_uuid_facts: "CHR ''/'' \<notin> set sample_uuid" "length sample_uuid = 36" "sample_uuid \<noteq> []"
  by code_simp+

lemma sample_head_fields:
  assumes "length es \<le> 32" "validUUID sample_ident tip"
  shows "Head_Validate_fields sample_ident (sample_head es tip) = None"
proof -
  have "(1 :: u64) \<le> of_nat (Suc (length es))" "of_nat (Suc (length es)) \<noteq> (0 :: u64)"
    using assms(1) by (simp_all add: word_le_nat_alt unat_eq_0 [symmetric] unsigned_of_nat take_bit_nat_eq_self del: of_nat_Suc)
  with assms show ?thesis
    unfolding Head_Validate_fields_def firstError_Cons_None failIf_None
    using sample_checks(1) sample_ref_valid sample_uuid_facts
    by (simp add: sample_head_def bad_generation_id_iff checkTipPage_def sample_ident_def not_less del: of_nat_Suc)
qed

lemma sample_head_valid:
  assumes "length es \<le> 32" "validUUID sample_ident tip"
    "checkTail sample_ident False True 1 (Some sample_uuid) es = Inr (of_nat (Suc (length es)), Some tip)"
  shows "Head_Validate sample_ident (sample_head es tip) = None"
  using sample_head_fields [OF assms(1,2)] assms(3)
  by (simp add: Head_Validate_def Let_def Head_Validate_end_def sample_head_def StoragePolicy_Validate_def
      no_policy_def del: of_nat_Suc checkTail.simps)

lemma sample_valid:
  "Head_Validate sample_ident sample_h0 = None" "Head_Validate sample_ident sample_h1 = None"
  "Head_Validate sample_ident sample_hf = None" "Head_Validate sample_ident sample_hp = None"
proof -
  show "Head_Validate sample_ident sample_h0 = None"
    unfolding sample_h0_def using sample_checks by (intro sample_head_valid) simp_all
  show "Head_Validate sample_ident sample_hf = None"
    unfolding sample_hf_def
    using toggle_checkTail [of 0 32 False True] sample_id_valid
    by (intro sample_head_valid) (simp_all add: sample_tail_def sample_prev_def)
qed code_simp+

lemma table_decode:
  assumes "map_of t b = Some v" "ValidString b" "length b \<le> mx"
  shows "UnmarshalForward sample_json (table_codec t) b mx = Inr v"
  using assms
  by (simp add: UnmarshalForward_def unmarshalWith_def rejectDuplicatesAndNumbers_def
        scan_fuel_def sample_json_def table_codec_def Let_def ensureEOF_def numeral_eq_Suc)

lemma table_encode:
  assumes "find (\<lambda>(b, x). x = v) t = Some (b, v)" "ValidString b"
  shows "Marshal sample_json (table_codec t) v = Inr b"
  using assms by (simp add: Marshal_def table_codec_def sample_json_def Let_def)

lemma sample_strings: "ValidString ''H''" "ValidString ''N''" "ValidString ''T''" "ValidString ''F''"
  "ValidString ''E''" "ValidString ''G''" "ValidString ''P''"
  by code_simp+

lemma sample_lib_fields [simp]:
  "x_ident (sample_lib h h') = sample_ident" "x_json (sample_lib h h') = sample_json"
  "x_Sum256 (sample_lib h h') = sample_sum" "x_OS (sample_lib h h') = sample_OS"
  "x_NewString (sample_lib h h') n = (sample_id n, Suc n)"
  "x_Now (sample_lib h h') n = (1700000000000000000, n)"
  "x_page_fuel (sample_lib h h') = 8"
  by (simp_all add: sample_lib_def)

lemma sample_digest: "digest (sample_lib h h') b = sample_hash b" "shaRef (sample_lib h h') k b = sample_ref k b"
  by (simp_all add: digest_def sample_hash_def shaRef_def sample_ref_def)

lemma sample_codecs:
  "codec_ok (x_json (sample_lib h h')) (x_Head (sample_lib h h')) mx"
  "codec_ok (x_json (sample_lib h h')) (x_LogPage (sample_lib h h')) mx"
  "digest_ok (sample_lib h h')"
  using sample_strings
  by (auto simp: sample_lib_def digest_ok_def sample_sum_def intro!: table_codec_ok)

lemma sample_view:
  "memory_view sample_bucket = [HEAD_KEY \<mapsto> (''H'', memory_etag sample_sum ''H''),
     snapshotKey sample_uuid \<mapsto> (sample_text, memory_etag sample_sum sample_text)]"
proof -
  have "fmlookup (m_objects (NewMemory 0)) k = None" for k by (simp add: NewMemory_def)
  then show ?thesis
    by (simp add: sample_bucket_def Memory_Set_def Memory_Put_def Let_def fun_eq_iff memory_view_def)
qed

lemma sample_snapshot_parse: "ParseSnapshot sample_ident sample_text = Inr sample_snapshot"
  using MarshalText_Parse [OF sample_ident_canonical sample_MarshalText] sample_text_length
  by (simp add: sample_snapshot_def)

lemma sample_readV:
  assumes h: "h = sample_head es tip" and valid: "Head_Validate sample_ident h = None"
    and chain: "liveChain (sample_lib h h') h 1 (Some sample_uuid) es =
      Inr (es, h_LogicalGeneration h, Some tip)"
    and replay: "replay 1 (sn_Refs sample_snapshot) (map env_Transaction es) = Inr (sn_Refs sample_snapshot)"
  shows "readV (sample_lib h h') (memory_view sample_bucket) = Inr (sample_state h)"
proof -
  have dec: "UnmarshalForward sample_json (x_Head (sample_lib h h')) ''H'' MaxHead = Inr h"
    by (simp add: sample_lib_def table_decode sample_strings MaxHead_def)
  have len: "of_nat (length sample_text) \<le> (of_nat MaxSnapshot :: u64)"
    using sample_text_length by (simp add: word_le_nat_alt unsigned_of_nat take_bit_nat_eq_self MaxSnapshot_def)
  have main: "fmlookup (sn_Refs sample_snapshot) ''refs/heads/main'' = Some sample_oid"
    by (simp add: sample_snapshot_def)
  have snap: "verifiedV (sample_lib h h') (memory_view sample_bucket)
      (sample_ref (snapshotKey sample_uuid) sample_text) MaxSnapshot = Inr sample_text"
    using sample_ref_valid(1) [OF sample_uuid_facts(1,2), of sample_text] len
    by (simp add: verifiedV_def sample_view sample_digest sample_ref_def not_less)
  have "collectV (sample_lib h h') (memory_view sample_bucket) h =
      Inr \<lparr>rl_transactions = map env_Transaction es, rl_envelopes = es, rl_pages = []\<rparr>"
    using chain by (simp add: collectV_def h sample_head_def)
  moreover have "reconstructV (sample_lib h h') (memory_view sample_bucket) h
      (map env_Transaction es) = Inr (sn_Refs sample_snapshot)"
    using snap replay main by (simp add: reconstructV_def h sample_head_def sample_snapshot_parse) (simp add: sample_snapshot_def)
  moreover have "headV (sample_lib h h') ''H'' = Inr h"
    using dec valid by (simp add: headV_Inr MaxHead_def)
  ultimately show ?thesis
    using keys_not_HEAD(4) [THEN not_sym]
    by (simp add: readV_def sample_view stateV_def sample_state_def) (simp add: h sample_head_def)
qed


lemma sample_read:
  "readV (sample_lib sample_h0 h') (memory_view sample_bucket) = Inr (sample_state sample_h0)"
  "readV (sample_lib sample_hf h') (memory_view sample_bucket) = Inr (sample_state sample_hf)"
proof -
  show "readV (sample_lib sample_h0 h') (memory_view sample_bucket) = Inr (sample_state sample_h0)"
    using sample_valid(1)
    by (intro sample_readV [where es = "[]" and tip = sample_uuid]) (simp_all add: sample_h0_def sample_head_def)
  have "liveChain (sample_lib sample_hf h') sample_hf 1 (Some sample_uuid) sample_tail =
      Inr (sample_tail, 33, Some (sample_id 81))"
    using toggle_liveChain [of sample_hf "sample_lib sample_hf h'" 0 32]
    by (simp add: sample_hf_def sample_head_def sample_tail_def sample_prev_def)
  moreover have "map env_Transaction sample_tail = map sample_toggle_tx [0..<32]"
    by (simp add: sample_tail_def sample_env_def)
  ultimately show "readV (sample_lib sample_hf h') (memory_view sample_bucket) = Inr (sample_state sample_hf)"
    using sample_valid(3) toggle_replay [of "sn_Refs sample_snapshot" 16 0]
    by (intro sample_readV [where es = sample_tail and tip = "sample_id 81"])
      (simp_all add: sample_hf_def sample_head_def sample_snapshot_def)
qed

text \<open>The steps of the push.\<close>

lemma sample_OS_run: "git_cmd sample_OS dir args stdin g =
    (sample_ok (if ''rev-parse'' \<in> set args then ''sha1'' else []), g)"
  by (simp add: git_cmd_def sample_OS_def)

lemma sample_format: "git_ObjectFormat sample_OS dir g = (Inr ''sha1'', g)"
  by (simp add: git_ObjectFormat_def git_text_def git_Run_def sample_OS_run sample_ok_def exec_error_def
      TrimSpace_def is_space_def)

lemma sample_validatePush:
  "validatePush X sample_repository (sample_state h) [sample_command] (m, n) =
     (Inr ([sample_delete], [okResult sample_command]), (m, n))" if "x_OS X = sample_OS"
  using that
  by (simp add: validatePush_def validateCommand_def sample_command_def sample_state_def sample_snapshot_def
      git_ExistingObjects_def git_CheckRef_def sample_OS_run sample_ok_def exec_error_def onLocal_def tryP_def bindP_def
      Let_def sample_delete_def okResult_def)

lemma sample_makeTransaction:
  assumes "h_RepositoryID h = sample_uuid" "h_ObjectFormat h = ''sha1''" "h_LogicalGeneration h = of_nat g" "h_TransactionID h = Some p"
  shows "makeTransaction (sample_lib k k') sample_repository (sample_state h) [sample_delete] (m, n) =
     (Inr (sample_tx g (sample_id n) p sample_delete), (m, Suc n))"
  using assms sample_evaluations(3)
  by (simp add: makeTransaction_def NewString_def onLocal_def total_def sample_state_def sample_tx_def sample_delete_def
      sample_repository_def Let_def bindP_def add.commute)

lemma memory_immutable:
  assumes "r_Store r = MemoryStore H" "memory_view m k = None"
  shows "\<exists>m'. immutable X r k b (m, g) = (Inr (shaRef X k b), (m', g)) \<and> memory_view m' = (memory_view m)(k \<mapsto> (b, memory_etag H b))"
  using assms
  by (auto simp: immutable_run MemoryStore_def Memory_Put_def put_absent_def memory_view_def Let_def)

lemma memory_publish:
  assumes "r_Store r = MemoryStore H" "Head_Validate (x_ident X) h = None" "Marshal (x_json X) (x_Head X) h = Inr b" "length b \<le> MaxHead"
    "memory_view m HEAD_KEY = Some (b0, hp_expectedETag pub)" "\<not> hp_ifAbsent pub"
  shows "\<exists>m'. publishHead X r h pub (m, g) = (Inr (), (m', g))"
  using assms
  by (auto simp: publishHead_run MemoryStore_def Memory_Put_def head_options_def memory_view_def Let_def)


lemma sample_distinct: "sample_h0 \<noteq> sample_h1" "sample_hf \<noteq> sample_hp" "sample_t1 \<noteq> sample_tf"
  "[sample_env ''T'' sample_t1] \<noteq> sample_proposed"
proof -
  have "h_PublicationID sample_h0 \<noteq> h_PublicationID sample_h1" "h_PublicationID sample_hf \<noteq> h_PublicationID sample_hp"
    by (simp_all add: sample_h0_def sample_h1_def sample_hf_def sample_hp_def sample_head_def pushCandidate_def Let_def
        sample_uuid_def sample_id_def)
  then show "sample_h0 \<noteq> sample_h1" "sample_hf \<noteq> sample_hp" by metis+
  have "tx_Generation sample_t1 \<noteq> tx_Generation sample_tf" by (simp add: sample_t1_def sample_tf_def sample_tx_def)
  then show "sample_t1 \<noteq> sample_tf" by metis
  show "[sample_env ''T'' sample_t1] \<noteq> sample_proposed"
    by (rule notI, drule arg_cong [of _ _ length]) (simp add: sample_proposed_def)
qed

lemma sample_marshals:
  "Marshal sample_json (x_Head (sample_lib sample_h0 sample_h1)) sample_h1 = Inr ''N''"
  "Marshal sample_json (x_Head (sample_lib sample_hf sample_hp)) sample_hp = Inr ''N''"
  "Marshal sample_json (x_Transaction (sample_lib h h')) sample_t1 = Inr ''T''"
  "Marshal sample_json (x_Transaction (sample_lib h h')) sample_tf = Inr ''F''"
  "Marshal sample_json (x_Envelopes (sample_lib h h')) [sample_env ''T'' sample_t1] = Inr ''E''"
  "Marshal sample_json (x_Envelopes (sample_lib h h')) sample_proposed = Inr ''G''"
  "Marshal sample_json (x_LogPage (sample_lib h h')) sample_page = Inr ''P''"
  using sample_distinct sample_strings by (simp_all add: sample_lib_def table_encode)

lemma sample_store_step:
  assumes "Marshal sample_json (x_Transaction (sample_lib h h')) tx = Inr b"
    and m: "memory_view m = memory_view sample_bucket"
  shows "\<exists>m'. storeTransaction (sample_lib h h') sample_repository tx (m, n) =
      (Inr (sample_env b tx), (m', n)) \<and>
    memory_view m' = (memory_view sample_bucket)(transactionKey tx \<mapsto> (b, memory_etag sample_sum b))"
proof -
  have "memory_view m (transactionKey tx) = None"
    by (simp add: m sample_view) (simp add: transactionKey_def snapshotKey_def)
  then obtain m' where "immutable (sample_lib h h') sample_repository (transactionKey tx) b (m, n) =
      (Inr (sample_ref (transactionKey tx) b), (m', n))"
    "memory_view m' = (memory_view sample_bucket)(transactionKey tx \<mapsto> (b, memory_etag sample_sum b))"
    using memory_immutable [of sample_repository sample_sum m "transactionKey tx" "sample_lib h h'" b n]
    by (auto simp: m sample_repository_def sample_digest)
  with assms show ?thesis
    by (simp add: storeTransaction_def sample_env_def bindP_def)
qed

lemma sample_pushUpdates:
  assumes m: "memory_view m = memory_view sample_bucket"
  shows "\<exists>w'. pushUpdates (sample_lib sample_h0 sample_h1) sample_repository (sample_state sample_h0) [sample_delete] (m, 0) = (Inr (), w')"
proof -
  let ?X = "sample_lib sample_h0 sample_h1" and ?s = "sample_state sample_h0"
  obtain m1 where m1: "storeTransaction ?X sample_repository sample_t1 (m, 1) = (Inr (sample_env ''T'' sample_t1), (m1, 1))"
    and v: "memory_view m1 = (memory_view sample_bucket)(transactionKey sample_t1 \<mapsto> (''T'', memory_etag sample_sum ''T''))"
    using sample_store_step [OF sample_marshals(3) m] by blast
  have tx: "makeTransaction ?X sample_repository ?s [sample_delete] (m, 0) = (Inr sample_t1, (m, 1))"
    using sample_makeTransaction [of sample_h0 1 sample_uuid] by (simp add: sample_h0_def sample_head_def sample_t1_def)
  have app: "appendEnvelope ?X sample_repository (pushCandidate ?s sample_t1 [sample_delete] (sample_id 1)) (sample_env ''T'' sample_t1) w =
      (Inr sample_h1, w)" for w
    using sample_marshals(5)
    by (simp add: appendEnvelope_def pushCandidate_def sample_h1_def sample_state_def sample_h0_def sample_head_def Let_def)
  have "memory_view m1 HEAD_KEY = Some (''H'', rs_ETag ?s)"
    using keys_not_HEAD(2,4) [THEN not_sym] by (simp add: v sample_view sample_state_def)
  then obtain m2 where "publishHead ?X sample_repository sample_h1 (pushPublication ?X ?s sample_t1) (m1, 2) = (Inr (), (m2, 2))"
    using memory_publish [of sample_repository sample_sum ?X sample_h1 "''N''" m1 "''H''" "pushPublication ?X ?s sample_t1" 2]
      sample_valid sample_marshals(1)
    by (auto simp: sample_repository_def pushPublication_def MaxHead_def)
  then show ?thesis
    using tx m1 app by (simp add: pushUpdates_def bindP_def NewString_def onLocal_def total_def numeral_2_eq_2)
qed

lemma sample_pushUpdates_full:
  assumes m: "memory_view m = memory_view sample_bucket"
  shows "\<exists>w'. pushUpdates (sample_lib sample_hf sample_hp) sample_repository (sample_state sample_hf) [sample_delete] (m, 0) = (Inr (), w')"
proof -
  let ?X = "sample_lib sample_hf sample_hp" and ?s = "sample_state sample_hf"
  let ?e = "sample_env ''F'' sample_tf"
  obtain m1 where m1: "storeTransaction ?X sample_repository sample_tf (m, 1) = (Inr ?e, (m1, 1))"
    and v: "memory_view m1 = (memory_view sample_bucket)(transactionKey sample_tf \<mapsto> (''F'', memory_etag sample_sum ''F''))"
    using sample_store_step [OF sample_marshals(4) m] by blast
  have tx: "makeTransaction ?X sample_repository ?s [sample_delete] (m, 0) = (Inr sample_tf, (m, 1))"
    using sample_makeTransaction [of sample_hf 33 "sample_id 81"] by (simp add: sample_hf_def sample_head_def sample_tf_def)
  have "memory_view m1 (pageKey (sample_id 2)) = None"
    using other_keys [THEN not_sym] by (simp add: v sample_view) (simp add: snapshotKey_def pageKey_def)
  then obtain m2 where m2: "immutable ?X sample_repository (pageKey (sample_id 2)) ''P'' (m1, 3) =
      (Inr (sample_ref (pageKey (sample_id 2)) ''P''), (m2, 3))"
    and v2: "memory_view m2 = (memory_view m1)(pageKey (sample_id 2) \<mapsto> (''P'', memory_etag sample_sum ''P''))"
    using memory_immutable [of sample_repository sample_sum m1 "pageKey (sample_id 2)" ?X "''P''" 3]
    by (auto simp: sample_repository_def sample_digest)
  define c where "c = pushCandidate ?s sample_tf [sample_delete] (sample_id 1)"
  have page: "sealedPage c (sample_id 2) sample_proposed = sample_page"
    by (simp add: c_def sample_page_def sealedPage_def pushCandidate_def sample_state_def Let_def)
  have ends: "lp_FirstGeneration sample_page = 2" "lp_LastGeneration sample_page = 34"
    by (simp_all add: sample_page_def sealedPage_def sample_proposed_def sample_tail_def sample_env_def upt_rec
        sample_toggle_tx_def sample_tx_def sample_tf_def)
  have ppsd: "log_Tail (h_Log c) = Some sample_tail" "sample_tail @ [?e] = sample_proposed"
    "length sample_proposed = 33"
    by (simp_all add: c_def pushCandidate_def sample_state_def sample_hf_def sample_head_def Let_def sample_proposed_def)
  have hp: "sample_hp = c\<lparr>h_Log := (h_Log c)\<lparr>log_TipPage := Some \<lparr>pp_PageID = sample_id 2,
      pp_FirstGeneration = 2, pp_LastGeneration = 34, pp_Object = sample_ref (pageKey (sample_id 2)) ''P''\<rparr>,
      log_Tail := Some []\<rparr>\<rparr>"
    by (simp add: sample_hp_def c_def pushCandidate_def Let_def sample_state_def)
  have new: "NewString ?X (m1, 2) = (Inr (sample_id 2), (m1, 3))"
    by (simp add: NewString_def onLocal_def total_def)
  have "appendEnvelope ?X sample_repository c ?e (m1, 2) = (Inr sample_hp, (m2, 3))"
    using sample_marshals(6,7) [of sample_hf sample_hp] m2 ends
    by (simp add: appendEnvelope_def ppsd Let_def new page hp [symmetric])
  then have app: "appendEnvelope ?X sample_repository (pushCandidate ?s sample_tf [sample_delete] (sample_id 1)) ?e (m1, 2) =
      (Inr sample_hp, (m2, 3))"
    by (simp only: c_def)
  have "memory_view m2 HEAD_KEY = Some (''H'', rs_ETag ?s)"
    using keys_not_HEAD(2,4) [THEN not_sym] other_keys(3) by (simp add: v2 v sample_view sample_state_def)
  then obtain m3 where "publishHead ?X sample_repository sample_hp (pushPublication ?X ?s sample_tf) (m2, 3) = (Inr (), (m3, 3))"
    using memory_publish [of sample_repository sample_sum ?X sample_hp "''N''" m2 "''H''" "pushPublication ?X ?s sample_tf" 3]
      sample_valid sample_marshals(2)
    by (auto simp: sample_repository_def pushPublication_def MaxHead_def)
  then show ?thesis
    using tx m1 app by (simp add: pushUpdates_def bindP_def NewString_def onLocal_def total_def numeral_2_eq_2)
qed

lemma sample_pushState:
  assumes "pushUpdates (sample_lib h h') sample_repository (sample_state h) [sample_delete] (m, 0) = (Inr (), w')"
    "h_ObjectFormat h = ''sha1''"
  shows "sample_push h h' m = (Inr [okResult sample_command], w')"
proof -
  have "rejectAtomicBatch [okResult sample_command] True = ([okResult sample_command], False)"
    by (simp add: rejectAtomicBatch_def okResult_def)
  moreover have "ensureWritePolicy sample_repository (sample_state h) = None"
    by (simp add: ensureWritePolicy_def sample_repository_def no_policy_def)
  ultimately show ?thesis
    using assms sample_validatePush [of "sample_lib h h'" h]
    by (simp add: sample_push_def pushState_def onLocal_def sample_format bindP_def sample_options_def sample_state_def [of h, THEN arg_cong, of rs_Head])
qed

end
