(* ===== verification/Git3_Engine.thy ===== *)
theory Git3_Engine
  imports Git3_Sample
begin

text \<open>
  The properties of reading, publishing and pushing, stated for every store that meets the
  contract of \<^verbatim>\<open>Git3_Store\<close> and evaluated on the in-memory store with the sample repository.
\<close>

section \<open>Publication conflicts\<close>

context atomic_store
begin

lemma publishHead_refused:
  assumes r: "r_Store r = S" and valid: "Head_Validate (x_ident X) h = None"
    and b: "Marshal (x_json X) (x_Head X) h = Inr b" "length b \<le> MaxHead"
    and bad: "\<not> put_allowed (head_options pub) (view (fst w) HEAD_KEY)"
  obtains w' where
    "publishHead X r h pub w = (Inl (E CASConflict (hp_operation pub) (Errorf (hp_conflict pub) [])), w')"
    "view (fst w') = view (fst w)"
proof -
  obtain s g where w: "w = (s, g)" by (cases w)
  let ?put = "st_Put S HEAD_KEY (b, None) (int (length b)) (head_options pub)"
  obtain pr s1 where put: "?put s = (pr, s1)" by (cases "?put s")
  obtain e where "pr = Inl e" "errors_Is e ErrPrecondition"
    using put put_ok [of HEAD_KEY "(b, None)" _ _ s _ s1] put_refused [of HEAD_KEY b _ _ s _ s1] bad w
    by (cases pr) auto
  with put put_precondition [of HEAD_KEY "(b, None)" _ _ s e s1] that w show thesis
    by (simp add: publishHead_run [OF valid b] r)
qed

lemma pushUpdates_exclusive:
  assumes r: "r_Store r = S" and run: "pushUpdates X r s us w = (Inr u, w')" and tag: "rs_ETag s \<noteq> []"
  shows "\<exists>b. view (fst w) HEAD_KEY = Some (b, rs_ETag s)"
proof -
  from run obtain tx env pubID cand w1 w2 w3 w4 where
    steps: "makeTransaction X r s us w = (Inr tx, w1)" "storeTransaction X r tx w1 = (Inr env, w2)"
      "NewString X w2 = (Inr pubID, w3)"
      "appendEnvelope X r (pushCandidate s tx us pubID) env w3 = (Inr cand, w4)"
    and pub: "publishHead X r cand (pushPublication X s tx) w4 = (Inr (), w')"
    by (rule pushUpdates_Inr)
  have "uploads (view (fst w)) (view (fst w4))" by (rule pushUpdates_uploads(2) [OF r steps])
  with publishHead_done [OF r pub] tag show ?thesis
    by (auto simp: publishes_def put_allowed_def head_options_def pushPublication_def uploads_def)
qed

end

section \<open>Properties\<close>


lemma sample_before:
  assumes "readV (sample_lib h h') (memory_view sample_bucket) = Inr (sample_state h)"
  obtains m where "ReadUnconditional (sample_lib h h') sample_repository (sample_bucket, 0) =
    (Inr (sample_state h), (m, 0))" "memory_view m = memory_view sample_bucket"
proof -
  have store: "r_Store sample_repository = MemoryStore sample_sum" by (simp add: sample_repository_def)
  obtain w' where run: "ReadUnconditional (sample_lib h h') sample_repository (sample_bucket, 0) =
      (Inr (sample_state h), w')"
    using memory_reliable.ReadUnconditional_ex [OF store, of "sample_lib h h'" "(sample_bucket, 0)"] assms
    by auto
  with memory_reliable.ReadUnconditional_view(2,3) [OF store run] show thesis
    by (intro that [of "fst w'"]) (auto simp: prod_eq_iff)
qed

lemma table_marshal: "Marshal sample_json (table_codec t) v = Inr b \<Longrightarrow> b \<in> fst ` set t"
  by (force simp: Marshal_def table_codec_def sample_json_def Let_def dest!: find_pair
      split: option.splits if_splits)


text \<open>
  C5: the tail limit of the writer and the page limit of the reader do not fit together. On a
  valid HEAD whose log tail holds 32 transactions, with no log page stored yet, every push that
  succeeds leaves a repository that cannot be read any more: the writer seals the 32 records and
  the new one, 33 in all, into one page, and readers reject pages of more than 32.
\<close>

theorem log_page_overflow:
  assumes "atomic_store S view" and "r_Store r = S"
    and "Head_Validate (x_ident X) (rs_Head s) = None"
    and "codec_ok (x_json X) (x_Head X) MaxHead" and "codec_ok (x_json X) (x_LogPage X) MaxLogPage"
    and "log_Tail (h_Log (rs_Head s)) = Some es" and "length es = 32"
    and "\<forall>i. view (fst w) (pageKey i) = None"
    and "pushUpdates X r s us w = (Inr u, w')"
  shows "\<exists>e w''. ReadUnconditional X r w' = (Inl e, w'')"
  using atomic_store.full_tail_unreadable [OF assms(1-7) assms(8) [rule_format] assms(9)]
    reliable_store.ReadUnconditional_ex [OF atomic_store.axioms(1) [OF assms(1)] assms(2), of X w']
  by auto

theorem log_page_overflow_witness:
  "\<exists>w' e w''. pushUpdates (sample_lib sample_hf sample_hp) sample_repository (sample_state sample_hf)
       [sample_delete] (sample_bucket, 0) = (Inr (), w') \<and>
     ReadUnconditional (sample_lib sample_hf sample_hp) sample_repository w' = (Inl e, w'')"
proof -
  obtain w' where push: "pushUpdates (sample_lib sample_hf sample_hp) sample_repository
      (sample_state sample_hf) [sample_delete] (sample_bucket, 0) = (Inr (), w')"
    using sample_pushUpdates_full by blast
  have store: "r_Store sample_repository = MemoryStore sample_sum" by (simp add: sample_repository_def)
  have fresh: "\<forall>i. memory_view (fst (sample_bucket, 0 :: nat)) (pageKey i) = None"
    by (simp add: sample_view) (simp add: snapshotKey_def pageKey_def)
  have tail: "log_Tail (h_Log (rs_Head (sample_state sample_hf))) = Some sample_tail"
    by (simp add: sample_state_def sample_hf_def sample_head_def)
  show ?thesis
    using log_page_overflow [OF memory_atomic.atomic_store_axioms store _ sample_codecs(1,2) tail _ fresh push]
      sample_valid(3) push by (auto simp: sample_state_def)
qed

text \<open>
  C2: no lost updates. Whatever a push does, succeed or fail, also when the answer to its write
  is lost, it never changes or removes a stored object other than HEAD; and if HEAD has changed,
  then it carried, until then, the tag of the state the push started from, and the new HEAD is
  the encoding of a valid document.
\<close>

theorem push_guarded:
  assumes "object_store S view" and "r_Store r = S" and "rs_ETag s \<noteq> []"
    and "pushState X r s cmds opts w = (res, w')"
  shows "(\<forall>k x. k \<noteq> HEAD_KEY \<and> view (fst w) k = Some x \<longrightarrow> view (fst w') k = Some x) \<and>
    (view (fst w') HEAD_KEY \<noteq> view (fst w) HEAD_KEY \<longrightarrow>
       (\<exists>b0 b t h. view (fst w) HEAD_KEY = Some (b0, rs_ETag s) \<and> view (fst w') HEAD_KEY = Some (b, t) \<and>
          Marshal (x_json X) (x_Head X) h = Inr b \<and> Head_Validate (x_ident X) h = None))"
proof -
  have g: "guarded X (rs_ETag s) False (view (fst w)) (view (fst w'))"
    using object_store.guardsD [OF assms(1) object_store.guards_pushState [OF assms(1,2)] assms(4)] .
  with guarded_objects [OF g] guarded_head [OF g assms(3)] show ?thesis by metis
qed

theorem push_guarded_witness:
  "\<exists>w'. sample_push sample_h0 sample_h1 sample_bucket = (Inr [okResult sample_command], w') \<and>
     memory_view (fst w') (snapshotKey sample_uuid) = memory_view sample_bucket (snapshotKey sample_uuid)"
proof -
  obtain w' where push: "sample_push sample_h0 sample_h1 sample_bucket = (Inr [okResult sample_command], w')"
    using sample_pushUpdates [OF refl] sample_pushState by (auto simp: sample_h0_def sample_head_def)
  have "rs_ETag (sample_state sample_h0) \<noteq> []" "r_Store sample_repository = MemoryStore sample_sum"
    by (simp_all add: sample_state_def memory_etag_def sample_repository_def)
  from push_guarded [OF memory.object_store_axioms this(2,1) push [unfolded sample_push_def]] push
  show ?thesis by (simp add: sample_view)
qed

text \<open>
  A stale writer cannot succeed. On a store that loses no write, a push that succeeds found
  HEAD with exactly the tag of the state it was computed from.
\<close>

theorem push_exclusive:
  assumes "atomic_store S view" and "r_Store r = S" and "rs_ETag s \<noteq> []"
    and "pushUpdates X r s us w = (Inr u, w')"
  shows "\<exists>b. view (fst w) HEAD_KEY = Some (b, rs_ETag s)"
  by (rule atomic_store.pushUpdates_exclusive [OF assms(1,2,4,3)])

theorem push_exclusive_witness:
  "\<exists>b. memory_view sample_bucket HEAD_KEY = Some (b, memory_etag sample_sum ''H'')"
proof -
  obtain w' where push: "pushUpdates (sample_lib sample_h0 sample_h1) sample_repository
      (sample_state sample_h0) [sample_delete] (sample_bucket, 0) = (Inr (), w')"
    using sample_pushUpdates [OF refl] by blast
  have "rs_ETag (sample_state sample_h0) \<noteq> []" "r_Store sample_repository = MemoryStore sample_sum"
    by (simp_all add: sample_state_def memory_etag_def sample_repository_def)
  from push_exclusive [OF memory_atomic.atomic_store_axioms this(2,1) push]
  show ?thesis by (simp add: sample_state_def)
qed

text \<open>
  C7: when the precondition of a publication does not hold, the publication of a valid document
  fails with a CAS conflict of its operation and changes nothing.
\<close>

theorem publish_conflict:
  assumes "atomic_store S view" and "r_Store r = S" and "Head_Validate (x_ident X) h = None"
    and "Marshal (x_json X) (x_Head X) h = Inr b" and "length b \<le> MaxHead"
    and "\<not> put_allowed (head_options pub) (view (fst w) HEAD_KEY)"
  shows "\<exists>w'. publishHead X r h pub w =
      (Inl (E CASConflict (hp_operation pub) (Errorf (hp_conflict pub) [])), w') \<and>
    view (fst w') = view (fst w)"
  using atomic_store.publishHead_refused [OF assms] by metis

theorem publish_conflict_witness:
  "\<exists>w'. publishHead (sample_lib sample_h0 sample_h1) sample_repository sample_h1
       (initPublication sample_t1) (sample_bucket, 0) =
     (Inl (E CASConflict ''initialize''
        (Errorf ''repository was initialized concurrently'' [])), w')"
proof -
  have refused: "\<not> put_allowed (head_options (initPublication sample_t1))
      (memory_view (fst (sample_bucket, 0 :: nat)) HEAD_KEY)"
    using keys_not_HEAD(4) [THEN not_sym]
    by (simp add: put_allowed_def head_options_def initPublication_def sample_view)
  let ?X = "sample_lib sample_h0 sample_h1"
  have store: "r_Store sample_repository = MemoryStore sample_sum" by (simp add: sample_repository_def)
  have valid: "Head_Validate (x_ident ?X) sample_h1 = None" by (simp add: sample_valid)
  have enc: "Marshal (x_json ?X) (x_Head ?X) sample_h1 = Inr ''N''" by (simp add: sample_marshals)
  have size: "length ''N'' \<le> MaxHead" by (simp add: MaxHead_def)
  have pub: "hp_operation (initPublication sample_t1) = ''initialize''"
    "hp_conflict (initPublication sample_t1) = ''repository was initialized concurrently''"
    by (simp_all add: initPublication_def)
  from publish_conflict [OF memory_atomic.atomic_store_axioms store valid enc size refused]
  show ?thesis unfolding pub by blast
qed

text \<open>
  The initial push never replaces a HEAD: if one is there, it is left as it is, and no
  stored object is changed.
\<close>

theorem initialize_guarded:
  assumes "object_store S view" and "r_Store r = S" and "initialize X r cmds opts w = (res, w')"
    and "view (fst w) k = Some x"
  shows "view (fst w') k = Some x"
proof -
  have "guarded X [] True (view (fst w)) (view (fst w'))"
    using object_store.guardsD [OF assms(1) object_store.guards_initialize [OF assms(1,2)] assms(3)] .
  with assms(4) show ?thesis
    by (cases x; cases "k = HEAD_KEY")
      (auto simp: guarded_def uploads_def publishes_def put_allowed_def head_options_def)
qed

theorem initialize_guarded_witness:
  "\<exists>res w'. initialize (sample_lib sample_h0 sample_h1) sample_repository [sample_command] sample_options
       (sample_bucket, 0) = (res, w') \<and> memory_view (fst w') HEAD_KEY = memory_view sample_bucket HEAD_KEY"
proof -
  obtain res w' where run: "initialize (sample_lib sample_h0 sample_h1) sample_repository [sample_command]
      sample_options (sample_bucket, 0) = (res, w')" by (metis surj_pair)
  have "r_Store sample_repository = MemoryStore sample_sum" by (simp add: sample_repository_def)
  from initialize_guarded [OF memory.object_store_axioms this run, of HEAD_KEY] run show ?thesis
    using keys_not_HEAD(4) [THEN not_sym] by (simp add: sample_view)
qed





lemma finite_memory_view: "finite (dom (memory_view m))" "card (dom (memory_view m)) = fmlen (m_objects m)"
proof -
  have "dom (memory_view m) = fmdom' (m_objects m)" by (auto simp: memory_view_def fmlookup_dom'_iff)
  then show "finite (dom (memory_view m))" "card (dom (memory_view m)) = fmlen (m_objects m)"
    by (simp_all add: fmlen_def fcard.rep_eq fmdom'_alt_def)
qed

text \<open>
  C8: the walk along the log pages ends. On the in-memory store no more pages are followed than
  there are objects, also when the pointers form a cycle, so a bound above the number of objects
  is never reached.
\<close>

theorem page_walk_ends:
  assumes "r_Store r = MemoryStore H" and "no_fuel_error X" and "fmlen (m_objects m) < x_page_fuel X"
  shows "fst (walkPages (x_page_fuel X) X r h [] p (m, g)) \<noteq> Inl OutOfFuel"
proof -
  have "walkV (x_page_fuel X) X (memory_view m) h [] p \<noteq> Inl OutOfFuel"
    using card_page_ids [OF finite_memory_view(1), of X m] assms(2,3) finite_memory_view(2) [of m]
    by (intro walkV_enough) auto
  moreover obtain m' where
    "walkPages (x_page_fuel X) X r h [] p (m, g) = (walkV (x_page_fuel X) X (memory_view m) h [] p, (m', g))"
    using memory_reliable.reads_walkPages [OF assms(1)] by (rule readsE)
  ultimately show ?thesis by simp
qed

theorem page_walk_ends_witness:
  "fst (walkPages 8 (sample_lib sample_h0 sample_h1) sample_repository sample_hp []
     (log_TipPage (h_Log sample_hp)) (sample_bucket, 0)) \<noteq> Inl OutOfFuel"
proof -
  have "no_fuel_error (sample_lib sample_h0 sample_h1)"
    by (simp add: no_fuel_error_def UnmarshalForward_def unmarshalWith_def rejectDuplicatesAndNumbers_def
        sample_json_def scan_fuel_def numeral_eq_Suc failIf_def ensureEOF_def)
      (simp add: sample_lib_def table_codec_def Let_def ensureEOF_def)
  moreover have "fmlen (m_objects sample_bucket) < x_page_fuel (sample_lib sample_h0 sample_h1)"
    unfolding finite_memory_view(2) [symmetric] sample_view
    by simp
  ultimately show ?thesis
    using page_walk_ends [of sample_repository sample_sum "sample_lib sample_h0 sample_h1" sample_bucket sample_hp]
    by (simp add: sample_repository_def)
qed



text \<open>
  The verdict of an atomic push covers the whole batch: the batch is rejected exactly when
  some command failed, then no command is reported as accepted and each says why; otherwise the
  results are left as they are. Destinations and their order never change.
\<close>

theorem atomic_all_or_nothing:
  "(case rejectAtomicBatch results True of (out, rejected) \<Rightarrow>
     (rejected \<longleftrightarrow> (\<exists>x \<in> set results. \<not> pres_OK x)) \<and>
     map pres_Dst out = map pres_Dst results \<and>
     (if rejected then \<forall>x \<in> set out. \<not> pres_OK x \<and> pres_Reason x \<noteq> [] else out = results))"
  by (auto simp: rejectAtomicBatch_def list_all_iff)

theorem atomic_all_or_nothing_witness:
  "snd (rejectAtomicBatch [okResult sample_command, failResult sample_command ''no''] True) \<and>
   list_all (\<lambda>x. \<not> pres_OK x)
     (fst (rejectAtomicBatch [okResult sample_command, failResult sample_command ''no''] True))"
proof -
  let ?rs = "[okResult sample_command, failResult sample_command ''no'']"
  have bad: "\<exists>x \<in> set ?rs. \<not> pres_OK x" by (simp add: failResult_def)
  obtain out rejected where o: "rejectAtomicBatch ?rs True = (out, rejected)"
    by (cases "rejectAtomicBatch ?rs True")
  with atomic_all_or_nothing [of ?rs] bad have "rejected" "\<forall>x \<in> set out. \<not> pres_OK x"
    by (auto simp only: prod.case split: if_splits)
  with o show ?thesis by (simp add: list_all_iff)
qed

text \<open>
  The trailer of a pack does not depend on how its bytes arrive: after any sequence of
  writes the writer holds the last bytes of the stream, as many as asked for, and has hashed and
  counted the whole stream.
\<close>

theorem trailer_exact:
  "(let t = foldl trailerWrite (newTrailer want) cs; b = concat cs in
    tw_tail t = drop (length b - want) b \<and> tw_h t = b \<and> tw_n t = length b)"
  using trailer_ok_chunks [OF trailer_ok_new [of want], of cs]
  by (simp add: trailer_ok_def tw_want_chunks) (simp add: newTrailer_def)

text \<open>
  Immutable objects are written once. After an immutable write that succeeds the key holds
  a body of the recorded size and digest, and every object that was there before is still there
  unchanged, the one under the same key included.
\<close>

theorem immutable_write_once:
  assumes "object_store S view" and "r_Store r = S" and "key \<noteq> HEAD_KEY"
    and "immutable X r key b w = (Inr ref, w')"
  shows "ref = shaRef X key b \<and>
    (\<exists>b' t. view (fst w') key = Some (b', t) \<and> of_nat (length b') = or_Size ref \<and>
       digest X b' = or_SHA256 ref) \<and>
    (\<forall>k x. view (fst w) k = Some x \<longrightarrow> view (fst w') k = Some x)"
proof -
  from object_store.keeps_immutable [OF assms(1-3)] assms(4)
  have "object_store.uploading view w w'" by (rule keepsD)
  then have "uploads (view (fst w)) (view (fst w'))" by (rule object_store.uploadingD [OF assms(1)])
  with object_store.immutable_Inr [OF assms(1,2,4)] show ?thesis by (auto simp: uploads_def)
qed

theorem immutable_write_once_witness:
  "\<exists>ref w'. immutable (sample_lib sample_h0 sample_h1) sample_repository (walKey ''a'') ''P'' (sample_bucket, 0) =
      (Inr ref, w') \<and> memory_view (fst w') HEAD_KEY = memory_view sample_bucket HEAD_KEY"
proof -
  let ?X = "sample_lib sample_h0 sample_h1"
  have store: "r_Store sample_repository = MemoryStore sample_sum" by (simp add: sample_repository_def)
  have "memory_view sample_bucket (walKey ''a'') = None"
    by (simp add: sample_view) (simp add: walKey_def snapshotKey_def)
  from memory_immutable [OF store this, of ?X "''P''" 0] obtain w' where
    run: "immutable ?X sample_repository (walKey ''a'') ''P'' (sample_bucket, 0) =
      (Inr (shaRef ?X (walKey ''a'') ''P''), w')" by blast
  from immutable_write_once [OF memory.object_store_axioms store _ run] run show ?thesis
    using keys_not_HEAD(4) [THEN not_sym] by (simp add: sample_view)
qed

text \<open>
  Fetching reads only: whatever a fetch does and however it ends, the objects of the store
  are as before.
\<close>

theorem fetch_read_only:
  assumes "object_store S view" and "r_Store r = S" and "Fetch X r advertised requested w = (res, w')"
  shows "view (fst w') = view (fst w)"
proof -
  from object_store.keeps_Fetch [OF assms(1,2)] assms(3)
  have "object_store.unchanged view w w'" by (rule keepsD)
  then show ?thesis by (rule object_store.unchangedD [OF assms(1)])
qed

theorem fetch_read_only_witness:
  "\<exists>res w'. Fetch (sample_lib sample_h0 sample_h1) sample_repository
       (Some (advertisement (sample_state sample_h0))) [sample_oid] (sample_bucket, 0) = (res, w') \<and>
     memory_view (fst w') = memory_view sample_bucket"
proof -
  obtain res w' where run: "Fetch (sample_lib sample_h0 sample_h1) sample_repository
       (Some (advertisement (sample_state sample_h0))) [sample_oid]
      (sample_bucket, 0) = (res, w')" by (metis surj_pair)
  have "r_Store sample_repository = MemoryStore sample_sum" by (simp add: sample_repository_def)
  from fetch_read_only [OF memory.object_store_axioms this run] run show ?thesis by auto
qed

text \<open>
  A HEAD that validates and has no log page describes one chain: its tail holds at most 32
  transactions, each valid, that lead from the log floor to the published generation and
  transaction without a gap; and the packset is exactly at the floor.
\<close>

theorem valid_head_chain:
  assumes "Head_Validate X h = None" and "log_TipPage (h_Log h) = None"
  shows "\<exists>es. log_Tail (h_Log h) = Some es \<and> length es \<le> 32 \<and>
    chained (log_FloorGeneration (h_Log h)) (log_FloorTransactionID (h_Log h)) (map env_Transaction es) \<and>
    h_LogicalGeneration h = log_FloorGeneration (h_Log h) + of_nat (length es) \<and>
    h_TransactionID h = chain_id (log_FloorTransactionID (h_Log h)) (map env_Transaction es) \<and>
    (\<forall>e \<in> set es. Transaction_Validate X (env_Transaction e) = None) \<and>
    psp_Generation (h_Packset h) = log_FloorGeneration (h_Log h)"
  using assms Head_Validate_bounds(4) [OF assms(1)] by (metis Head_Validate_chained)

theorem valid_head_chain_witness:
  "\<exists>es. log_Tail (h_Log sample_hf) = Some es \<and> chained 1 (Some sample_uuid) (map env_Transaction es)"
proof -
  have f: "log_TipPage (h_Log sample_hf) = None" "log_FloorGeneration (h_Log sample_hf) = 1"
    "log_FloorTransactionID (h_Log sample_hf) = Some sample_uuid"
    by (simp_all add: sample_hf_def sample_head_def)
  from valid_head_chain [OF sample_valid(3) f(1)] show ?thesis unfolding f by blast
qed

text \<open>
  C35: replaying a valid transaction is exact. It succeeds precisely when every ref it updates
  has the old value it names, and then each of these refs has its new value and every other ref
  is untouched.
\<close>

theorem apply_exact:
  assumes "Transaction_Validate X t = None"
  shows "(snd (Apply refs [t]) = None \<longleftrightarrow> (\<forall>u \<in> set (tx_Updates t). fmlookup refs (up_Ref u) = up_Old u)) \<and>
    (snd (Apply refs [t]) = None \<longrightarrow>
       (\<forall>u \<in> set (tx_Updates t). fmlookup (fst (Apply refs [t])) (up_Ref u) = up_New u) \<and>
       (\<forall>x. x \<notin> up_Ref ` set (tx_Updates t) \<longrightarrow> fmlookup (fst (Apply refs [t])) x = fmlookup refs x))"
proof -
  have d: "distinct (map up_Ref (tx_Updates t))" using assms by (rule Transaction_Validate_distinct)
  obtain refs' r where ap: "applyUpdates refs (tx_Updates t) = (refs', r)"
    by (cases "applyUpdates refs (tx_Updates t)")
  then have A: "Apply refs [t] = (refs', r)" by (cases r) simp_all
  show ?thesis
    unfolding A using applyUpdates_iff [OF d, of refs] applyUpdates_new [OF d, of refs refs'] ap
      applyUpdates_untouched [OF ap] by auto
qed

theorem apply_exact_witness:
  "snd (Apply fmempty [sample_toggle_tx 0]) = None \<and>
   fmlookup (fst (Apply fmempty [sample_toggle_tx 0])) ''refs/heads/dev'' = Some sample_oid"
  using apply_exact [OF toggle_valid [of 0], of fmempty] by (simp add: toggle_fields sample_toggle_def)

end
