(* ===== verification/Git3_HelperProps.thy ===== *)
theory Git3_HelperProps
  imports Git3_Helper Git3_Engine "HOL-Library.Multiset"
begin

text \<open>
  Properties of the remote-helper protocol, alone and over the engine: the order of the
  advertisement, the framing of the replies to a push, and the effect of the dry-run option.
\<close>

section \<open>The insertion sort\<close>

lemma mset_swapDown: "mset (swapDown x front) = add_mset x (mset front)"
  by (induction front) auto

lemma sorted_swapDown: "sorted (rev front) \<Longrightarrow> sorted (rev (swapDown x front))"
proof (induction front)
  case (Cons y front)
  have "set (swapDown x front) = insert x (set front)"
    using mset_swapDown [of x front] by (metis set_mset_add_mset_insert set_mset_mset)
  with Cons show ?case by (auto simp: sorted_append)
qed simp

lemma fold_swapDown:
  "sorted (rev f) \<Longrightarrow> sorted (rev (fold swapDown xs f)) \<and> mset (fold swapDown xs f) = mset xs + mset f"
  by (induction xs arbitrary: f) (simp_all add: sorted_swapDown mset_swapDown)

lemma sorted_names_spec: "sorted (sorted_names xs)" "mset (sorted_names xs) = mset xs"
  using fold_swapDown [of "[]" xs] by (simp_all add: sorted_names_def)

lemma sorted_names_keys:
  assumes "distinct xs" "set xs = fmdom' m"
  shows "sorted_names xs = sorted_keys m"
proof (rule sorted_distinct_set_unique)
  show "sorted (sorted_names xs)" by (rule sorted_names_spec)
  show "distinct (sorted_names xs)"
    using assms(1) sorted_names_spec(2) [of xs] by (metis mset_eq_imp_distinct_iff)
  show "set (sorted_names xs) = set (sorted_keys m)"
    using assms(2) sorted_names_spec(2) [of xs] by (metis set_mset_mset set_sorted_keys)
  show "sorted (sorted_keys m)" "distinct (sorted_keys m)"
    using sorted_keys_sorted [of m] by (simp_all add: strict_sorted_iff)
qed

section \<open>Push replies\<close>

lemma sanitize_no_break: "NL \<notin> set (sanitize s)"
  by (auto simp: sanitize_def NL_def split: if_splits)

definition replies :: "PushCommand list \<Rightarrow> PushResult list res \<Rightarrow> string list" where
  "replies cmds res = (case res of Inl e \<Rightarrow> map (failureLine e) cmds | Inr rs \<Rightarrow> map resultLine rs)"

lemma replies_no_break:
  assumes "list_all (\<lambda>c. NL \<notin> set (pc_Dst c)) cmds"
    and "\<And>rs. res = Inr rs \<Longrightarrow> list_all (\<lambda>x. NL \<notin> set (pres_Dst x)) rs"
  shows "list_all (\<lambda>l. NL \<notin> set l) (replies cmds res)"
  using assms sanitize_no_break
  by (auto simp: replies_def failureLine_def resultLine_def list_all_iff NL_def split: sum.splits)

lemma CutByte_parts: "CutByte s x = (a, b, ok) \<Longrightarrow> set a \<subseteq> set s \<and> set b \<subseteq> set s"
  by (auto simp: CutByte_def split: option.splits dest: in_set_takeD in_set_dropD)

lemma parseSpecs_no_break:
  "parseSpecs specs = Inr cmds \<Longrightarrow> list_all (\<lambda>l. NL \<notin> set l) specs \<Longrightarrow>
     list_all (\<lambda>c. NL \<notin> set (pc_Dst c)) cmds \<and> length cmds = length specs"
proof (induction specs arbitrary: cmds)
  case (Cons x xs)
  obtain a b ok where cut: "CutByte (TrimPrefix x ''+'') (CHR '':'') = (a, b, ok)" by (cases rule: prod_cases3)
  have "set b \<subseteq> set x"
    using CutByte_parts [OF cut] by (auto simp: TrimPrefix_def split: if_splits dest: in_set_dropD)
  with Cons cut show ?case by (auto simp: parseSpec_def split: sum.splits if_splits)
qed simp

section \<open>Dry runs\<close>

text \<open>The lines that switch a dry run off.\<close>

definition turns_off :: "string \<Rightarrow> bool" where
  "turns_off line \<longleftrightarrow> HasPrefix line ''option dry-run '' \<and> ParseBool (drop 15 line) = Some False"

lemma CutByte_join: "CutByte s x = (a, b, True) \<Longrightarrow> s = a @ x # b"
proof (induction s arbitrary: a)
  case (Cons c s)
  then show ?case
    by (cases "IndexByte s x") (auto simp: CutByte_def split: if_splits option.splits)
qed (simp add: CutByte_def)

lemma if_pairE: "(if b then x else y) = r \<Longrightarrow> (b \<Longrightarrow> x = r \<Longrightarrow> P) \<Longrightarrow> (\<not> b \<Longrightarrow> y = r \<Longrightarrow> P) \<Longrightarrow> P"
  by (auto split: if_splits)

lemma option0_dry:
  assumes "option0 n v h = (reply, h')" "hl_dryRun h" "\<not> (n = ''dry-run'' \<and> ParseBool v = Some False)"
  shows "hl_dryRun h'"
proof (cases "n = ''dry-run''")
  case True
  with assms show ?thesis by (auto simp: option0_def setFlag_def split: option.splits)
next
  case False
  have flag: "setFlag v upd h = (r2, h2) \<Longrightarrow> (\<And>b. hl_dryRun (upd b h) = hl_dryRun h) \<Longrightarrow> hl_dryRun h2" for upd r2 h2
    using assms(2) by (auto simp: setFlag_def split: option.splits)
  have verb: "(case Atoi v of None \<Rightarrow> (m1, h) | Some i \<Rightarrow> if i < 0 then (m2, h) else (m3, h\<lparr>hl_verbosity := i\<rparr>)) = (r2, h2) \<Longrightarrow>
      hl_dryRun h2" for m1 m2 m3 r2 h2
    using assms(2) by (auto split: option.splits if_splits)
  have same: "(m1, h) = (r2, h2) \<Longrightarrow> hl_dryRun h2" "(m1, h\<lparr>hl_wantObjectFormat := b\<rparr>) = (r2, h2) \<Longrightarrow> hl_dryRun h2"
    "(m1, h\<lparr>hl_wantObjectFormat := b, hl_requestedFormat := v\<rparr>) = (r2, h2) \<Longrightarrow> hl_dryRun h2" for m1 b r2 h2
    using assms(2) by auto
  have others: "hl_dryRun (h\<lparr>hl_progress := b\<rparr>) = hl_dryRun h" "hl_dryRun h = hl_dryRun h"
    "hl_dryRun (h\<lparr>hl_connectivity := b\<rparr>) = hl_dryRun h" "hl_dryRun (h\<lparr>hl_atomic := b\<rparr>) = hl_dryRun h" for b
    by simp_all
  from assms(1) show ?thesis
    unfolding option0_def if_not_P [OF False]
    by (elim if_pairE) ((erule verb | erule same | (erule flag, rule others)))+
qed

lemma optionLine_dry:
  assumes "HasPrefix line ''option ''" "hl_dryRun h" "\<not> turns_off line"
  shows "hl_dryRun (optionLine line h)"
proof -
  obtain n v ok where cut: "CutByte (drop 7 line) (CHR '' '') = (n, v, ok)" by (cases rule: prod_cases3)
  show ?thesis
  proof (cases ok)
    case True
    obtain reply h' where o: "option0 n v h = (reply, h')" by (cases "option0 n v h")
    have "length ''option '' = 7" by simp
    then have "line = ''option '' @ drop 7 line"
      using assms(1) append_take_drop_id [of 7 line] unfolding HasPrefix_def by metis
    with CutByte_join [of "drop 7 line"] cut True have line: "line = ''option '' @ n @ CHR '' '' # v" by simp
    have "hl_dryRun h'"
      by (rule option0_dry [OF o assms(2)]) (use assms(3) line in \<open>auto simp: turns_off_def HasPrefix_def\<close>)
    with cut True o show ?thesis by (simp add: optionLine_def say_def)
  qed (use cut assms(2) in \<open>simp add: optionLine_def say_def\<close>)
qed

lemma fetchBatch_suffix: "fetchBatch line ls = Inr (req, left) \<Longrightarrow> length left \<le> length ls \<and> set left \<subseteq> set ls"
proof (induction line ls arbitrary: req rule: fetchBatch.induct)
  case (1 line ls)
  show ?case
  proof (cases ls)
    case (Cons l ls')
    with 1 show ?thesis
      by (fastforce simp: fetchBatch.simps [of line] split: if_splits sum.splits)
  qed (use 1 in \<open>simp add: fetchBatch.simps [of line] split: if_splits\<close>)
qed

lemma pushBatch_suffix: "pushBatch line ls = Inr (specs, left) \<Longrightarrow> length left \<le> length ls \<and> set left \<subseteq> set ls"
proof (induction line ls arbitrary: specs rule: pushBatch.induct)
  case (1 line ls)
  show ?case
  proof (cases ls)
    case (Cons l ls')
    with 1 show ?thesis
      by (fastforce simp: pushBatch.simps [of line] split: if_splits sum.splits)
  qed (use 1 in \<open>simp add: pushBatch.simps [of line]\<close>)
qed

text \<open>
  The rule for sessions: a relation between worlds that every command keeps, as long as an invariant of
  the helper state holds, is kept by the loop.
\<close>

lemma Run_keeps:
  assumes refl: "\<And>w. R w w" and trans: "\<And>u v w. R u v \<Longrightarrow> R v w \<Longrightarrow> R u w"
    and say: "\<And>h. I h \<Longrightarrow> I (say capabilities h)"
    and opt: "\<And>line h. HasPrefix line ''option '' \<Longrightarrow> P line \<Longrightarrow> I h \<Longrightarrow> I (optionLine line h)"
    and list: "\<And>h w e h' w'. listCommand ord Rm h w = ((e, h'), w') \<Longrightarrow> I h \<Longrightarrow> R w w' \<and> I h'"
    and fetch: "\<And>req h w e h' w'. fetchCommand Rm req h w = ((e, h'), w') \<Longrightarrow> I h \<Longrightarrow> R w w' \<and> I h'"
    and push: "\<And>specs h w e h' w'. pushCommand Rm specs h w = ((e, h'), w') \<Longrightarrow> I h \<Longrightarrow> R w w' \<and> I h'"
  shows "Run ord Rm scErr ls h w = ((e, h'), w') \<Longrightarrow> I h \<Longrightarrow> list_all P ls \<Longrightarrow> R w w'"
proof (induction ls arbitrary: h w rule: length_induct)
  case (1 ls)
  show ?case
  proof (cases ls)
    case Nil
    with 1 refl show ?thesis by simp
  next
    case (Cons line rest0)
    have IH: "R w w'"
      if "Run ord Rm scErr left h1 w1 = ((e, h'), w')" "R w w1 \<and> I h1" "length left \<le> length rest0 \<and> set left \<subseteq> set rest0"
      for left h1 w1
    proof -
      have "R w1 w'"
      proof (rule "1.IH" [rule_format, OF _ that(1)])
        show "length left < length ls" using that(3) Cons by simp
        show "list_all P left" using "1.prems"(3) that(3) Cons by (auto simp: list_all_iff)
      qed (use that(2) in simp)
      with that(2) show ?thesis by (blast intro: trans)
    qed
    have run: "Run ord Rm scErr (line # rest0) h w = ((e, h'), w')" using "1.prems"(1) Cons by simp
    note Ih = "1.prems"(2)
    consider "line = ''capabilities''" | "line \<noteq> ''capabilities''" "HasPrefix line ''option ''"
      | "line \<noteq> ''capabilities''" "\<not> HasPrefix line ''option ''" "line = ''list'' \<or> line = ''list for-push''"
      | "line \<noteq> ''capabilities''" "\<not> HasPrefix line ''option ''" "\<not> (line = ''list'' \<or> line = ''list for-push'')"
      by blast
    then show ?thesis
    proof cases
      case 1
      then show ?thesis using IH [of rest0 "say capabilities h" w] run say [OF Ih] refl by simp
    next
      case 2
      have "I (optionLine line h)" using 2(2) Ih "1.prems"(3) Cons by (intro opt) simp_all
      then show ?thesis using IH [of rest0 "optionLine line h" w] run 2 refl by simp
    next
      case 3
      obtain er h1 w1 where c: "listCommand ord Rm h w = ((er, h1), w1)" by (metis surj_pair)
      from list [OF c Ih] IH [of rest0 h1 w1] run 3 c refl show ?thesis by (cases er) auto
    next
      case 4
      note run' = run [simplified Run.simps(2) 4 if_False]
      consider "HasPrefix line ''fetch ''" | "\<not> HasPrefix line ''fetch ''" "HasPrefix line ''push ''"
        | "\<not> HasPrefix line ''fetch ''" "\<not> HasPrefix line ''push ''" by blast
      then show ?thesis
      proof cases
        case 1
        show ?thesis
        proof (cases "fetchBatch line rest0")
          case (Inr p)
          obtain req left where p: "p = (req, left)" by (cases p)
          obtain er h1 w1 where c: "fetchCommand Rm req h w = ((er, h1), w1)" by (metis surj_pair)
          from fetch [OF c Ih] IH [of left h1 w1] run' 1 c Inr p fetchBatch_suffix [of line rest0 req left]
          show ?thesis by (cases er) auto
        qed (use run' 1 refl in simp)
      next
        case 2
        show ?thesis
        proof (cases "pushBatch line rest0")
          case (Inr p)
          obtain specs left where p: "p = (specs, left)" by (cases p)
          obtain er h1 w1 where c: "pushCommand Rm specs h w = ((er, h1), w1)" by (metis surj_pair)
          from push [OF c Ih] IH [of left h1 w1] run' 2 c Inr p pushBatch_suffix [of line rest0 specs left]
          show ?thesis by (cases er) auto
        qed (use run' 2 refl in simp)
      next
        case 3
        then show ?thesis using run' IH [of rest0 h w] Ih refl by (auto split: if_splits)
      qed
    qed
  qed
qed

text \<open>
  \<open>additive X v v'\<close>: objects were added, none was lost or changed but HEAD, and if HEAD changed it is now
  the encoding of a valid document.
\<close>

definition valid_head_object :: "'g lib \<Rightarrow> (bytes \<times> string) option \<Rightarrow> bool" where
  "valid_head_object X obj \<longleftrightarrow>
     (\<exists>b t h. obj = Some (b, t) \<and> Marshal (x_json X) (x_Head X) h = Inr b \<and> Head_Validate (x_ident X) h = None)"

definition additive :: "'g lib \<Rightarrow> view \<Rightarrow> view \<Rightarrow> bool" where
  "additive X v v' \<longleftrightarrow>
     (\<forall>k x. k \<noteq> HEAD_KEY \<and> v k = Some x \<longrightarrow> v' k = Some x) \<and>
     (v' HEAD_KEY = v HEAD_KEY \<or> valid_head_object X (v' HEAD_KEY))"

lemma additive_refl: "additive X v v"
  by (simp add: additive_def)

lemma additive_trans: "additive X u v \<Longrightarrow> additive X v w \<Longrightarrow> additive X u w"
  unfolding additive_def by auto

lemma guarded_additive:
  assumes "guarded X etag absent v v'"
  shows "additive X v v'"
proof -
  from assms obtain v1 where v1: "uploads v v1" and
    v': "v' = v1 \<or> (\<exists>h pub. publishes X h pub v1 v')" by (auto simp: guarded_def)
  from v' have "v' HEAD_KEY = v1 HEAD_KEY \<or> valid_head_object X (v' HEAD_KEY)"
    by (auto simp: publishes_def valid_head_object_def)
  with v1 guarded_objects [OF assms] show ?thesis by (auto simp: additive_def uploads_def)
qed

context object_store
begin

lemma keeps_confirmCached: "r_Store r = S \<Longrightarrow> keeps unchanged (confirmCached X r s)"
  unfolding confirmCached_def
  by (auto intro!: keeps_all keeps_readObject keeps_ReadUnconditional split: sum.splits prod.splits)

lemma keeps_pushState_dry:
  assumes "pop_DryRun opts"
  shows "keeps unchanged (pushState X r s cmds opts)"
  unfolding pushState_def
  using assms by (auto intro!: keeps_unchanged keeps_validatePush split: prod.splits)

lemma keeps_initialize_dry:
  assumes "pop_DryRun opts"
  shows "keeps unchanged (initialize X r cmds opts)"
  unfolding initialize_def initialBranch_def Let_def
  using assms by (auto intro!: keeps_unchanged keeps_validatePush keeps_NewString split: prod.splits)

lemma keeps_Push_dry:
  assumes "r_Store r = S" "pop_DryRun opts"
  shows "keeps unchanged (Push X r ad cmds opts)"
  unfolding Push_def
  using assms by (auto intro!: keeps_unchanged keeps_resolve keeps_confirmCached keeps_pushState_dry
      keeps_initialize_dry keeps_Read split: sum.splits option.splits)

lemma advertise_view:
  assumes "r_Store r = S" "advertise (engineRemote X r) h w = ((res, h'), w')"
  shows "view (fst w') = view (fst w) \<and> hl_dryRun h' = hl_dryRun h"
proof -
  obtain y w1 where a: "Advertise X r w = (y, w1)" by (cases "Advertise X r w")
  have "keeps unchanged (Advertise X r)"
    unfolding Advertise_def by (intro keeps_unchanged keeps_Read assms)
  from keepsD [OF this a] have "view (fst w1) = view (fst w)" by (rule unchangedD)
  with assms(2) a show ?thesis
    by (auto simp: advertise_def engineRemote_def note_err_def Let_def
        split: option.splits sum.splits if_splits)
qed

lemma listCommand_view:
  assumes "r_Store r = S" "listCommand ord (engineRemote X r) h w = ((e, h'), w')"
  shows "view (fst w') = view (fst w) \<and> hl_dryRun h' = hl_dryRun h"
proof -
  obtain res h1 w1 where a: "advertise (engineRemote X r) h w = ((res, h1), w1)"
    by (metis surj_pair)
  with assms(2) advertise_view [OF assms(1) a] show ?thesis
    by (auto simp: listCommand_def say_def Let_def split: sum.splits if_splits)
qed

lemma fetchCommand_view:
  assumes "r_Store r = S" "fetchCommand (engineRemote X r) req h w = ((e, h'), w')"
  shows "view (fst w') = view (fst w) \<and> hl_dryRun h' = hl_dryRun h"
proof -
  obtain res h1 w1 where a: "advertise (engineRemote X r) h w = ((res, h1), w1)"
    by (metis surj_pair)
  note adv = advertise_view [OF assms(1) a]
  show ?thesis
  proof (cases res)
    case (Inl err)
    with adv a assms(2) show ?thesis by (simp add: fetchCommand_def)
  next
    case (Inr s)
    obtain rep w2 where f: "Fetch X r (Some s) req w1 = (rep, w2)" by (cases "Fetch X r (Some s) req w1")
    from keepsD [OF keeps_Fetch [OF assms(1)] f] have "view (fst w2) = view (fst w1)" by (rule unchangedD)
    with adv a assms(2) Inr f show ?thesis
      by (auto simp: fetchCommand_def engineRemote_def say_def note_err_def split: sum.splits)
  qed
qed

lemma pushCommand_view:
  assumes "r_Store r = S" "pushCommand (engineRemote X r) specs h w = ((e, h'), w')" "hl_dryRun h"
  shows "view (fst w') = view (fst w) \<and> hl_dryRun h' = hl_dryRun h"
proof (cases "parseSpecs specs")
  case (Inl err)
  with assms(2) show ?thesis by (simp add: pushCommand_def)
next
  case (Inr cmds)
  let ?o = "\<lparr>pop_Atomic = hl_atomic h, pop_DryRun = hl_dryRun h\<rparr>"
  obtain res w1 where p: "Push X r (hl_advertisement h) cmds ?o w = (res, w1)"
    by (cases "Push X r (hl_advertisement h) cmds ?o w")
  have "keeps unchanged (Push X r (hl_advertisement h) cmds ?o)"
    using assms(3) by (intro keeps_Push_dry [OF assms(1)]) simp
  from keepsD [OF this p] have "view (fst w1) = view (fst w)" by (rule unchangedD)
  with assms(2) Inr p show ?thesis
    by (auto simp: pushCommand_def engineRemote_def say_def note_err_def)
qed

lemma Run_dry:
  assumes "r_Store r = S" "Run ord (engineRemote X r) scErr ls h w = ((e, h'), w')" "hl_dryRun h"
    and "list_all (\<lambda>l. \<not> turns_off l) ls"
  shows "view (fst w') = view (fst w)"
  by (rule Run_keeps [where R = "\<lambda>w w'. view (fst w') = view (fst w)" and I = hl_dryRun, OF _ _ _ _ _ _ _ assms(2,3,4)])
    (auto simp: say_def intro: optionLine_dry dest: listCommand_view [OF assms(1)] fetchCommand_view [OF assms(1)]
      pushCommand_view [OF assms(1)])

text \<open>A push, whatever it does, keeps the relation \<open>additive\<close>.\<close>

lemma keeps_additive_unchanged: "keeps unchanged m \<Longrightarrow> keeps (store_rel (\<lambda>s s'. additive X (view s) (view s'))) m"
  unfolding keeps_def store_rel_def unchanged_def by (auto simp: additive_refl)

lemma keeps_additive_guards: "guards X etag absent m \<Longrightarrow> keeps (store_rel (\<lambda>s s'. additive X (view s) (view s'))) m"
  unfolding keeps_def store_rel_def guards_def by (auto intro: guarded_additive)

lemma additive_po:
  "reflp (store_rel (\<lambda>s s'. additive X (view s) (view s')))" "transp (store_rel (\<lambda>s s'. additive X (view s) (view s')))"
  by (auto simp: store_rel_def reflp_def transp_def additive_refl intro: additive_trans)

lemma keeps_Push_additive:
  assumes r: "r_Store r = S"
  shows "keeps (store_rel (\<lambda>s s'. additive X (view s) (view s'))) (Push X r ad cmds opts)"
proof -
  note po = additive_po [of X]
  have state: "keeps (store_rel (\<lambda>s s'. additive X (view s) (view s'))) (bindP (confirmCached X r s) (\<lambda>s'. pushState X r s' cs opts))" for s cs
    by (intro keeps_bindP [OF po] keeps_additive_unchanged [OF keeps_confirmCached [OF r]]
        keeps_additive_guards [OF guards_pushState [OF r]])
  have read: "keeps (store_rel (\<lambda>s s'. additive X (view s) (view s'))) (tryP (Read X r) (\<lambda>got. case got of
            Inl e \<Rightarrow> if errors_Is e ErrNotFound then initialize X r cs opts else failP e
          | Inr s \<Rightarrow> bindP (confirmCached X r s) (\<lambda>s'. pushState X r s' cs opts)))" for cs
    using state
    by (intro keeps_tryP [OF po(2)] keeps_additive_unchanged [OF keeps_Read [OF r]])
      (auto split: sum.split intro: keeps_additive_guards [OF guards_initialize [OF r]] keeps_pure [OF po(1)])
  show ?thesis unfolding Push_def
    using state read
    by (intro keeps_bindP [OF po] keeps_additive_unchanged [OF keeps_local(1)]
        keeps_additive_unchanged [OF keeps_resolve]) (auto split: option.split)
qed

lemma pushCommand_additive:
  assumes "r_Store r = S" "pushCommand (engineRemote X r) specs h w = ((e, h'), w')"
  shows "additive X (view (fst w)) (view (fst w'))"
proof (cases "parseSpecs specs")
  case (Inl err)
  with assms(2) show ?thesis by (simp add: pushCommand_def additive_refl)
next
  case (Inr cmds)
  let ?o = "\<lparr>pop_Atomic = hl_atomic h, pop_DryRun = hl_dryRun h\<rparr>"
  obtain res w1 where p: "Push X r (hl_advertisement h) cmds ?o w = (res, w1)"
    by (cases "Push X r (hl_advertisement h) cmds ?o w")
  from keepsD [OF keeps_Push_additive [OF assms(1)] p] have "additive X (view (fst w)) (view (fst w1))"
    by (simp add: store_rel_def)
  with assms(2) Inr p show ?thesis
    by (auto simp: pushCommand_def engineRemote_def say_def note_err_def)
qed

lemma Run_additive:
  assumes "r_Store r = S" "Run ord (engineRemote X r) scErr ls h w = ((e, h'), w')"
  shows "additive X (view (fst w)) (view (fst w'))"
  by (rule Run_keeps [where R = "\<lambda>w w'. additive X (view (fst w)) (view (fst w'))" and I = "\<lambda>_. True" and P = "\<lambda>_. True",
        OF _ _ _ _ _ _ _ assms(2)])
    (auto simp: additive_refl list_all_iff intro: additive_trans dest: listCommand_view [OF assms(1)]
      fetchCommand_view [OF assms(1)] pushCommand_additive [OF assms(1)])

end

section \<open>Properties\<close>

text \<open>
  C18: a dry run is dry to the end. Once the dry-run option is set, whatever lines follow, as long as
  none of them switches it off, and whatever they make the engine do, no object of the store changes.
\<close>

theorem dry_run_changes_nothing:
  assumes "object_store S view" and "r_Store r = S" and "list_all (\<lambda>l. \<not> turns_off l) ls"
    and "Run ord (engineRemote X r) scErr (''option dry-run true'' # ls) h w = ((e, h'), w')"
  shows "view (fst w') = view (fst w)"
proof -
  have "optionLine ''option dry-run true'' h = say [''ok''] (h\<lparr>hl_dryRun := True\<rparr>)"
    by (simp add: optionLine_def CutByte_def option0_def setFlag_def ParseBool_def)
  with assms(4) have "Run ord (engineRemote X r) scErr ls (say [''ok''] (h\<lparr>hl_dryRun := True\<rparr>)) w = ((e, h'), w')"
    by (simp add: HasPrefix_def)
  from object_store.Run_dry [OF assms(1,2) this _ assms(3)] show ?thesis by (simp add: say_def)
qed

theorem dry_run_changes_nothing_witness:
  "\<exists>e h' w'. Run sorted_keys (engineRemote (sample_lib sample_h0 sample_h1) sample_repository) None
       [''option dry-run true'', ''push :refs/heads/main'', []] NewHelper (sample_bucket, 0) = ((e, h'), w') \<and>
     memory_view (fst w') = memory_view sample_bucket"
proof -
  let ?ls = "[''push :refs/heads/main'', []]"
  obtain e h' w' where run: "Run sorted_keys (engineRemote (sample_lib sample_h0 sample_h1) sample_repository) None
       (''option dry-run true'' # ?ls) NewHelper (sample_bucket, 0) = ((e, h'), w')" by (metis surj_pair)
  have "r_Store sample_repository = MemoryStore sample_sum" by (simp add: sample_repository_def)
  moreover have "list_all (\<lambda>l. \<not> turns_off l) ?ls" by (simp add: turns_off_def HasPrefix_def)
  ultimately show ?thesis using dry_run_changes_nothing [OF memory.object_store_axioms _ _ run] run by auto
qed

text \<open>
  C19: the reply to a push is well framed. Whatever the remote answers, error texts with line breaks
  included, standard output grows by exactly one line per result, one line per command when the push
  fails as a whole, and one empty line; the command loop goes on.
\<close>

theorem push_reply_framed:
  assumes "parseSpecs specs = Inr cmds" and "list_all (\<lambda>l. NL \<notin> set l) specs"
    and "rm_Push R (hl_advertisement h) cmds \<lparr>pop_Atomic = hl_atomic h, pop_DryRun = hl_dryRun h\<rparr>
           (progressSink h) w = ((res, calls), w1)"
    and "\<And>rs. res = Inr rs \<Longrightarrow> list_all (\<lambda>x. NL \<notin> set (pres_Dst x)) rs"
    and "pushCommand R specs h w = ((e, h'), w')"
  shows "e = None \<and> (\<exists>added. hl_Out h' = hl_Out h @ added \<and> SplitByte NL added = replies cmds res @ [[], []]) \<and>
    (\<forall>err. res = Inl err \<longrightarrow> length (replies cmds res) = length specs)"
proof -
  have "hl_Out h' = hl_Out h @ println_lines (replies cmds res @ [[]])" "e = None"
    using assms(1,3,5) by (auto simp: pushCommand_def say_def note_err_def replies_def split: sum.splits)
  moreover have "list_all (\<lambda>l. NL \<notin> set l) (replies cmds res @ [[]])"
    using replies_no_break [of cmds res] parseSpecs_no_break [OF assms(1,2)] assms(4) by simp
  from Split_println [OF this] have "SplitByte NL (println_lines (replies cmds res @ [[]])) = replies cmds res @ [[], []]"
    by simp
  moreover have "length (replies cmds res) = length specs" if "res = Inl err" for err
    using that parseSpecs_no_break [OF assms(1,2)] by (simp add: replies_def)
  ultimately show ?thesis by blast
qed

definition failing_remote :: "unit Remote" where
  "failing_remote =
     \<lparr>rm_Advertise = failP ErrNotFound, rm_Fetch = (\<lambda>ad req sink w. ((Inl ErrNotFound, []), w)),
      rm_Push = (\<lambda>ad cmds opts sink w. ((Inl (Errorf (''two'' @ [NL] @ ''lines'') []), []), w))\<rparr>"

theorem push_reply_framed_witness:
  "\<exists>h'. pushCommand failing_remote [''a:refs/heads/a''] NewHelper () = ((None, h'), ()) \<and>
     SplitByte NL (hl_Out h') = [''error refs/heads/a two lines'', [], []]"
proof -
  let ?c = "\<lparr>pc_Source = ''a'', pc_Dst = ''refs/heads/a'', pc_NewOID = None, pc_Force = False\<rparr>"
  let ?res = "Inl (Errorf (''two'' @ [NL] @ ''lines'') []) :: PushResult list res"
  have spec: "parseSpecs [''a:refs/heads/a''] = Inr [?c]" by code_simp
  have push: "rm_Push failing_remote (hl_advertisement NewHelper) [?c]
      \<lparr>pop_Atomic = hl_atomic NewHelper, pop_DryRun = hl_dryRun NewHelper\<rparr> (progressSink NewHelper) () = ((?res, []), ())"
    by (simp add: failing_remote_def)
  obtain e h' u where run: "pushCommand failing_remote [''a:refs/heads/a''] NewHelper () = ((e, h'), u)"
    by (metis surj_pair)
  have reply: "replies [?c] ?res = [''error refs/heads/a two lines'']" by code_simp
  have clean: "list_all (\<lambda>l. NL \<notin> set l) [''a:refs/heads/a'']" by (simp add: NL_def)
  have "list_all (\<lambda>x. NL \<notin> set (pres_Dst x)) rs" if "?res = Inr rs" for rs using that by simp
  note framed = push_reply_framed [OF spec clean push this run, unfolded reply]
  then obtain added where "hl_Out h' = hl_Out NewHelper @ added"
    "SplitByte NL added = [''error refs/heads/a two lines''] @ [[], []]" by blast
  moreover have "hl_Out NewHelper = []" by (simp add: NewHelper_def)
  ultimately show ?thesis using framed run by (intro exI [of _ h']) simp
qed

text \<open>
  The advertisement does not depend on the iteration order of Go's maps. In whatever order the
  refs are enumerated, the lines list each ref exactly once, in ascending order, with its value.
\<close>

theorem list_deterministic:
  assumes "distinct (ord (ad_Refs s))" and "set (ord (ad_Refs s)) = fmdom' (ad_Refs s)"
  shows "listLines ord want s =
    (if want then ['':object-format '' @ ad_ObjectFormat s] else []) @
    map (\<lambda>ref. the (fmlookup (ad_Refs s) ref) @ '' '' @ ref) (sorted_keys (ad_Refs s)) @
    (case ad_HeadSymref s of None \<Rightarrow> [] | Some t \<Rightarrow> [''@'' @ t @ '' HEAD'']) @ [[]]"
proof -
  have "(case fmlookup (ad_Refs s) ref of Some oid \<Rightarrow> oid | None \<Rightarrow> []) = the (fmlookup (ad_Refs s) ref)"
    if "ref \<in> fmdom' (ad_Refs s)" for ref
    using that by (auto simp: fmdom'_alt_def fmlookup_dom_iff)
  then have "map (\<lambda>ref. (case fmlookup (ad_Refs s) ref of Some oid \<Rightarrow> oid | None \<Rightarrow> []) @ '' '' @ ref) (sorted_keys (ad_Refs s)) =
    map (\<lambda>ref. the (fmlookup (ad_Refs s) ref) @ '' '' @ ref) (sorted_keys (ad_Refs s))"
    by (intro map_cong) simp_all
  then show ?thesis unfolding listLines_def sorted_names_keys [OF assms] by simp
qed

theorem list_deterministic_witness:
  "listLines (\<lambda>_. [''refs/heads/b'', ''refs/heads/a'']) False
     \<lparr>ad_ObjectFormat = ''sha1'', ad_Refs = fmap_of_list [(''refs/heads/a'', ''1''), (''refs/heads/b'', ''2'')],
       ad_HeadSymref = Some ''refs/heads/a'', ad_state = None\<rparr> =
   [''1 refs/heads/a'', ''2 refs/heads/b'', ''@refs/heads/a HEAD'', []]"
proof -
  let ?s = "\<lparr>ad_ObjectFormat = ''sha1'', ad_Refs = fmap_of_list [(''refs/heads/a'', ''1''), (''refs/heads/b'', ''2'')],
       ad_HeadSymref = Some ''refs/heads/a'', ad_state = None :: RemoteState option\<rparr>"
  have keys: "sorted_keys (ad_Refs ?s) = [''refs/heads/a'', ''refs/heads/b'']" by code_simp
  have dom: "fmdom' (ad_Refs ?s) = {''refs/heads/b'', ''refs/heads/a''}" by (auto simp: fmdom'_alt_def)
  have "distinct [''refs/heads/b'', ''refs/heads/a'']" by simp
  moreover have "set [''refs/heads/b'', ''refs/heads/a''] = fmdom' (ad_Refs ?s)" using dom by simp
  ultimately show ?thesis
    using list_deterministic [of "\<lambda>_. [''refs/heads/b'', ''refs/heads/a'']" ?s False] unfolding keys
    by (simp only:) code_simp
qed

end
