(* ===== verification/Git3_AdminProps.thy ===== *)
theory Git3_AdminProps
  imports Git3_Engine Git3_Maintenance
begin

text \<open>
  The properties of administration and maintenance, stated for every store that meets the
  contract and evaluated on the sample repository, with its packset in the store.
\<close>

section \<open>The sample repository with its packset\<close>

definition sample_full :: Memory where
  "sample_full = Memory_Set sample_sum (packsetKey sample_uuid) ''K'' sample_bucket"

lemma sample_full_view:
  "memory_view sample_full = (memory_view sample_bucket)(packsetKey sample_uuid \<mapsto> (''K'', memory_etag sample_sum ''K''))"
  by (simp add: sample_full_def Memory_Set_def Memory_Put_def Let_def fun_eq_iff memory_view_def)

lemma sample_keys_differ:
  "snapshotKey i \<noteq> packsetKey j" "HEAD_KEY \<noteq> packsetKey j" "HEAD_KEY \<noteq> snapshotKey i"
  by (simp_all add: snapshotKey_def packsetKey_def HEAD_KEY_def)

lemma sample_read_from: "read_from (sample_state sample_h0) = {sample_ref (snapshotKey sample_uuid) sample_text}"
  by (simp add: read_from_def sample_state_def sample_h0_def sample_head_def)

lemma sample_full_read: "readV (sample_lib sample_h0 h') (memory_view sample_full) = Inr (sample_state sample_h0)"
  by (rule readV_unmoved [OF sample_read(1)])
    (simp_all add: sample_full_view sample_read_from sample_keys_differ sample_ref_def)

lemma sample_store: "r_Store sample_repository = MemoryStore sample_sum"
  by (simp add: sample_repository_def)

lemma sample_independent: "head_independent (sample_state sample_h0)"
  by (simp add: head_independent_iff sample_read_from sample_ref_def)

lemma sample_K: "ValidString ''K''"
  by code_simp

lemma sample_packset_valid: "Packset_Validate sample_ident sample_packset = None"
  by code_simp

lemma sample_verified:
  "verifiedV (sample_lib sample_h0 h') (memory_view sample_full) (sample_ref (packsetKey sample_uuid) ''K'') MaxPackset = Inr ''K''"
proof -
  have "validateObject (sample_ref (packsetKey sample_uuid) ''K'') = None"
    by code_simp
  then show ?thesis
    by (simp add: verifiedV_def sample_full_view sample_digest sample_ref_def MaxPackset_def word_less_nat_alt)
qed

lemma sample_loadPackset:
  assumes "memory_view m = memory_view sample_full"
  shows "\<exists>w'. loadPackset (sample_lib sample_h0 h') sample_repository (sample_state sample_h0) (m, g) =
    (Inr sample_packset, w')"
proof -
  let ?X = "sample_lib sample_h0 h'" and ?ref = "sample_ref (packsetKey sample_uuid) ''K''"
  obtain s' where "verified ?X sample_repository ?ref MaxPackset (m, g) =
      (verifiedV ?X (memory_view m) ?ref MaxPackset, (s', g))"
    using memory_reliable.reads_verified [OF sample_store] by (rule readsE)
  moreover have "UnmarshalForward sample_json (x_Packset ?X) ''K'' MaxPackset = Inr sample_packset"
    by (simp add: sample_lib_def table_decode sample_K MaxPackset_def)
  moreover have "h_Packset (rs_Head (sample_state sample_h0)) = \<lparr>psp_PacksetID = sample_uuid, psp_Generation = 1,
      psp_TransactionID = Some sample_uuid, psp_Object = ?ref\<rparr>"
    "h_RepositoryID (rs_Head (sample_state sample_h0)) = sample_uuid"
    "h_ObjectFormat (rs_Head (sample_state sample_h0)) = ''sha1''"
    by (simp_all add: sample_state_def sample_h0_def sample_head_def)
  ultimately show ?thesis
    using sample_packset_valid by (simp add: loadPackset_def assms sample_verified) (simp add: sample_packset_def)
qed

lemma sample_liveKeys:
  assumes "memory_view m = memory_view sample_full"
  obtains w' where "liveKeys (sample_lib sample_h0 h') sample_repository (sample_state sample_h0) (m, g) =
    (Inr (liveOf (sample_state sample_h0) sample_packset), w')"
  using sample_loadPackset [OF assms, of h' g] by (auto simp: liveKeys_def bindP_def sample_state_def)

section \<open>Resuming a collection\<close>

lemma bindP_assoc: "bindP (bindP m f) g = bindP m (\<lambda>x. bindP (f x) g)"
  by (rule ext) (simp add: bindP_def split: prod.splits sum.splits)

context object_store
begin

lemma GCResume_preserving:
  assumes r: "r_Store r = S" and K: "HEAD_KEY \<notin> K" "\<forall>k \<in> K. HasPrefix k ''.git/git3/lfs/''"
  shows "keeps (preserving K) (GCResume X r i)"
proof -
  have sweep: "keeps (preserving K) (bindP (checkGCCandidates r live True cs) (\<lambda>_.
      bindP (deleteGCCandidates r cs True) (\<lambda>_. clearGCBarrier X r s i op)))" for live cs s op
    using K by (intro sweep_preserving [OF r] preserving_guards [OF clearGCBarrier_guards [OF r]]) auto
  show ?thesis
    unfolding GCResume_def validateGCCandidates_def bindP_assoc
    by (intro keeps_preserving sweep preserving_unchanged [OF keeps_ReadUnconditional [OF r]]
        preserving_unchanged [OF keeps_verified [OF r]] preserving_unchanged [OF keeps_liveKeys [OF r]])
qed

end

section \<open>Properties of garbage collection\<close>



text \<open>
  C34: a plan is not trusted. Also when an interrupted collection is resumed with the plan found in
  the store, whatever its candidates are, no LFS object is removed or changed.
\<close>

theorem gc_resume_keeps_lfs:
  assumes "object_store S view" and "r_Store r = S" and "GCResume X r i w = (res, w')"
    and "HasPrefix k ''.git/git3/lfs/''" and "view (fst w) k = Some x"
  shows "view (fst w') k = Some x"
proof -
  have "k \<noteq> HEAD_KEY" using assms(4) by (auto simp: HEAD_KEY_def)
  then have "keeps (object_store.preserving view {k}) (GCResume X r i)"
    using assms(4) by (intro object_store.GCResume_preserving [OF assms(1,2)]) auto
  from keepsD [OF this assms(3)] assms(5) show ?thesis
    by (simp add: object_store.preserving_def [OF assms(1)])
qed

definition sample_lfs :: Memory where
  "sample_lfs = Memory_Set sample_sum ''.git/git3/lfs/objects/x'' ''L'' sample_full"

theorem gc_resume_keeps_lfs_witness:
  "\<exists>res w'. GCResume (sample_lib sample_h0 sample_h1) sample_repository sample_uuid (sample_lfs, 0) = (res, w') \<and>
     memory_view (fst w') ''.git/git3/lfs/objects/x'' = Some (''L'', memory_etag sample_sum ''L'')"
proof -
  obtain res w' where run: "GCResume (sample_lib sample_h0 sample_h1) sample_repository sample_uuid (sample_lfs, 0) = (res, w')"
    by (metis surj_pair)
  have "memory_view sample_lfs ''.git/git3/lfs/objects/x'' = Some (''L'', memory_etag sample_sum ''L'')"
    by (simp add: sample_lfs_def Memory_Set_def Memory_Put_def Let_def memory_view_def)
  with gc_resume_keeps_lfs [OF memory.object_store_axioms sample_store run, of "''.git/git3/lfs/objects/x''"] run
  show ?thesis by simp
qed

text \<open>
  C10: a collection is invisible to readers. On a store that answers, whatever \<^verbatim>\<open>GCExecute\<close> or
  \<^verbatim>\<open>GCResume\<close> does, also when it fails half-way or its answers are lost, the next reader finds the
  same refs, the same transactions and the same default branch.
\<close>

theorem gc_invisible:
  assumes "reliable_store S view" and "r_Store r = S" and "codec_ok (x_json X) (x_Head X) MaxHead"
    and "readV X (view (fst w)) = Inr s" and "head_independent s"
    and "GCExecute X r cutoff w = (res, w') \<or> GCResume X r i w = (res, w')"
  shows "\<exists>s' w2. ReadUnconditional X r w' = (Inr s', w2) \<and> rs_Refs s' = rs_Refs s \<and>
    rs_Transactions s' = rs_Transactions s \<and> h_HeadSymref (rs_Head s') = h_HeadSymref (rs_Head s)"
proof -
  have "reads_same X s (view (fst w'))"
    using assms(6) reliable_store.GCExecute_reads_same [OF assms(1,2,3,5,4)]
      reliable_store.GCResume_reads_same [OF assms(1,2,3,5,4)] by blast
  then obtain h t where "readV X (view (fst w')) = Inr (s\<lparr>rs_Head := h, rs_ETag := t\<rparr>)"
    "h_HeadSymref h = h_HeadSymref (rs_Head s)" by (auto simp: reads_same_def)
  with reliable_store.ReadUnconditional_ex [OF assms(1,2), of X w'] show ?thesis by force
qed

theorem gc_invisible_witness:
  "\<exists>res w' s' w2. GCExecute (sample_lib sample_h0 sample_h1) sample_repository 1 (sample_full, 0) = (res, w') \<and>
     ReadUnconditional (sample_lib sample_h0 sample_h1) sample_repository w' = (Inr s', w2) \<and>
     rs_Refs s' = sn_Refs sample_snapshot"
proof -
  let ?X = "sample_lib sample_h0 sample_h1"
  obtain res w' where run: "GCExecute ?X sample_repository 1 (sample_full, 0) = (res, w')" by (metis surj_pair)
  have rd: "readV ?X (memory_view (fst (sample_full, 0 :: nat))) = Inr (sample_state sample_h0)"
    using sample_full_read by simp
  have refs: "rs_Refs (sample_state sample_h0) = sn_Refs sample_snapshot" by (simp add: sample_state_def)
  from gc_invisible [OF memory_reliable.reliable_store_axioms sample_store sample_codecs(1) rd sample_independent disjI1 [OF run]]
    run show ?thesis unfolding refs by blast
qed

text \<open>
  C33: setting the default branch. On every store, whatever \<^verbatim>\<open>SetHead\<close> does, the repository reads
  as before, or the default branch is the requested one, which is a branch that exists, and
  nothing else that a reader sees has changed. (The cached state it may start from is one that
  agrees with the store.)
\<close>

theorem set_head_exact:
  assumes "object_store S view" and "r_Store r = S" and "codec_ok (x_json X) (x_Head X) MaxHead"
    and "readV X (view (fst w)) = Inr s" and "head_independent s"
    and "\<And>s0 w1. Read X r w = (Inr s0, w1) \<Longrightarrow> rs_Head s0 = rs_Head s \<and> rs_Refs s0 = rs_Refs s"
    and "SetHead X r ref w = (res, w')"
  shows "readV X (view (fst w')) = Inr s \<or>
    (HasPrefix ref ''refs/heads/'' \<and> fmlookup (rs_Refs s) ref \<noteq> None \<and>
     (\<exists>t pubID. readV X (view (fst w')) =
       Inr (s\<lparr>rs_Head := republished ((rs_Head s)\<lparr>h_HeadSymref := Some ref\<rparr>) pubID, rs_ETag := t\<rparr>)))"
  by (rule object_store.SetHead_reads [OF assms(1-7)])

theorem set_head_exact_witness:
  "\<exists>res w'. SetHead (sample_lib sample_h0 sample_h1) sample_repository ''refs/heads/dev'' (sample_full, 0) = (res, w') \<and>
     readV (sample_lib sample_h0 sample_h1) (memory_view (fst w')) = Inr (sample_state sample_h0)"
proof -
  let ?X = "sample_lib sample_h0 sample_h1"
  obtain res w' where run: "SetHead ?X sample_repository ''refs/heads/dev'' (sample_full, 0) = (res, w')" by (metis surj_pair)
  have rd: "readV ?X (memory_view (fst (sample_full, 0 :: nat))) = Inr (sample_state sample_h0)"
    using sample_full_read by simp
  have read: "rs_Head s0 = rs_Head (sample_state sample_h0) \<and> rs_Refs s0 = rs_Refs (sample_state sample_h0)"
    if "Read ?X sample_repository (sample_full, 0) = (Inr s0, w1)" for s0 w1
  proof -
    have "ReadUnconditional ?X sample_repository (sample_full, 0) = (Inr s0, w1)"
      using that by (simp add: Read_def) (simp add: sample_repository_def)
    from memory_reliable.ReadUnconditional_view(1) [OF sample_store this] rd show ?thesis by simp
  qed
  have "fmlookup (rs_Refs (sample_state sample_h0)) ''refs/heads/dev'' = None"
    by (simp add: sample_state_def sample_snapshot_def)
  with set_head_exact [OF memory.object_store_axioms sample_store sample_codecs(1) rd sample_independent read run] run
  show ?thesis by auto
qed

text \<open>
  Checks only read: whatever a health check, a consistency check or a dry run of the collector
  does, the objects of the store stay as they are.
\<close>

theorem checks_read_only:
  assumes "object_store S view" and "r_Store r = S"
  shows "view (fst (snd (Fsck X r full w))) = view (fst w) \<and>
    view (fst (snd (Doctor X rt r threshold w))) = view (fst w) \<and>
    view (fst (snd (GCDryRun X r cutoff w))) = view (fst w)"
proof -
  have "keeps (object_store.unchanged view) (GCDryRun X r cutoff)"
    unfolding GCDryRun_def split_beta
    by (intro object_store.keeps_unchanged [OF assms(1)] object_store.keeps_gcDryRun [OF assms])
  with object_store.keeps_Fsck [OF assms, of X full] object_store.keeps_Doctor [OF assms, of X rt threshold]
  show ?thesis by (cases w) (simp add: keeps_def object_store.unchanged_def [OF assms(1)] store_rel_def)
qed

theorem checks_read_only_witness:
  "memory_view (fst (snd (Fsck (sample_lib sample_h0 sample_h1) sample_repository True (sample_full, 0)))) =
     memory_view sample_full"
  using checks_read_only [OF memory.object_store_axioms sample_store, of "sample_lib sample_h0 sample_h1" True "(sample_full, 0)"]
  by simp

text \<open>
  The write probe leaves no trace. On the in-memory store the objects after it are those
  before it, and it succeeds exactly when its name was not taken.
\<close>

theorem probe_leaves_nothing:
  assumes "r_Store r = MemoryStore H"
  shows "memory_view (fst (snd (Probe X r w))) = memory_view (fst w) \<and>
    (fst (Probe X r w) = Inr () \<longleftrightarrow>
       memory_view (fst w) (''.git/git3/probes/'' @ fst (x_NewString X (snd w))) = None)"
  by (rule Probe_memory [OF assms])

theorem probe_leaves_nothing_witness:
  "fst (Probe (sample_lib sample_h0 sample_h1) sample_repository (sample_bucket, 0)) = Inr () \<and>
   memory_view (fst (snd (Probe (sample_lib sample_h0 sample_h1) sample_repository (sample_bucket, 0)))) =
     memory_view sample_bucket"
proof -
  have "memory_view sample_bucket (''.git/git3/probes/'' @ sample_id 0) = None"
    by (simp add: sample_view HEAD_KEY_def snapshotKey_def)
  with probe_leaves_nothing [OF sample_store, of "sample_lib sample_h0 sample_h1" "(sample_bucket, 0)"]
  show ?thesis by simp
qed

section \<open>Properties of maintenance\<close>

text \<open>
  C32: undoing the transactions above the packset's generation gives back the refs they started
  from: if replaying them turns \<open>refs\<close> into the refs of the state, \<^verbatim>\<open>refsAtFloor\<close> is \<open>refs\<close>.
\<close>

theorem refs_at_floor_inverse:
  assumes "Apply refs (filter (\<lambda>t. tx_Generation t > psp_Generation (h_Packset (rs_Head s))) (rs_Transactions s)) =
    (rs_Refs s, None)"
  shows "refsAtFloor s = refs"
  unfolding refsAtFloor_def using assms by (rule undo_Apply)

theorem refs_at_floor_inverse_witness:
  "refsAtFloor (sample_state sample_hf) = sn_Refs sample_snapshot"
proof -
  have "replay 1 (sn_Refs sample_snapshot) (rs_Transactions (sample_state sample_hf)) = Inr (sn_Refs sample_snapshot)"
    using toggle_replay [of "sn_Refs sample_snapshot" 16 0]
    by (simp add: sample_state_def sample_hf_def sample_head_def sample_tail_def sample_env_def comp_def sample_snapshot_def)
  then have "Apply (sn_Refs sample_snapshot) (filter (\<lambda>t. tx_Generation t > psp_Generation (h_Packset (rs_Head (sample_state sample_hf))))
      (rs_Transactions (sample_state sample_hf))) = (rs_Refs (sample_state sample_hf), None)"
    unfolding replay_Apply by (simp add: sample_state_def sample_hf_def sample_head_def)
  then show ?thesis by (rule refs_at_floor_inverse)
qed

text \<open>
  The byte budget is respected and used up. When the sizes add up without overflow, the target
  of a bounded compaction is the longest prefix of the transactions above the packset's generation
  whose objects fit in the budget, with the generation and ID of its last transaction and the refs
  after it.
\<close>

theorem bounded_target_exact:
  assumes "totalBytes (filter (\<lambda>t. tx_Generation t > flr) txs) < 2 ^ 64"
    and "Apply refs (filter (\<lambda>t. tx_Generation t > flr) txs) = (refs', None)"
  shows "\<exists>pre suf refs1. filter (\<lambda>t. tx_Generation t > flr) txs = pre @ suf \<and>
    Apply refs pre = (refs1, None) \<and>
    boundedTarget flr budget txs 0 (gen, txid, refs) =
      Inr (if pre = [] then gen else tx_Generation (last pre),
           if pre = [] then txid else Some (tx_TransactionID (last pre)), refs1) \<and>
    totalBytes pre \<le> unat budget \<and>
    (suf \<noteq> [] \<longrightarrow> totalBytes (pre @ [hd suf]) > unat budget)"
proof -
  let ?f = "filter (\<lambda>t. tx_Generation t > flr) txs"
  have "unat (0 :: u64) + totalBytes ?f < 2 ^ 64" using assms(1) by simp
  from boundedTarget_spec [OF this assms(2), of budget gen txid] obtain pre suf refs1 where
    *: "?f = pre @ suf" "Apply refs pre = (refs1, None)"
    "boundedTarget flr budget txs 0 (gen, txid, refs) =
      Inr (if pre = [] then gen else tx_Generation (last pre),
           if pre = [] then txid else Some (tx_TransactionID (last pre)), refs1)"
    "pre \<noteq> [] \<longrightarrow> totalBytes pre \<le> unat budget"
    "suf \<noteq> [] \<longrightarrow> totalBytes (pre @ [hd suf]) > unat budget"
    unfolding unat_0 add_0 by blast
  have "totalBytes pre \<le> unat budget" using *(4) by (cases "pre = []") (simp_all add: totalBytes_def)
  with * show ?thesis by blast
qed

theorem bounded_target_exact_witness:
  "\<exists>pre suf. map sample_toggle_tx [0..<32] = pre @ suf \<and>
     (\<exists>refs1. boundedTarget 1 5 (map sample_toggle_tx [0..<32]) 0 (1, None, sn_Refs sample_snapshot) =
       Inr (if pre = [] then 1 else tx_Generation (last pre),
            if pre = [] then None else Some (tx_TransactionID (last pre)), refs1))"
proof -
  let ?ts = "map sample_toggle_tx [0..<32]"
  have all: "filter (\<lambda>t. tx_Generation t > 1) ?ts = ?ts"
    by (rule filter_True) (auto simp: sample_toggle_tx_def sample_tx_def word_less_nat_alt unsigned_of_nat take_bit_nat_eq_self
        simp del: of_nat_Suc)
  have "replay 1 (sn_Refs sample_snapshot) ?ts = Inr (sn_Refs sample_snapshot)"
    using toggle_replay [of "sn_Refs sample_snapshot" 16 0] by (simp add: sample_snapshot_def)
  then have app: "Apply (sn_Refs sample_snapshot) (filter (\<lambda>t. tx_Generation t > 1) ?ts) = (sn_Refs sample_snapshot, None)"
    unfolding replay_Apply .
  have "totalBytes (filter (\<lambda>t. tx_Generation t > 1) ?ts) < 2 ^ 64"
    unfolding all
    by (simp add: totalBytes_def comp_def objectBytes_def sample_toggle_tx_def sample_tx_def sum_list_triv)
  from bounded_target_exact [OF this app, of 5 1 None] show ?thesis unfolding all by blast
qed

text \<open>
  C30: compaction ends. With levels numbered apart and a fanout of at least two, the loop over full
  levels needs no more steps than there are packs: more fuel changes nothing.
\<close>

theorem compaction_ends:
  assumes "distinct (map pl_Level levels)" and "2 \<le> fanout" and "packCount levels \<le> k"
  shows "compactLevels (Suc k) X r ls tmp fanout levels =
    compactLevels (Suc (packCount levels)) X r ls tmp fanout levels"
  by (rule compactLevels_fuel [OF assms]) simp

definition sample_levels :: "PackLevel list" where
  "sample_levels = [\<lparr>pl_Level = 0, pl_Packs = replicate 4
     \<lparr>pe_GitPackChecksum = sample_oid, pe_ObjectCount = 1, pe_Pack = zero_ref, pe_Index = zero_ref\<rparr>\<rparr>]"

theorem compaction_ends_witness:
  "compactLevels 100 (sample_lib sample_h0 sample_h1) sample_repository \<lparr>ls_Root = ''root'', ls_PackDir = ''packs''\<rparr>
       ''tmp'' 4 sample_levels (sample_bucket, 0) =
   compactLevels 5 (sample_lib sample_h0 sample_h1) sample_repository \<lparr>ls_Root = ''root'', ls_PackDir = ''packs''\<rparr>
       ''tmp'' 4 sample_levels (sample_bucket, 0)"
proof -
  have "distinct (map pl_Level sample_levels)" "packCount sample_levels = 4" by (simp_all add: sample_levels_def)
  then show ?thesis
    using compaction_ends [of sample_levels 4 99 "sample_lib sample_h0 sample_h1" sample_repository
        "\<lparr>ls_Root = ''root'', ls_PackDir = ''packs''\<rparr>" "''tmp''"] by (simp del: compactLevels.simps)
qed

text \<open>
  C31: after a compaction no level is full: each holds fewer packs than the fanout, the levels are
  still numbered apart, and there are no more packs than before.
\<close>

theorem compaction_bounded:
  assumes "compactLevels k X r ls tmp fanout levels w = (Inr levels', w')"
    and "distinct (map pl_Level levels)" and "2 \<le> fanout"
  shows "list_all (\<lambda>l. int (length (pl_Packs l)) < fanout) levels' \<and> distinct (map pl_Level levels') \<and>
    packCount levels' \<le> packCount levels"
  using compactLevels_Inr [OF assms] by (simp add: list_all_iff)

theorem compaction_bounded_witness:
  "\<exists>w'. compactLevels 2 (sample_lib sample_h0 sample_h1) sample_repository
       \<lparr>ls_Root = ''root'', ls_PackDir = ''packs''\<rparr> ''tmp'' 5 sample_levels (sample_bucket, 0) = (Inr sample_levels, w') \<and>
     list_all (\<lambda>l. int (length (pl_Packs l)) < 5) sample_levels"
proof -
  let ?run = "compactLevels 2 (sample_lib sample_h0 sample_h1) sample_repository
    \<lparr>ls_Root = ''root'', ls_PackDir = ''packs''\<rparr> ''tmp'' 5 sample_levels (sample_bucket, 0)"
  have run: "?run = (Inr sample_levels, (sample_bucket, 0))" by (simp add: sample_levels_def numeral_2_eq_2)
  have "distinct (map pl_Level sample_levels)" by (simp add: sample_levels_def)
  from compaction_bounded [OF run this] run show ?thesis by simp
qed

text \<open>
  C12: maintenance loses no update. Whatever it does on the state it has read, it never changes or
  removes a stored object other than HEAD, and replaces HEAD only while HEAD carries the tag of
  that state, by the encoding of a valid document.
\<close>

theorem maintenance_guarded:
  assumes "object_store S view" and "r_Store r = S" and "rs_ETag s \<noteq> []"
    and "maintainState X r options s w = (res, w')"
  shows "(\<forall>k x. k \<noteq> HEAD_KEY \<and> view (fst w) k = Some x \<longrightarrow> view (fst w') k = Some x) \<and>
    (view (fst w') HEAD_KEY \<noteq> view (fst w) HEAD_KEY \<longrightarrow>
       (\<exists>b0 b t h. view (fst w) HEAD_KEY = Some (b0, rs_ETag s) \<and> view (fst w') HEAD_KEY = Some (b, t) \<and>
          Marshal (x_json X) (x_Head X) h = Inr b \<and> Head_Validate (x_ident X) h = None))"
proof -
  have g: "guarded X (rs_ETag s) False (view (fst w)) (view (fst w'))"
    using object_store.guardsD [OF assms(1) object_store.guards_maintainState [OF assms(1,2)] assms(4)] .
  with guarded_objects [OF g] guarded_head [OF g assms(3)] show ?thesis by metis
qed

definition sample_maintenance :: MaintenanceOptions where
  "sample_maintenance = \<lparr>mo_Fanout = 4, mo_MaxBytes = 0\<rparr>"

theorem maintenance_guarded_witness:
  "\<exists>res w'. maintainState (sample_lib sample_h0 sample_h1) sample_repository sample_maintenance
       (sample_state sample_h0) (sample_full, 0) = (res, w') \<and>
     memory_view (fst w') (packsetKey sample_uuid) = memory_view sample_full (packsetKey sample_uuid)"
proof -
  obtain res w' where run: "maintainState (sample_lib sample_h0 sample_h1) sample_repository sample_maintenance
      (sample_state sample_h0) (sample_full, 0) = (res, w')" by (metis surj_pair)
  have "rs_ETag (sample_state sample_h0) \<noteq> []" by (simp add: sample_state_def memory_etag_def)
  from maintenance_guarded [OF memory.object_store_axioms sample_store this run] run show ?thesis
    by (simp add: sample_full_view)
qed



end
