(* ===== verification/Git3_S3Laws.thy ===== *)
theory Git3_S3Laws
  imports Git3_S3 "HOL-Library.Multiset"
begin

text \<open>
  What the store relies on from the S3 service, as a locale over the calls of the client; the
  store of \<^verbatim>\<open>s3.go\<close> on such a service satisfies the storage contract; and the concurrent part
  uploads of \<^verbatim>\<open>putMultipart\<close> as a step relation.

  The laws are the documented behaviour of the service, seen through one request at a time: a
  request that is answered has been performed once, conditional writes are refused without effect,
  and a write that reports another failure may have been performed.
\<close>

section \<open>The service\<close>

type_synonym objects = "string \<Rightarrow> string \<rightharpoonup> bytes \<times> string"

text \<open>Storing under one key of one bucket.\<close>

definition stored :: "objects \<Rightarrow> string \<Rightarrow> string \<Rightarrow> bytes \<times> string \<Rightarrow> objects" where
  "stored ob b k v = ob(b := (ob b)(k \<mapsto> v))"

definition removed :: "objects \<Rightarrow> string \<Rightarrow> string \<Rightarrow> objects" where
  "removed ob b k = ob(b := (ob b)(k := None))"

definition conditions_hold :: "string option \<Rightarrow> string option \<Rightarrow> (bytes \<times> string) option \<Rightarrow> bool" where
  "conditions_hold ifMatch ifNone old \<longleftrightarrow>
     (ifNone = Some ''*'' \<longrightarrow> old = None) \<and>
     (case ifMatch of None \<Rightarrow> True | Some t \<Rightarrow> (case old of None \<Rightarrow> False | Some v \<Rightarrow> snd v = t))"

text \<open>The parts of a completion request, with the bodies the upload holds for them.\<close>

definition assembled :: "(nat \<rightharpoonup> bytes \<times> string) \<Rightarrow> CompletedPart list \<Rightarrow> bytes list \<Rightarrow> bool" where
  "assembled up parts bodies \<longleftrightarrow>
     list_all2 (\<lambda>p b. \<exists>t. cp_ETag p = Some t \<and> up (cp_PartNumber p) = Some (b, t)) parts bodies \<and>
     sorted_wrt (<) (map cp_PartNumber parts)"

text \<open>An error of the service is a sentinel, a classified service error, or the error itself.\<close>

definition mapped_error :: "apierr \<Rightarrow> goerr \<Rightarrow> bool" where
  "mapped_error e g \<longleftrightarrow> g \<in> {ErrNotFound, ErrNotModified, ErrPrecondition} \<or> (\<exists>k. g = E k ''s3'' (ae_Err e))"

lemma mapped_error_Some:
  "Some ErrNotFound = Some g \<Longrightarrow> mapped_error e g" "Some ErrNotModified = Some g \<Longrightarrow> mapped_error e g"
  "Some ErrPrecondition = Some g \<Longrightarrow> mapped_error e g" "Some (E k ''s3'' (ae_Err e)) = Some g \<Longrightarrow> mapped_error e g"
  "None = Some g \<Longrightarrow> mapped_error e g"
  by (auto simp: mapped_error_def)

lemma mapCode_mapped: "mapCode e c = Some g \<Longrightarrow> mapped_error e g"
  unfolding mapCode_def by (elim if_eqE) (erule mapped_error_Some)+

lemma mapStatus_mapped: "mapStatus e n = Some g \<Longrightarrow> mapped_error e g"
  unfolding mapStatus_def by (elim if_eqE) (erule mapped_error_Some)+

lemma mapS3_mapped: "mapped_error e (mapS3 e) \<or> mapS3 e = ae_Err e"
  using mapCode_mapped mapStatus_mapped by (fastforce simp: mapS3_def split: option.splits bind_splits)

lemma mapS3_precondition:
  "\<not> errors_Is (ae_Err e) ErrPrecondition \<Longrightarrow> errors_Is (mapS3 e) ErrPrecondition \<Longrightarrow> mapS3 e = ErrPrecondition"
  using mapS3_mapped [of e] by (auto simp: mapped_error_def)

locale s3_service =
  fixes A :: "'c s3API"
    and objects :: "'c \<Rightarrow> objects"
    and uploads :: "'c \<Rightarrow> string option \<Rightarrow> nat \<rightharpoonup> bytes \<times> string"
  assumes get_keeps: "api_GetObject A b k inm rng c = (r, c') \<Longrightarrow> objects c' = objects c"
    and get_object: "api_GetObject A b k inm None c = (Inr out, c') \<Longrightarrow> snd (go_Body out) = None \<Longrightarrow>
      \<exists>t. go_ETag out = Some t \<and> objects c b k = Some (fst (go_Body out), t)"
    and get_missing: "objects c b k = None \<Longrightarrow> \<exists>e c'. api_GetObject A b k inm None c = (Inl e, c')"
    and head_keeps: "api_HeadObject A b k c = (rh, c') \<Longrightarrow> objects c' = objects c"
    and head_object: "api_HeadObject A b k c = (Inr ho, c') \<Longrightarrow>
      \<exists>bs t. objects c b k = Some (bs, t) \<and> ho_ETag ho = Some t \<and> ho_ContentLength ho = Some (int (length bs))"
    and put_done: "api_PutObject A b k pin c = (Inr etag, c') \<Longrightarrow>
      conditions_hold (pi_IfMatch pin) (pi_IfNoneMatch pin) (objects c b k) \<and>
      objects c' = stored (objects c) b k (fst (pi_Body pin), ToString etag)"
    and put_failed: "api_PutObject A b k pin c = (Inl e, c') \<Longrightarrow>
      objects c' = objects c \<or>
      (conditions_hold (pi_IfMatch pin) (pi_IfNoneMatch pin) (objects c b k) \<and>
       mapS3 e \<noteq> ErrPrecondition \<and> (\<exists>t. objects c' = stored (objects c) b k (fst (pi_Body pin), t)))"
    and create_keeps: "api_CreateMultipartUpload A b k en c = (rc, c') \<Longrightarrow> objects c' = objects c"
    and part_keeps: "api_UploadPart A b k uid n body c = (ru, c') \<Longrightarrow> objects c' = objects c"
    and part_done: "api_UploadPart A b k uid n body c = (Inr (etag, sm), c') \<Longrightarrow>
      \<exists>t. etag = Some t \<and> uploads c' uid = (uploads c uid)(n \<mapsto> (body, t))"
    and part_failed: "api_UploadPart A b k uid n body c = (Inl e, c') \<Longrightarrow>
      m \<noteq> n \<Longrightarrow> uploads c' uid m = uploads c uid m"
    and complete_done: "api_CompleteMultipartUpload A b k uid parts im inm c = (Inr etag, c') \<Longrightarrow>
      assembled (uploads c uid) parts bodies \<Longrightarrow>
      conditions_hold im inm (objects c b k) \<and>
      objects c' = stored (objects c) b k (concat bodies, ToString etag)"
    and complete_failed: "api_CompleteMultipartUpload A b k uid parts im inm c = (Inl e, c') \<Longrightarrow>
      assembled (uploads c uid) parts bodies \<Longrightarrow>
      objects c' = objects c \<or>
      (conditions_hold im inm (objects c b k) \<and> mapS3 e \<noteq> ErrPrecondition \<and>
       (\<exists>t. objects c' = stored (objects c) b k (concat bodies, t)))"
    and abort_keeps: "api_AbortMultipartUpload A b k uid c = (ra, c') \<Longrightarrow> objects c' = objects c"
    and delete_effect: "api_DeleteObject A b k im c = (rd, c') \<Longrightarrow>
      objects c' = objects c \<or>
      ((\<exists>bs t. objects c b k = Some (bs, t) \<and> (im \<noteq> None \<longrightarrow> im = Some t)) \<and> objects c' = removed (objects c) b k)"
    and list_keeps: "api_ListObjectsV2 A b p tok c = (rl, c') \<Longrightarrow> objects c' = objects c"
    and put_foreign: "api_PutObject A b k pin c = (Inl e, c') \<Longrightarrow> \<not> errors_Is (ae_Err e) ErrPrecondition"
    and create_foreign: "api_CreateMultipartUpload A b k en c = (Inl e, c') \<Longrightarrow> \<not> errors_Is (ae_Err e) ErrPrecondition"
    and part_foreign: "api_UploadPart A b k uid n body c = (Inl e, c') \<Longrightarrow> \<not> errors_Is (ae_Err e) ErrPrecondition"
    and complete_foreign: "api_CompleteMultipartUpload A b k uid parts im inm c = (Inl e, c') \<Longrightarrow>
      \<not> errors_Is (ae_Err e) ErrPrecondition"
begin

lemma callP_iff: "callP m c = (r, c') \<longleftrightarrow>
  (\<exists>e. m c = (Inl e, c') \<and> r = Inl (mapS3 e)) \<or> (\<exists>x. m c = (Inr x, c') \<and> r = Inr x)"
  by (auto simp: callP_def split: prod.splits sum.splits)

lemma uploadPart_Inr:
  assumes "s3_client s = A" "uploadPart s key uid n body c = (Inr p, c')"
  obtains t where "cp_ETag p = Some t" "cp_PartNumber p = n" "uploads c' uid = (uploads c uid)(n \<mapsto> (body, t))"
proof -
  from assms obtain etag sm where u: "api_UploadPart A (s3_bucket s) (s3_key s key) uid n body c = (Inr (etag, sm), c')"
    "p = \<lparr>cp_ETag = etag, cp_PartNumber = n, cp_ChecksumSHA256 = sm\<rparr>"
    by (auto simp: uploadPart_def bindP_Inr_iff callP_iff)
  from part_done [OF u(1)] obtain t where "etag = Some t" "uploads c' uid = (uploads c uid)(n \<mapsto> (body, t))" by blast
  with u(2) show thesis by (intro that) simp_all
qed

lemma uploadPart_keeps:
  assumes "s3_client s = A" "uploadPart s key uid n body c = (r, c')"
  shows "objects c' = objects c \<and> (\<forall>m. m \<noteq> n \<longrightarrow> uploads c' uid m = uploads c uid m) \<and>
    (\<forall>e. r = Inl e \<longrightarrow> errors_Is e ErrPrecondition \<longrightarrow> e = ErrPrecondition)"
proof -
  obtain y c1 where u: "api_UploadPart A (s3_bucket s) (s3_key s key) uid n body c = (y, c1)" by force
  have c1: "c1 = c'" using assms u by (auto simp: uploadPart_def bindP_def callP_def split: sum.splits prod.splits)
  have "\<forall>m. m \<noteq> n \<longrightarrow> uploads c' uid m = uploads c uid m"
    using part_failed [of _ _ uid n body c] part_done [of _ _ uid n body c] u c1 by (cases y) fastforce+
  moreover have "\<forall>e. r = Inl e \<longrightarrow> errors_Is e ErrPrecondition \<longrightarrow> e = ErrPrecondition"
    using assms u mapS3_precondition part_foreign
    by (auto simp: uploadPart_def bindP_def callP_def split: sum.splits prod.splits)
  ultimately show ?thesis using part_keeps [OF u] c1 by simp
qed

text \<open>What the sequential uploads leave: the objects as they were, the parts of the input in order.\<close>

lemma uploadParts_spec:
  assumes "s3_client s = A"
  shows "uploadParts s key uid ps n r c = (res, c') \<Longrightarrow>
    objects c' = objects c \<and> (\<forall>m < n. uploads c' uid m = uploads c uid m) \<and>
    (\<forall>parts tot. res = Inr (parts, tot) \<longrightarrow> tot = int (length (fst r)) \<and>
       map cp_PartNumber parts = [n..<n + length parts] \<and>
       (\<exists>bodies. concat bodies = fst r \<and>
          list_all2 (\<lambda>p b. \<exists>t. cp_ETag p = Some t \<and> uploads c' uid (cp_PartNumber p) = Some (b, t)) parts bodies))"
proof (induction "10001 - n" arbitrary: n r c c' res rule: less_induct)
  case less
  let ?chunk = "take ps (fst r)"
  note run = less.prems [unfolded uploadParts.simps [of s key uid ps n r] Let_def]
  show ?case
  proof (cases "length ?chunk = ps")
    case False
    then have short: "length (fst r) < ps" by simp
    show ?thesis
    proof (cases "snd r \<noteq> None \<or> ?chunk = [] \<or> n > 10000")
      case True
      with run False show ?thesis by (auto split: option.splits if_splits)
    next
      case one: False
      with run short obtain y c1 where u: "uploadPart s key uid n ?chunk c = (y, c1)" "c1 = c'"
        "res = (case y of Inl e \<Rightarrow> Inl e | Inr p \<Rightarrow> Inr ([p], int (length ?chunk)))"
        by (cases "uploadPart s key uid n ?chunk c") (auto simp: bindP_def split: sum.splits)
      note k = uploadPart_keeps [OF assms u(1)]
      have whole: "?chunk = fst r" using False by simp
      show ?thesis
      proof (cases y)
        case (Inl e)
        with k u show ?thesis by simp
      next
        case (Inr p)
        with u(1) obtain t where "cp_ETag p = Some t" "cp_PartNumber p = n"
          "uploads c1 uid = (uploads c uid)(n \<mapsto> (?chunk, t))"
          by (metis uploadPart_Inr [OF assms])
        with k u Inr whole show ?thesis by (auto intro!: exI [of _ "[fst r]"])
      qed
    qed
  next
    case full: True
    show ?thesis
    proof (cases "n > 10000")
      case True
      with run full show ?thesis by auto
    next
      case False
      obtain y c1 where u: "uploadPart s key uid n ?chunk c = (y, c1)" by (cases "uploadPart s key uid n ?chunk c")
      note k = uploadPart_keeps [OF assms u]
      show ?thesis
      proof (cases y)
        case (Inl e)
        with k u run full False show ?thesis by (auto simp: bindP_def)
      next
        case (Inr p)
        with u obtain t where p: "cp_ETag p = Some t" "cp_PartNumber p = n"
          "uploads c1 uid = (uploads c uid)(n \<mapsto> (?chunk, t))"
          by (metis uploadPart_Inr [OF assms])
        let ?r = "(drop ps (fst r), snd r)"
        obtain res2 c2 where v: "uploadParts s key uid ps (Suc n) ?r c1 = (res2, c2)"
          by (cases "uploadParts s key uid ps (Suc n) ?r c1")
        have res: "c2 = c'" "res = (case res2 of Inl e \<Rightarrow> Inl e | Inr (parts, tot) \<Rightarrow> Inr (p # parts, int (length ?chunk) + tot))"
          using run full False u Inr v by (auto simp: bindP_def split: sum.splits prod.splits)
        have IH: "objects c2 = objects c1 \<and> (\<forall>m < Suc n. uploads c2 uid m = uploads c1 uid m) \<and>
          (\<forall>parts tot. res2 = Inr (parts, tot) \<longrightarrow> tot = int (length (fst ?r)) \<and>
             map cp_PartNumber parts = [Suc n..<Suc n + length parts] \<and>
             (\<exists>bodies. concat bodies = fst ?r \<and>
                list_all2 (\<lambda>p b. \<exists>t. cp_ETag p = Some t \<and> uploads c2 uid (cp_PartNumber p) = Some (b, t)) parts bodies))"
          by (rule less.hyps [OF _ v]) (use False in simp)
        show ?thesis
        proof (cases res2)
          case (Inl e)
          with IH res k show ?thesis by simp
        next
          case (Inr q)
          obtain parts tot where q: "q = (parts, tot)" by (cases q)
          with IH Inr obtain bodies where b: "concat bodies = drop ps (fst r)"
            "list_all2 (\<lambda>p b. \<exists>t. cp_ETag p = Some t \<and> uploads c2 uid (cp_PartNumber p) = Some (b, t)) parts bodies"
            "tot = int (length (drop ps (fst r)))" "map cp_PartNumber parts = [Suc n..<Suc n + length parts]" by auto
          have "uploads c2 uid n = Some (?chunk, t)" using IH p(3) by simp
          then have "list_all2 (\<lambda>p b. \<exists>t. cp_ETag p = Some t \<and> uploads c2 uid (cp_PartNumber p) = Some (b, t))
              (p # parts) (?chunk # bodies)" using b(2) p by simp
          moreover have "concat (?chunk # bodies) = fst r" using b(1) by simp
          moreover have "map cp_PartNumber (p # parts) = [n..<n + length (p # parts)]"
            using b(4) p(2) upt_conv_Cons [of n "n + Suc (length parts)"] by simp
          moreover have "res = Inr (p # parts, int (length (fst r)))" using res(2) Inr q b(3) full by simp
          moreover have "objects c' = objects c" "\<forall>m<n. uploads c' uid m = uploads c uid m"
            using IH k res(1) by simp_all
          ultimately show ?thesis unfolding res(1) by blast
        qed
      qed
    qed
  qed
qed

end

section \<open>The store over the service\<close>

locale s3_remote = s3_service A objects uploads
  for A :: "'c s3API" and objects :: "'c \<Rightarrow> objects" and uploads :: "'c \<Rightarrow> string option \<Rightarrow> nat \<rightharpoonup> bytes \<times> string" +
  fixes s :: "'c S3"
  assumes client: "s3_client s = A"
begin

definition s3_view :: "'c \<Rightarrow> string \<rightharpoonup> bytes \<times> string" where
  "s3_view c k = objects c (s3_bucket s) (s3_key s k)"

lemma key_inject: "s3_key s k = s3_key s k' \<longleftrightarrow> k = k'"
  by (simp add: s3_key_def Locator_Key_def)

lemma view_eq: "objects c' = objects c \<Longrightarrow> s3_view c' = s3_view c"
  by (rule ext) (simp add: s3_view_def)

lemma view_stored: "objects c' = stored (objects c) (s3_bucket s) (s3_key s k) v \<Longrightarrow> s3_view c' = (s3_view c)(k \<mapsto> v)"
  by (rule ext) (simp add: s3_view_def stored_def key_inject)

lemma view_removed: "objects c' = removed (objects c) (s3_bucket s) (s3_key s k) \<Longrightarrow> s3_view c' = (s3_view c)(k := None)"
  by (rule ext) (simp add: s3_view_def removed_def key_inject)

lemma conditions_allowed:
  "conditions_hold (ifMatchOf opts) (ifNoneMatchOf opts) (objects c (s3_bucket s) (s3_key s k)) \<longleftrightarrow>
     put_allowed opts (s3_view c k)"
  by (auto simp: conditions_hold_def put_allowed_def ifMatchOf_def ifNoneMatchOf_def s3_view_def
      split: option.splits)

text \<open>The outcomes of a write: done, or failed without effect, or failed with an unknown effect.\<close>

definition wrote :: "string \<Rightarrow> bytes \<Rightarrow> PutOptions \<Rightarrow> 'c \<Rightarrow> Metadata res \<times> 'c \<Rightarrow> bool" where
  "wrote k b opts c out \<longleftrightarrow> (case out of
      (Inr m, c') \<Rightarrow> put_allowed opts (s3_view c k) \<and> s3_view c' = (s3_view c)(k \<mapsto> (b, md_ETag m))
    | (Inl e, c') \<Rightarrow> s3_view c' = s3_view c \<or>
        (\<not> errors_Is e ErrPrecondition \<and> put_allowed opts (s3_view c k) \<and> (\<exists>t. s3_view c' = (s3_view c)(k \<mapsto> (b, t)))))"

lemma wrote_failed:
  assumes "objects c' = objects c \<or> (put_allowed opts (s3_view c k) \<and> g \<noteq> ErrPrecondition \<and>
      (\<exists>t. objects c' = stored (objects c) (s3_bucket s) (s3_key s k) (b, t)))"
    and "errors_Is g ErrPrecondition \<Longrightarrow> g = ErrPrecondition"
  shows "wrote k b opts c (Inl g, c')"
  using assms(1)
proof (elim disjE conjE exE)
  assume "objects c' = objects c"
  from view_eq [OF this] show ?thesis by (simp add: wrote_def)
next
  fix t
  assume a: "put_allowed opts (s3_view c k)" "g \<noteq> ErrPrecondition"
    and "objects c' = stored (objects c) (s3_bucket s) (s3_key s k) (b, t)"
  from view_stored [OF this(3)] a assms(2) show ?thesis unfolding wrote_def by (simp only: prod.case sum.case) blast
qed

lemma putSingle_wrote: "wrote k (fst rd) opts c (putSingle s k rd n opts c)"
proof -
  let ?pin = "putInput s rd n opts"
  have pin: "pi_Body ?pin = rd" "pi_IfMatch ?pin = ifMatchOf opts" "pi_IfNoneMatch ?pin = ifNoneMatchOf opts"
    by (simp_all add: putInput_def)
  obtain y c' where put: "api_PutObject A (s3_bucket s) (s3_key s k) ?pin c = (y, c')" by force
  show ?thesis
  proof (cases y)
    case (Inl e)
    with put have run: "putSingle s k rd n opts c = (Inl (mapS3 e), c')"
      by (simp add: putSingle_def client bindP_def callP_def)
    have foreign: "errors_Is (mapS3 e) ErrPrecondition \<Longrightarrow> mapS3 e = ErrPrecondition"
      using mapS3_precondition put_foreign put Inl by blast
    from put_failed [OF put [unfolded Inl]] show ?thesis
      unfolding run pin conditions_allowed using foreign by (rule wrote_failed)
  next
    case (Inr etag)
    with put have run: "putSingle s k rd n opts c = stamped s k etag n c'"
      by (simp add: putSingle_def client bindP_def callP_def)
    from put_done [OF put [unfolded Inr]] show ?thesis
      unfolding run stamped_def wrote_def pin conditions_allowed by (auto dest: view_stored)
  qed
qed

lemma abort_view: "objects (snd (abortOnError s k uid m c)) = objects (snd (m c)) \<and>
    fst (abortOnError s k uid m c) = fst (m c)"
proof -
  obtain r c1 where m: "m c = (r, c1)" by (cases "m c")
  have "objects (snd (api_AbortMultipartUpload A (s3_bucket s) (s3_key s k) uid c1)) = objects c1"
    using abort_keeps by (metis surjective_pairing)
  with m show ?thesis by (cases r) (simp_all add: abortOnError_def client)
qed

lemma putMultipart_wrote: "wrote k (fst rd) opts c (putMultipart s k rd opts c)"
proof -
  let ?b = "s3_bucket s" and ?k = "s3_key s k" and ?ps = "nat (cf_PartSize (s3_cfg s))"
  obtain y c1 where create: "api_CreateMultipartUpload A ?b ?k (s3Encryption s) c = (y, c1)" by force
  note o1 = create_keeps [OF create]
  show ?thesis
  proof (cases y)
    case (Inl e)
    with create have "putMultipart s k rd opts c = (Inl (mapS3 e), c1)"
      by (simp add: putMultipart_def client bindP_def callP_def)
    with view_eq [OF o1] show ?thesis by (simp add: wrote_def)
  next
    case uid: (Inr uid)
    let ?body = "bindP (uploadParts s k uid ?ps 1 rd) (\<lambda>(parts, tot).
        bindP (callP (api_CompleteMultipartUpload (s3_client s) ?b ?k uid
                 (sort_key cp_PartNumber parts) (ifMatchOf opts) (ifNoneMatchOf opts))) (\<lambda>etag.
        stamped s k etag tot))"
    let ?m = "checkP (failIf (cf_PartSize (s3_cfg s) > 2 ^ 63 - 1) (Errorf ''part size exceeds platform limit'' [])) ?body"
    have run: "putMultipart s k rd opts c = abortOnError s k uid ?m c1"
      using create uid by (simp add: putMultipart_def client bindP_def callP_def)
    obtain res c2 where up: "uploadParts s k uid ?ps 1 rd c1 = (res, c2)" by force
    note spec = uploadParts_spec [OF client up]
    have m: "wrote k (fst rd) opts c (?m c1)"
    proof (cases "cf_PartSize (s3_cfg s) > 2 ^ 63 - 1")
      case True
      with view_eq [OF o1] show ?thesis by (simp add: wrote_def)
    next
      case False
      then have mb: "?m c1 = ?body c1" by simp
      show ?thesis
      proof (cases res)
        case (Inl e)
        with up have "?body c1 = (Inl e, c2)" by (simp add: bindP_def)
        moreover have "objects c2 = objects c" using spec o1 by simp
        ultimately show ?thesis unfolding mb by (simp add: wrote_def view_eq [of c2 c])
      next
        case (Inr q)
        obtain parts tot where q: "q = (parts, tot)" by (cases q)
        with spec Inr obtain bodies where b: "concat bodies = fst rd" "map cp_PartNumber parts = [1..<1 + length parts]"
          "list_all2 (\<lambda>p b. \<exists>t. cp_ETag p = Some t \<and> uploads c2 uid (cp_PartNumber p) = Some (b, t)) parts bodies" by auto
        have srt: "sort_key cp_PartNumber parts = parts"
          by (rule sort_key_id_if_sorted) (simp only: b(2) sorted_upt)
        have asm: "assembled (uploads c2 uid) parts bodies"
          unfolding assembled_def b(2)
          by (intro conjI b(3)) (simp only: strict_sorted_iff sorted_upt distinct_upt)
        obtain z c3 where cmp: "api_CompleteMultipartUpload A ?b ?k uid parts (ifMatchOf opts) (ifNoneMatchOf opts) c2 = (z, c3)"
          by force
        have o2: "objects c2 = objects c" using spec o1 by simp
        show ?thesis
        proof (cases z)
          case (Inl e)
          with up \<open>res = Inr q\<close> q cmp have bd: "?body c1 = (Inl (mapS3 e), c3)"
            by (simp add: bindP_def callP_def client srt)
          have foreign: "errors_Is (mapS3 e) ErrPrecondition \<Longrightarrow> mapS3 e = ErrPrecondition"
            using mapS3_precondition complete_foreign cmp Inl by blast
          from complete_failed [OF cmp [unfolded Inl] asm] show ?thesis
            unfolding mb bd b(1) o2 conditions_allowed using foreign by (rule wrote_failed)
        next
          case (Inr etag)
          with up \<open>res = Inr q\<close> q cmp have bd: "?body c1 = stamped s k etag tot c3"
            by (simp add: bindP_def callP_def client srt)
          from complete_done [OF cmp [unfolded Inr] asm] show ?thesis
            unfolding mb bd stamped_def wrote_def b(1) o2 conditions_allowed by (auto dest: view_stored)
        qed
      qed
    qed
    obtain r3 c3 where r3: "?m c1 = (r3, c3)" by (cases "?m c1")
    obtain r4 c4 where r4: "abortOnError s k uid ?m c1 = (r4, c4)" by (cases "abortOnError s k uid ?m c1")
    have "r4 = r3" "s3_view c4 = s3_view c3"
      using abort_view [of k uid ?m c1] r3 r4 view_eq [of c4 c3] by simp_all
    with m show ?thesis unfolding run r3 r4 wrote_def by (cases r3) simp_all
  qed
qed

lemma Put_wrote: "wrote k (fst rd) opts c (S3_Put s k rd n opts c)"
proof -
  have fail: "wrote k b opts c (Inl e, c)" for b e by (simp add: wrote_def)
  show ?thesis
    using putMultipart_wrote putSingle_wrote [of k rd opts] putSingle_wrote [of k "(fst rd, None)" opts] fail
    by (auto simp: S3_Put_def Let_def split: option.splits)
qed

lemma Get_cases:
  assumes "S3_Get s k none c = (r, c')"
  shows "objects c' = objects c"
    and "r = Inr ob \<Longrightarrow> s3_view c k = Some (ob_Body ob, ob_ETag ob)"
    and "s3_view c k = None \<Longrightarrow> \<exists>e. r = Inl e"
proof -
  let ?inm = "if none \<noteq> [] then Some none else None"
  obtain y c1 where get: "api_GetObject A (s3_bucket s) (s3_key s k) ?inm None c = (y, c1)" by force
  have c1: "c1 = c'"
    using assms get by (auto simp: S3_Get_def client bindP_def callP_def checkP_def Let_def
        split: sum.splits option.splits)
  with get_keeps [OF get] show "objects c' = objects c" by simp
  show "s3_view c k = Some (ob_Body ob, ob_ETag ob)" if "r = Inr ob"
  proof -
    from assms get that obtain out where out: "y = Inr out" "snd (go_Body out) = None"
      "ob_Body ob = fst (go_Body out)" "ob_ETag ob = ToString (go_ETag out)"
      by (auto simp: S3_Get_def client bindP_def callP_def checkP_def Let_def split: sum.splits option.splits)
    from get_object [OF get [unfolded out(1)] out(2)] show ?thesis
      using out by (auto simp: s3_view_def ToString_def)
  qed
  show "\<exists>e. r = Inl e" if "s3_view c k = None"
  proof -
    from get_missing [of c "s3_bucket s" "s3_key s k" ?inm] that get obtain e where "y = Inl e"
      by (auto simp: s3_view_def)
    with assms get show ?thesis by (auto simp: S3_Get_def client bindP_def callP_def)
  qed
qed

lemma OpenRange_keeps: "S3_OpenRange s k lo hi c = (r, c') \<Longrightarrow> objects c' = objects c"
  by (auto simp: S3_OpenRange_def client bindP_def callP_def checkP_def Let_def
      split: sum.splits option.splits prod.splits if_splits dest: get_keeps)

lemma Head_cases:
  assumes "S3_Head s k c = (r, c')"
  shows "objects c' = objects c"
    and "r = Inr m \<Longrightarrow> \<exists>b. s3_view c k = Some (b, md_ETag m) \<and> md_Size m = int (length b)"
  using assms head_object [of "s3_bucket s" "s3_key s k" c]
  by (auto simp: S3_Head_def client bindP_def callP_def s3_view_def ToString_def ToInt64_def
      split: sum.splits prod.splits dest: head_keeps)

lemma listPages_keeps: "listPages fuel s p token c = (r, c') \<Longrightarrow> objects c' = objects c"
proof (induction fuel arbitrary: token c r c')
  case (Suc fuel)
  obtain y c1 where list: "api_ListObjectsV2 A (s3_bucket s) (s3_key s p) token c = (y, c1)" by force
  show ?case
  proof (cases y)
    case (Inl e)
    with list_keeps [OF list] Suc.prems list show ?thesis by (auto simp: client)
  next
    case (Inr out)
    obtain r2 c2 where rec: "listPages fuel s p (lo_NextContinuationToken out) c1 = (r2, c2)"
      by (cases "listPages fuel s p (lo_NextContinuationToken out) c1")
    from list_keeps [OF list] Suc.IH [OF rec] Suc.prems list rec Inr show ?thesis
      by (auto simp: client Let_def split: if_splits prod.splits)
  qed
qed simp

lemma Delete_effect:
  assumes "S3_Delete s k opts c = (r, c')"
  shows "s3_view c' = s3_view c \<or>
    ((\<exists>b t. s3_view c k = Some (b, t) \<and> (do_IfMatch opts \<noteq> [] \<longrightarrow> t = do_IfMatch opts)) \<and>
     s3_view c' = (s3_view c)(k := None))"
proof -
  obtain y where "api_DeleteObject A (s3_bucket s) (s3_key s k)
      (if do_IfMatch opts \<noteq> [] then Some (do_IfMatch opts) else None) c = (y, c')"
    using assms by (auto simp: S3_Delete_def client callP_iff)
  from delete_effect [OF this] show ?thesis
  proof (elim disjE conjE exE)
    assume "objects c' = objects c"
    then show ?thesis using view_eq by blast
  next
    fix bs t
    assume o: "objects c (s3_bucket s) (s3_key s k) = Some (bs, t)"
      "(if do_IfMatch opts \<noteq> [] then Some (do_IfMatch opts) else None) \<noteq> None \<longrightarrow>
       (if do_IfMatch opts \<noteq> [] then Some (do_IfMatch opts) else None) = Some t"
      "objects c' = removed (objects c) (s3_bucket s) (s3_key s k)"
    from view_removed [OF o(3)] o(1,2) show ?thesis
      by (auto simp: s3_view_def [of c])
  qed
qed

end

sublocale s3_remote \<subseteq> remote: object_store "S3Store s" s3_view
proof unfold_locales
  fix k none c r c' assume "st_Get (S3Store s) k none c = (r, c')"
  then show "s3_view c' = s3_view c" by (auto simp: S3Store_def dest: Get_cases(1) view_eq)
next
  fix k none c ob c' assume "st_Get (S3Store s) k none c = (Inr ob, c')"
  then show "s3_view c k = Some (ob_Body ob, ob_ETag ob)" by (auto simp: S3Store_def dest: Get_cases(2))
next
  fix c k none assume "s3_view c k = None"
  then show "\<exists>e c'. st_Get (S3Store s) k none c = (Inl e, c')"
    by (simp add: S3Store_def) (metis Get_cases(3) surj_pair)
next
  fix k lo hi c rr c' assume "st_OpenRange (S3Store s) k lo hi c = (rr, c')"
  then show "s3_view c' = s3_view c" by (auto simp: S3Store_def dest: OpenRange_keeps view_eq)
next
  fix k c rh c' assume "st_Head (S3Store s) k c = (rh, c')"
  then show "s3_view c' = s3_view c" by (auto simp: S3Store_def dest: Head_cases(1) view_eq)
next
  fix k c m c' assume "st_Head (S3Store s) k c = (Inr m, c')"
  then show "\<exists>b. s3_view c k = Some (b, md_ETag m) \<and> md_Size m = int (length b)"
    by (auto simp: S3Store_def dest: Head_cases(2))
next
  fix p c rl c' assume "st_List (S3Store s) p c = (rl, c')"
  then show "s3_view c' = s3_view c" by (auto simp: S3Store_def S3_List_def dest: listPages_keeps view_eq)
next
  fix k rd n opts c m c' assume "st_Put (S3Store s) k rd n opts c = (Inr m, c')"
  then show "put_allowed opts (s3_view c k) \<and> s3_view c' = (s3_view c)(k \<mapsto> (fst rd, md_ETag m))"
    using Put_wrote [of k rd opts c n] by (simp add: S3Store_def wrote_def)
next
  fix k rd n opts c e c' assume "st_Put (S3Store s) k rd n opts c = (Inl e, c')"
  then show "s3_view c' = s3_view c \<or>
      (put_allowed opts (s3_view c k) \<and> (\<exists>t. s3_view c' = (s3_view c)(k \<mapsto> (fst rd, t))))"
    using Put_wrote [of k rd opts c n] by (auto simp: S3Store_def wrote_def)
next
  fix k rd n opts c e c'
  assume "st_Put (S3Store s) k rd n opts c = (Inl e, c')" "errors_Is e ErrPrecondition"
  then show "s3_view c' = s3_view c" using Put_wrote [of k rd opts c n] by (auto simp: S3Store_def wrote_def)
next
  fix k dopts c rd c' assume "st_Delete (S3Store s) k dopts c = (rd, c')"
  then show "s3_view c' = s3_view c \<or>
      ((\<exists>b t. s3_view c k = Some (b, t) \<and> (do_IfMatch dopts \<noteq> [] \<longrightarrow> t = do_IfMatch dopts)) \<and>
       s3_view c' = (s3_view c)(k := None))"
    using Delete_effect by (simp add: S3Store_def)
qed

context s3_remote
begin

lemma store_contract: "object_store (S3Store s) s3_view"
  by (rule remote.object_store_axioms)

end

text \<open>
  Range reads: the Content-Range of an answer states the position of its body in the object, and the
  size of the object. Then the store has exact ranges.
\<close>

locale s3_ranges = s3_remote A objects uploads s
  for A :: "'c s3API" and objects :: "'c \<Rightarrow> objects" and uploads :: "'c \<Rightarrow> string option \<Rightarrow> nat \<rightharpoonup> bytes \<times> string"
    and s :: "'c S3" +
  assumes get_range: "api_GetObject A b k None (Some rng) c = (Inr out, c') \<Longrightarrow>
      parseContentRange (ToString (go_ContentRange out)) = Some (lo, hi, n) \<Longrightarrow>
      \<exists>body t. objects c b k = Some (body, t) \<and> n = int (length body) \<and>
        (snd (go_Body out) = None \<longrightarrow> fst (go_Body out) = take (nat (hi - lo + 1)) (drop (nat lo) body))"

sublocale s3_ranges \<subseteq> exact: ranged_store "S3Store s" s3_view
proof unfold_locales
  fix k lo hi c part c'
  assume run: "st_OpenRange (S3Store s) k lo hi c = (Inr part, c')" and "0 \<le> lo" "lo \<le> hi"
  then obtain out where out: "api_GetObject A (s3_bucket s) (s3_key s k) None (Some (''bytes='' @ dec_int lo @ ''-'' @ dec_int hi)) c = (Inr out, c')"
    "parseContentRange (ToString (go_ContentRange out)) = Some (lo, hi, rg_TotalSize part)" "rg_Body part = go_Body out"
    by (auto simp: S3Store_def S3_OpenRange_def client bindP_def callP_def checkP_def Let_def failP_def returnP_def
        split: sum.splits prod.splits option.splits if_splits)
  from get_range [OF out(1,2)] out(3)
  show "\<exists>b t. s3_view c k = Some (b, t) \<and> rg_TotalSize part = int (length b) \<and>
      (snd (rg_Body part) = None \<longrightarrow> fst (rg_Body part) = take (nat (hi - lo + 1)) (drop (nat lo) b))"
    unfolding s3_view_def by auto
qed

context s3_ranges
begin

lemma ranges_contract: "ranged_store (S3Store s) s3_view"
  by (rule exact.ranged_store_axioms)

end

end
