(* ===== verification/Git3_Multipart.thy ===== *)
theory Git3_Multipart
  imports Git3_S3Laws
begin

text \<open>
  The concurrent part uploads of \<^verbatim>\<open>putMultipart\<close> (\<^verbatim>\<open>src/internal/store/s3.go\<close>) as a step relation:
  the reading loop starts an upload whenever a buffer is free, each upload is answered at any later
  moment, and the answers are collected in the order they arrive. The first collected failure stops
  the loop; the uploads in flight are still drained.

  A buffer is in use from the start of its upload until its result is collected, so at most
  \<open>workers\<close> uploads are in flight or waiting to be collected.
\<close>

section \<open>States and steps\<close>

record 'c Upload =
  up_unread :: bytes
  up_nPart :: nat
  up_reading :: bool
  up_inflight :: "(nat \<times> bytes) list"
  up_results :: "(goerr + CompletedPart \<times> int) list"
  up_parts :: "CompletedPart list"
  up_total :: int
  up_error :: "goerr option"
  up_client :: 'c

definition upload_init :: "bytes \<Rightarrow> 'c \<Rightarrow> 'c Upload" where
  "upload_init b c =
     \<lparr>up_unread = b, up_nPart = 1, up_reading = True, up_inflight = [], up_results = [], up_parts = [],
      up_total = 0, up_error = None, up_client = c\<rparr>"

text \<open>Whether the loop is about to read the next part.\<close>

definition reads_on :: "nat \<Rightarrow> 'c Upload \<Rightarrow> bool" where
  "reads_on workers st \<longleftrightarrow> up_reading st \<and> up_error st = None \<and>
     length (up_inflight st) + length (up_results st) < workers"

definition launched :: "bytes \<Rightarrow> 'c Upload \<Rightarrow> 'c Upload" where
  "launched chunk st = st\<lparr>up_nPart := Suc (up_nPart st),
     up_inflight := up_inflight st @ [(up_nPart st, chunk)],
     up_unread := drop (length chunk) (up_unread st)\<rparr>"

text \<open>\<^verbatim>\<open>accept\<close>: a part is recorded with its size, a failure stops the upload.\<close>

fun collected :: "goerr + CompletedPart \<times> int \<Rightarrow> 'c Upload \<Rightarrow> 'c Upload" where
  "collected (Inl e) st = st\<lparr>up_error := (case up_error st of None \<Rightarrow> Some e | Some e0 \<Rightarrow> Some e0)\<rparr>"
| "collected (Inr (p, n)) st = st\<lparr>up_parts := up_parts st @ [p], up_total := up_total st + n\<rparr>"

inductive upload_step ::
  "'c S3 \<Rightarrow> string \<Rightarrow> string option \<Rightarrow> nat \<Rightarrow> nat \<Rightarrow> goerr option \<Rightarrow> 'c Upload \<Rightarrow> 'c Upload \<Rightarrow> bool"
  for s key uid ps workers rerr
where
  launch: "reads_on workers st \<Longrightarrow> length (take ps (up_unread st)) = ps \<Longrightarrow> up_nPart st \<le> 10000 \<Longrightarrow>
    upload_step s key uid ps workers rerr st (launched (take ps (up_unread st)) st)"
| launch_last: "reads_on workers st \<Longrightarrow> length (up_unread st) < ps \<Longrightarrow> rerr = None \<Longrightarrow> up_unread st \<noteq> [] \<Longrightarrow>
    up_nPart st \<le> 10000 \<Longrightarrow>
    upload_step s key uid ps workers rerr st ((launched (up_unread st) st)\<lparr>up_reading := False\<rparr>)"
| end_of_input: "reads_on workers st \<Longrightarrow> up_unread st = [] \<Longrightarrow> 0 < ps \<Longrightarrow> rerr = None \<Longrightarrow>
    upload_step s key uid ps workers rerr st (st\<lparr>up_reading := False\<rparr>)"
| read_error: "reads_on workers st \<Longrightarrow> length (up_unread st) < ps \<Longrightarrow> rerr = Some e \<Longrightarrow>
    upload_step s key uid ps workers rerr st (st\<lparr>up_error := Some e\<rparr>)"
| too_many: "reads_on workers st \<Longrightarrow> ps \<le> length (up_unread st) \<or> (up_unread st \<noteq> [] \<and> rerr = None) \<Longrightarrow>
    10000 < up_nPart st \<Longrightarrow>
    upload_step s key uid ps workers rerr st
      (st\<lparr>up_error := Some (Errorf ''multipart upload exceeds 10,000 parts'' [])\<rparr>)"
| respond: "up_inflight st = before @ (n, body) # after \<Longrightarrow> uploadPart s key uid n body (up_client st) = (r, c') \<Longrightarrow>
    upload_step s key uid ps workers rerr st
      (st\<lparr>up_inflight := before @ after, up_client := c',
          up_results := up_results st @ [case r of Inl e \<Rightarrow> Inl e | Inr p \<Rightarrow> Inr (p, int (length body))]\<rparr>)"
| accept: "up_results st = x # xs \<Longrightarrow>
    upload_step s key uid ps workers rerr st (collected x (st\<lparr>up_results := xs\<rparr>))"

definition upload_finished :: "'c Upload \<Rightarrow> bool" where
  "upload_finished st \<longleftrightarrow> \<not> up_reading st \<and> up_error st = None \<and> up_inflight st = [] \<and> up_results st = []"

section \<open>Every schedule ends\<close>

definition upload_measure :: "'c Upload \<Rightarrow> nat" where
  "upload_measure st = 3 * length (up_unread st) + (if up_reading st then 3 else 0) +
     2 * length (up_inflight st) + length (up_results st) + (if up_error st = None then 1 else 0)"

lemma collected_fields [simp]:
  "up_inflight (collected x st) = up_inflight st" "up_results (collected x st) = up_results st"
  "up_unread (collected x st) = up_unread st" "up_reading (collected x st) = up_reading st"
  "up_nPart (collected x st) = up_nPart st" "up_client (collected x st) = up_client st"
  "up_error st \<noteq> None \<Longrightarrow> up_error (collected x st) \<noteq> None"
  by (cases "(x, st)" rule: collected.cases; auto split: option.splits)+

lemma upload_step_measure:
  assumes "0 < ps" "upload_step s key uid ps workers rerr st st'"
  shows "upload_measure st' < upload_measure st"
  using assms(2)
proof cases
  case (accept x xs)
  have "up_error (collected x (st\<lparr>up_results := xs\<rparr>)) = None \<Longrightarrow> up_error st = None"
    using collected_fields(7) [of "st\<lparr>up_results := xs\<rparr>" x] by (cases "up_error st") auto
  with accept show ?thesis by (auto simp: upload_measure_def)
qed (use assms(1) in \<open>auto simp: upload_measure_def launched_def reads_on_def\<close>)

lemma upload_steps_measure:
  assumes "0 < ps"
  shows "(upload_step s key uid ps workers rerr ^^ n) st st' \<Longrightarrow> n + upload_measure st' \<le> upload_measure st"
proof (induction n arbitrary: st')
  case (Suc n)
  then obtain st1 where "(upload_step s key uid ps workers rerr ^^ n) st st1" "upload_step s key uid ps workers rerr st1 st'"
    by auto
  with Suc.IH upload_step_measure [OF assms this(2)] show ?case by fastforce
qed simp

lemma upload_stuck:
  assumes "0 < ps" "0 < workers" "\<nexists>st'. upload_step s key uid ps workers rerr st st'"
  shows "up_inflight st = [] \<and> up_results st = [] \<and> (up_error st \<noteq> None \<or> \<not> up_reading st)"
proof -
  have r: "up_results st = []" using assms(3) upload_step.accept by (metis neq_Nil_conv)
  have i: "up_inflight st = []"
  proof (rule ccontr)
    assume "up_inflight st \<noteq> []"
    then obtain n body after where "up_inflight st = [] @ (n, body) # after" by (metis append_Nil neq_Nil_conv surj_pair)
    moreover obtain r c' where "uploadPart s key uid n body (up_client st) = (r, c')" by (metis surj_pair)
    ultimately show False using assms(3) upload_step.respond by metis
  qed
  have "up_error st \<noteq> None \<or> \<not> up_reading st"
  proof (rule ccontr)
    assume "\<not> (up_error st \<noteq> None \<or> \<not> up_reading st)"
    then have on: "reads_on workers st" using r i assms(2) by (simp add: reads_on_def)
    show False
    proof (cases "ps \<le> length (up_unread st)")
      case True
      then have "length (take ps (up_unread st)) = ps" by simp
      then show ?thesis
        using upload_step.launch [OF on, of ps] upload_step.too_many [OF on, of ps] assms(3) True
        by (cases "up_nPart st \<le> 10000") (blast, meson not_le_imp_less)
    next
      case short: False
      show ?thesis
      proof (cases rerr)
        case None
        then show ?thesis
          using upload_step.launch_last [OF on, of ps] upload_step.too_many [OF on, of ps] short
            upload_step.end_of_input [OF on _ assms(1)] assms(3)
          by (metis not_le_imp_less)
      next
        case (Some e)
        then show ?thesis using upload_step.read_error [OF on, of ps] short assms(3) by (metis not_le_imp_less)
      qed
    qed
  qed
  with r i show ?thesis by simp
qed

section \<open>Every schedule uploads the input\<close>

definition chunkAt :: "nat \<Rightarrow> bytes \<Rightarrow> nat \<Rightarrow> bytes" where
  "chunkAt ps b i = take ps (drop ((i - 1) * ps) b)"

lemma concat_chunks: "concat (map (chunkAt ps b) [1..<Suc n]) = take (n * ps) b"
proof (induction n)
  case (Suc n)
  have "[1..<Suc (Suc n)] = [1..<Suc n] @ [Suc n]" by simp
  then have "concat (map (chunkAt ps b) [1..<Suc (Suc n)]) = take (n * ps) b @ chunkAt ps b (Suc n)"
    using Suc by (simp del: upt_Suc)
  also have "\<dots> = take (Suc n * ps) b" by (simp add: chunkAt_def add.commute [of ps] take_add)
  finally show ?case .
qed simp

lemma int_sum_list: "sum_list (map (\<lambda>x. int (f x)) xs) = int (sum_list (map f xs))"
  by (induction xs) simp_all

text \<open>The parts that were uploaded, collected or not, and all part numbers in use.\<close>

fun goods :: "('e + 'a) list \<Rightarrow> 'a list" where
  "goods [] = []"
| "goods (Inl e # xs) = goods xs"
| "goods (Inr x # xs) = x # goods xs"

lemma goods_append [simp]: "goods (xs @ ys) = goods xs @ goods ys"
  by (induction xs rule: goods.induct) auto

definition good_results :: "'c Upload \<Rightarrow> (CompletedPart \<times> int) list" where
  "good_results st = goods (up_results st)"

definition used_numbers :: "'c Upload \<Rightarrow> nat list" where
  "used_numbers st = map fst (up_inflight st) @ map (cp_PartNumber \<circ> fst) (good_results st) @
     map cp_PartNumber (up_parts st)"

definition faultless :: "'c Upload \<Rightarrow> bool" where
  "faultless st \<longleftrightarrow> up_error st = None \<and> list_all (\<lambda>x. \<not> isl x) (up_results st)"

context s3_service
begin

definition part_stored :: "string option \<Rightarrow> nat \<Rightarrow> bytes \<Rightarrow> 'c \<Rightarrow> CompletedPart \<Rightarrow> bool" where
  "part_stored uid ps b c p \<longleftrightarrow>
     (\<exists>t. cp_ETag p = Some t \<and> uploads c uid (cp_PartNumber p) = Some (chunkAt ps b (cp_PartNumber p), t))"

definition upload_inv :: "string option \<Rightarrow> nat \<Rightarrow> nat \<Rightarrow> bytes \<Rightarrow> objects \<Rightarrow> 'c Upload \<Rightarrow> bool" where
  "upload_inv uid ps workers b ob st \<longleftrightarrow>
     objects (up_client st) = ob \<and>
     length (up_inflight st) + length (up_results st) \<le> workers \<and>
     1 \<le> up_nPart st \<and> up_nPart st \<le> 10001 \<and>
     up_unread st = drop ((up_nPart st - 1) * ps) b \<and>
     (\<not> up_reading st \<longrightarrow> length b \<le> (up_nPart st - 1) * ps) \<and>
     (\<forall>(n, body) \<in> set (up_inflight st). body = chunkAt ps b n) \<and>
     distinct (used_numbers st) \<and> set (used_numbers st) \<subseteq> {1..<up_nPart st} \<and>
     (faultless st \<longrightarrow> set (used_numbers st) = {1..<up_nPart st}) \<and>
     (\<forall>(p, n) \<in> set (good_results st). part_stored uid ps b (up_client st) p \<and>
        n = int (length (chunkAt ps b (cp_PartNumber p)))) \<and>
     (\<forall>p \<in> set (up_parts st). part_stored uid ps b (up_client st) p) \<and>
     up_total st = sum_list (map (\<lambda>p. int (length (chunkAt ps b (cp_PartNumber p)))) (up_parts st))"

lemma upload_inv_init: "upload_inv uid ps workers b (objects c) (upload_init b c)"
  by (simp add: upload_inv_def upload_init_def used_numbers_def good_results_def faultless_def)

lemma upload_inv_launched:
  assumes "upload_inv uid ps workers b ob st" "reads_on workers st" "up_nPart st \<le> 10000"
    and "chunk = take ps (up_unread st)"
  shows "upload_inv uid ps workers b ob (launched chunk st)"
proof -
  have chunk: "chunk = chunkAt ps b (up_nPart st)"
    using assms(1,4) by (simp add: upload_inv_def chunkAt_def)
  have "drop (length chunk) (up_unread st) = drop ps (up_unread st)"
    using assms(4) by (cases "ps \<le> length (up_unread st)") auto
  also have "\<dots> = drop (up_nPart st * ps) b"
    using assms(1) by (cases "up_nPart st") (simp_all add: upload_inv_def add.commute)
  finally have unread: "drop (length chunk) (up_unread st) = drop (up_nPart st * ps) b" .
  have used: "used_numbers (launched chunk st) = map fst (up_inflight st) @ [up_nPart st] @
      map (cp_PartNumber \<circ> fst) (good_results st) @ map cp_PartNumber (up_parts st)"
    by (simp add: used_numbers_def good_results_def launched_def)
  then have "set (used_numbers (launched chunk st)) = insert (up_nPart st) (set (used_numbers st))"
    "distinct (used_numbers (launched chunk st)) \<longleftrightarrow> distinct (used_numbers st) \<and> up_nPart st \<notin> set (used_numbers st)"
    by (auto simp: used_numbers_def)
  with assms chunk unread show ?thesis
    by (auto simp: upload_inv_def launched_def reads_on_def good_results_def faultless_def atLeastLessThanSuc)
qed

lemma upload_inv_respond:
  assumes inv: "upload_inv uid ps workers b ob st" and client: "s3_client s = A"
    and fl: "up_inflight st = before @ (n, body) # after"
    and run: "uploadPart s key uid n body (up_client st) = (r, c')"
  shows "upload_inv uid ps workers b ob
    (st\<lparr>up_inflight := before @ after, up_client := c',
        up_results := up_results st @ [case r of Inl e \<Rightarrow> Inl e | Inr p \<Rightarrow> Inr (p, int (length body))]\<rparr>)"
    (is "upload_inv uid ps workers b ob ?st")
proof -
  note k = uploadPart_keeps [OF client run]
  have body: "body = chunkAt ps b n" and d: "distinct (used_numbers st)" "set (used_numbers st) \<subseteq> {1..<up_nPart st}"
    and f: "faultless st \<Longrightarrow> set (used_numbers st) = {1..<up_nPart st}"
    using inv fl by (auto simp: upload_inv_def)
  have new: "n \<notin> set (map (cp_PartNumber \<circ> fst) (good_results st))" "n \<notin> set (map cp_PartNumber (up_parts st))"
    using d(1) fl by (auto simp: used_numbers_def)
  have old: "part_stored uid ps b c' p" if "part_stored uid ps b (up_client st) p" "cp_PartNumber p \<noteq> n" for p
    using that k by (simp add: part_stored_def)
  have goods: "\<forall>(p, m) \<in> set (good_results st). part_stored uid ps b c' p \<and> m = int (length (chunkAt ps b (cp_PartNumber p)))"
    "\<forall>p \<in> set (up_parts st). part_stored uid ps b c' p"
  proof -
    have A: "\<forall>(p, m) \<in> set (good_results st). part_stored uid ps b (up_client st) p \<and> m = int (length (chunkAt ps b (cp_PartNumber p)))"
      "\<forall>p \<in> set (up_parts st). part_stored uid ps b (up_client st) p"
      using inv by (simp_all add: upload_inv_def)
    from A(1) new(1) old show "\<forall>(p, m) \<in> set (good_results st). part_stored uid ps b c' p \<and>
        m = int (length (chunkAt ps b (cp_PartNumber p)))" by force
    from A(2) new(2) old show "\<forall>p \<in> set (up_parts st). part_stored uid ps b c' p" by force
  qed
  have basic: "objects c' = ob" "length (before @ after) + length (up_results ?st) \<le> workers"
    "\<forall>(m, body) \<in> set (before @ after). body = chunkAt ps b m"
    using inv k fl by (auto simp: upload_inv_def)
  show ?thesis
  proof (cases r)
    case (Inl e)
    have "set (used_numbers ?st) \<subseteq> set (used_numbers st)" "distinct (used_numbers ?st)"
      using d(1) fl Inl by (auto simp: used_numbers_def good_results_def)
    moreover have "\<not> faultless ?st" using Inl by (simp add: faultless_def)
    ultimately show ?thesis
      using inv basic goods d(2) Inl by (auto simp: upload_inv_def good_results_def)
  next
    case (Inr p)
    obtain t where p: "cp_ETag p = Some t" "cp_PartNumber p = n" "uploads c' uid = (uploads (up_client st) uid)(n \<mapsto> (body, t))"
      using uploadPart_Inr [OF client run [unfolded Inr]] by blast
    have "mset (used_numbers ?st) = mset (used_numbers st)"
      using fl Inr p(2) by (simp add: used_numbers_def good_results_def)
    then have "set (used_numbers ?st) = set (used_numbers st)" "distinct (used_numbers ?st)"
      using d(1) by (metis mset_eq_setD, metis mset_eq_imp_distinct_iff)
    moreover have "faultless ?st \<Longrightarrow> faultless st" by (simp add: faultless_def)
    moreover have "part_stored uid ps b c' p" "int (length body) = int (length (chunkAt ps b (cp_PartNumber p)))"
      using p body by (simp_all add: part_stored_def)
    ultimately show ?thesis
      using inv basic goods d(2) f Inr by (auto simp: upload_inv_def good_results_def)
  qed
qed

lemma upload_inv_accept:
  assumes inv: "upload_inv uid ps workers b ob st" and res: "up_results st = x # xs"
  shows "upload_inv uid ps workers b ob (collected x (st\<lparr>up_results := xs\<rparr>))"
proof (cases x)
  case (Inl e)
  have "used_numbers (collected x (st\<lparr>up_results := xs\<rparr>)) = used_numbers st"
    using res Inl by (simp add: used_numbers_def good_results_def)
  moreover have "\<not> faultless (collected x (st\<lparr>up_results := xs\<rparr>))"
    using Inl by (auto simp: faultless_def split: option.splits)
  moreover have "good_results (collected x (st\<lparr>up_results := xs\<rparr>)) = good_results st"
    using res Inl by (simp add: good_results_def)
  moreover have "up_parts (collected x (st\<lparr>up_results := xs\<rparr>)) = up_parts st"
    "up_total (collected x (st\<lparr>up_results := xs\<rparr>)) = up_total st"
    using Inl by simp_all
  ultimately show ?thesis using inv res unfolding upload_inv_def by simp
next
  case (Inr y)
  obtain p m where y: "y = (p, m)" by (cases y)
  let ?st = "collected x (st\<lparr>up_results := xs\<rparr>)"
  have "mset (used_numbers ?st) = mset (used_numbers st)"
    using res Inr y by (simp add: used_numbers_def good_results_def)
  then have "set (used_numbers ?st) = set (used_numbers st)" "distinct (used_numbers ?st) = distinct (used_numbers st)"
    by (metis mset_eq_setD, metis mset_eq_imp_distinct_iff)
  moreover have "faultless ?st \<Longrightarrow> faultless st" using res Inr y by (simp add: faultless_def)
  ultimately show ?thesis using inv res Inr y by (auto simp: upload_inv_def good_results_def)
qed

lemma upload_inv_step:
  assumes "upload_step s key uid ps workers rerr st st'" "s3_client s = A" "upload_inv uid ps workers b ob st"
  shows "upload_inv uid ps workers b ob st'"
  using assms(1)
proof cases
  case launch
  then show ?thesis using upload_inv_launched [OF assms(3)] by simp
next
  case launch_last
  then have "upload_inv uid ps workers b ob (launched (up_unread st) st)"
    using upload_inv_launched [OF assms(3)] by simp
  with launch_last show ?thesis
    by (auto simp: upload_inv_def launched_def used_numbers_def good_results_def faultless_def)
next
  case end_of_input
  with assms(3) show ?thesis by (simp add: upload_inv_def used_numbers_def good_results_def faultless_def)
next
  case (read_error e)
  with assms(3) show ?thesis by (simp add: upload_inv_def used_numbers_def good_results_def faultless_def)
next
  case too_many
  with assms(3) show ?thesis by (simp add: upload_inv_def used_numbers_def good_results_def faultless_def)
next
  case (respond before n body after r c')
  then show ?thesis using upload_inv_respond [OF assms(3,2)] by simp
next
  case (accept x xs)
  then show ?thesis using upload_inv_accept [OF assms(3)] by simp
qed

lemma upload_inv_reachable:
  assumes "s3_client s = A" "(upload_step s key uid ps workers rerr)\<^sup>*\<^sup>* (upload_init b c) st"
  shows "upload_inv uid ps workers b (objects c) st"
  using assms(2) by induction (auto intro: upload_inv_init upload_inv_step [OF _ assms(1)])

text \<open>What a finished upload hands to the completion request.\<close>

lemma upload_finished_parts:
  assumes "s3_client s = A" "(upload_step s key uid ps workers rerr)\<^sup>*\<^sup>* (upload_init b c) st" "upload_finished st"
  defines "parts \<equiv> sort_key cp_PartNumber (up_parts st)"
  shows "\<exists>bodies. assembled (uploads (up_client st) uid) parts bodies \<and> concat bodies = b \<and>
    up_total st = int (length b) \<and> map cp_PartNumber parts = [1..<Suc (length parts)]"
proof -
  note inv = upload_inv_reachable [OF assms(1,2)]
  let ?n = "up_nPart st"
  have used: "used_numbers st = map cp_PartNumber (up_parts st)" and fl: "faultless st"
    using assms(3) by (auto simp: upload_finished_def used_numbers_def good_results_def faultless_def)
  have nums: "set (map cp_PartNumber (up_parts st)) = {1..<?n}" "distinct (map cp_PartNumber (up_parts st))"
    using inv fl used by (auto simp: upload_inv_def)
  have "sorted (map cp_PartNumber parts)" "distinct (map cp_PartNumber parts)" "set (map cp_PartNumber parts) = set [1..<?n]"
    using nums unfolding parts_def by (auto simp: distinct_map)
  then have pn: "map cp_PartNumber parts = [1..<?n]"
    by (intro sorted_distinct_set_unique) auto
  have len: "length parts = ?n - 1" using arg_cong [OF pn, of length] by simp
  define bodies where "bodies = map (chunkAt ps b) [1..<?n]"
  have pos: "1 \<le> ?n" and rest: "length b \<le> (?n - 1) * ps"
    using inv assms(3) by (auto simp: upload_inv_def upload_finished_def)
  have b: "concat bodies = b"
    using concat_chunks [of ps b "?n - 1"] pos rest by (simp add: bodies_def)
  have st: "part_stored uid ps b (up_client st) p" if "p \<in> set parts" for p
    using inv that by (auto simp: upload_inv_def parts_def)
  have bodies: "bodies = map (\<lambda>p. chunkAt ps b (cp_PartNumber p)) parts"
    unfolding bodies_def pn [symmetric] by simp
  have "assembled (uploads (up_client st) uid) parts bodies"
    unfolding assembled_def pn bodies using st
    by (auto simp: part_stored_def list_all2_conv_all_nth strict_sorted_iff)
  moreover have "up_total st = int (length b)"
  proof -
    have "up_total st = sum_list (map (\<lambda>p. int (length (chunkAt ps b (cp_PartNumber p)))) (up_parts st))"
      using inv by (simp add: upload_inv_def)
    also have "\<dots> = sum_list (map (\<lambda>p. int (length (chunkAt ps b (cp_PartNumber p)))) parts)"
    proof -
      have "mset (map (\<lambda>p. int (length (chunkAt ps b (cp_PartNumber p)))) (up_parts st)) =
        mset (map (\<lambda>p. int (length (chunkAt ps b (cp_PartNumber p)))) parts)" unfolding parts_def by simp
      then show ?thesis by (metis sum_mset_sum_list)
    qed
    also have "\<dots> = int (length (concat bodies))"
      unfolding bodies by (simp add: length_concat comp_def int_sum_list)
    finally show ?thesis by (simp add: b)
  qed
  ultimately show ?thesis using b pn pos len by (intro exI [of _ bodies]) simp
qed

end

end
