(* ===== verification/Git3_S3Props.thy ===== *)
theory Git3_S3Props
  imports Git3_Multipart
begin

text \<open>
  A simulated bucket that satisfies the laws of the service, the interpretation of the locales on
  it, and the properties of the S3 store.
\<close>

section \<open>A bucket\<close>

record Bucket =
  bk_objects :: objects
  bk_uploads :: "string option \<Rightarrow> nat \<rightharpoonup> bytes \<times> string"
  bk_next :: nat

definition refuse :: "string \<Rightarrow> apierr" where
  "refuse code = \<lparr>ae_ErrorCode = Some code, ae_HTTPStatusCode = None, ae_Err = Errorf code []\<rparr>"

definition bucket_tag :: "Bucket \<Rightarrow> string" where
  "bucket_tag c = CHR 0x22 # dec (bk_next c) @ [CHR 0x22]"

definition bucket_store :: "string \<Rightarrow> string \<Rightarrow> bytes \<Rightarrow> Bucket \<Rightarrow> (apierr + string option) \<times> Bucket" where
  "bucket_store b k body c =
     (Inr (Some (bucket_tag c)),
      c\<lparr>bk_objects := stored (bk_objects c) b k (body, bucket_tag c), bk_next := Suc (bk_next c)\<rparr>)"

definition bucket_range :: "string \<Rightarrow> (int \<times> int) option" where
  "bucket_range r =
     (case CutByte (TrimPrefix r ''bytes='') (CHR ''-'') of
        (a, b, ok) \<Rightarrow> (case (Atoi a, Atoi b) of (Some lo, Some hi) \<Rightarrow> Some (lo, hi) | _ \<Rightarrow> None))"

definition range_header :: "int \<Rightarrow> int \<Rightarrow> int \<Rightarrow> string" where
  "range_header lo hi n = ''bytes '' @ dec (nat lo) @ ''-'' @ dec (nat hi) @ ''/'' @ dec (nat n)"

definition bucket_get :: "string \<Rightarrow> string \<Rightarrow> string option \<Rightarrow> string option \<Rightarrow> (Bucket, GetObjectOutput) call" where
  "bucket_get b k inm rng c =
     (case bk_objects c b k of
        None \<Rightarrow> (Inl (refuse ''NoSuchKey''), c)
      | Some (body, t) \<Rightarrow>
         (if inm = Some t then (Inl (refuse ''NotModified''), c)
          else (case rng of
              None \<Rightarrow>
                (Inr \<lparr>go_Body = (body, None), go_ContentLength = Some (int (length body)), go_ContentRange = None,
                      go_ETag = Some t, go_LastModified = Some 0\<rparr>, c)
            | Some r \<Rightarrow>
                (case bucket_range r of
                   None \<Rightarrow> (Inl (refuse ''InvalidArgument''), c)
                 | Some (lo, hi) \<Rightarrow>
                     (if lo < 0 \<or> hi < lo \<or> int (length body) \<le> hi \<or> 2 ^ 63 \<le> length body
                      then (Inl (refuse ''InvalidRange''), c)
                      else (Inr \<lparr>go_Body = (take (nat (hi - lo + 1)) (drop (nat lo) body), None),
                             go_ContentLength = Some (hi - lo + 1),
                             go_ContentRange = Some (range_header lo hi (int (length body))),
                             go_ETag = Some t, go_LastModified = Some 0\<rparr>, c))))))"

definition bucket_head :: "string \<Rightarrow> string \<Rightarrow> (Bucket, HeadObjectOutput) call" where
  "bucket_head b k c =
     (case bk_objects c b k of
        None \<Rightarrow> (Inl (refuse ''NotFound''), c)
      | Some (body, t) \<Rightarrow>
          (Inr \<lparr>ho_ETag = Some t, ho_ContentLength = Some (int (length body)), ho_LastModified = Some 0\<rparr>, c))"

definition bucket_put :: "string \<Rightarrow> string \<Rightarrow> PutObjectInput \<Rightarrow> (Bucket, string option) call" where
  "bucket_put b k pin c =
     (if snd (pi_Body pin) \<noteq> None \<or>
         (case pi_ContentLength pin of None \<Rightarrow> False | Some n \<Rightarrow> n \<noteq> int (length (fst (pi_Body pin))))
      then (Inl (refuse ''IncompleteBody''), c)
      else if \<not> conditions_hold (pi_IfMatch pin) (pi_IfNoneMatch pin) (bk_objects c b k)
      then (Inl (refuse ''PreconditionFailed''), c)
      else bucket_store b k (fst (pi_Body pin)) c)"

definition bucket_create :: "string \<Rightarrow> string \<Rightarrow> Encryption \<Rightarrow> (Bucket, string option) call" where
  "bucket_create b k en c =
     (Inr (Some (dec (bk_next c))),
      c\<lparr>bk_uploads := (bk_uploads c)(Some (dec (bk_next c)) := (\<lambda>n. None)), bk_next := Suc (bk_next c)\<rparr>)"

definition bucket_part ::
  "string \<Rightarrow> string \<Rightarrow> string option \<Rightarrow> nat \<Rightarrow> bytes \<Rightarrow> (Bucket, string option \<times> string option) call"
where
  "bucket_part b k uid n body c =
     (Inr (Some (bucket_tag c), None),
      c\<lparr>bk_uploads := (bk_uploads c)(uid := (bk_uploads c uid)(n \<mapsto> (body, bucket_tag c))),
        bk_next := Suc (bk_next c)\<rparr>)"

fun gather :: "(nat \<rightharpoonup> bytes \<times> string) \<Rightarrow> CompletedPart list \<Rightarrow> bytes option" where
  "gather up [] = Some []"
| "gather up (p # ps) =
     (case (up (cp_PartNumber p), gather up ps) of
        (Some (body, t), Some suffix) \<Rightarrow> if cp_ETag p = Some t then Some (body @ suffix) else None
      | _ \<Rightarrow> None)"

definition bucket_complete ::
  "string \<Rightarrow> string \<Rightarrow> string option \<Rightarrow> CompletedPart list \<Rightarrow> string option \<Rightarrow> string option \<Rightarrow>
     (Bucket, string option) call"
where
  "bucket_complete b k uid parts im inm c =
     (case gather (bk_uploads c uid) parts of
        None \<Rightarrow> (Inl (refuse ''InvalidPart''), c)
      | Some body \<Rightarrow>
         (if \<not> conditions_hold im inm (bk_objects c b k) then (Inl (refuse ''PreconditionFailed''), c)
          else bucket_store b k body c))"

definition bucket_delete :: "string \<Rightarrow> string \<Rightarrow> string option \<Rightarrow> (Bucket, unit) call" where
  "bucket_delete b k im c =
     (case bk_objects c b k of
        None \<Rightarrow> (Inr (), c)
      | Some (body, t) \<Rightarrow>
         (if im \<noteq> None \<and> im \<noteq> Some t then (Inl (refuse ''PreconditionFailed''), c)
          else (Inr (), c\<lparr>bk_objects := removed (bk_objects c) b k\<rparr>)))"

definition bucketAPI :: "Bucket s3API" where
  "bucketAPI =
     \<lparr>api_GetObject = bucket_get, api_HeadObject = bucket_head, api_PutObject = bucket_put,
      api_CreateMultipartUpload = bucket_create, api_UploadPart = bucket_part,
      api_CompleteMultipartUpload = bucket_complete, api_AbortMultipartUpload = (\<lambda>b k uid c. (Inr (), c)),
      api_DeleteObject = bucket_delete,
      api_ListObjectsV2 = (\<lambda>b p tok c.
        (Inr \<lparr>lo_Contents = [], lo_IsTruncated = None, lo_NextContinuationToken = None\<rparr>, c)),
      api_Now = (\<lambda>c. 0)\<rparr>"

lemma gather_assembled: "assembled up parts bodies \<Longrightarrow> gather up parts = Some (concat bodies)"
proof -
  have "list_all2 (\<lambda>p b. \<exists>t. cp_ETag p = Some t \<and> up (cp_PartNumber p) = Some (b, t)) parts bodies \<Longrightarrow>
      gather up parts = Some (concat bodies)"
    by (induction parts bodies rule: list_all2_induct) auto
  then show "assembled up parts bodies \<Longrightarrow> gather up parts = Some (concat bodies)" by (simp add: assembled_def)
qed

lemma refuse_foreign [simp]: "\<not> errors_Is (ae_Err (refuse code)) ErrPrecondition"
  by (simp add: refuse_def)

interpretation bucket: s3_service bucketAPI bk_objects bk_uploads
proof unfold_locales
  fix b k inm rng c r c' assume "api_GetObject bucketAPI b k inm rng c = (r, c')"
  then show "bk_objects c' = bk_objects c"
    by (auto simp: bucketAPI_def bucket_get_def split: option.splits if_splits)
next
  fix b k inm c out c' assume "api_GetObject bucketAPI b k inm None c = (Inr out, c')"
  then show "\<exists>t. go_ETag out = Some t \<and> bk_objects c b k = Some (fst (go_Body out), t)"
    by (auto simp: bucketAPI_def bucket_get_def split: option.splits if_splits)
next
  fix b k inm and c :: Bucket assume "bk_objects c b k = None"
  then show "\<exists>e c'. api_GetObject bucketAPI b k inm None c = (Inl e, c')"
    by (simp add: bucketAPI_def bucket_get_def)
next
  fix b k c r c' assume "api_HeadObject bucketAPI b k c = (r, c')"
  then show "bk_objects c' = bk_objects c"
    by (auto simp: bucketAPI_def bucket_head_def split: option.splits)
next
  fix b k c out c' assume "api_HeadObject bucketAPI b k c = (Inr out, c')"
  then show "\<exists>bs t. bk_objects c b k = Some (bs, t) \<and> ho_ETag out = Some t \<and> ho_ContentLength out = Some (int (length bs))"
    by (auto simp: bucketAPI_def bucket_head_def split: option.splits)
next
  fix b k pin c etag c' assume "api_PutObject bucketAPI b k pin c = (Inr etag, c')"
  then show "conditions_hold (pi_IfMatch pin) (pi_IfNoneMatch pin) (bk_objects c b k) \<and>
      bk_objects c' = stored (bk_objects c) b k (fst (pi_Body pin), ToString etag)"
    by (auto simp: bucketAPI_def bucket_put_def bucket_store_def ToString_def split: if_splits)
next
  fix b k pin c e c' assume "api_PutObject bucketAPI b k pin c = (Inl e, c')"
  then show "bk_objects c' = bk_objects c \<or>
      (conditions_hold (pi_IfMatch pin) (pi_IfNoneMatch pin) (bk_objects c b k) \<and>
       mapS3 e \<noteq> ErrPrecondition \<and> (\<exists>t. bk_objects c' = stored (bk_objects c) b k (fst (pi_Body pin), t)))"
    by (auto simp: bucketAPI_def bucket_put_def bucket_store_def split: if_splits)
next
  fix b k en c r c' assume "api_CreateMultipartUpload bucketAPI b k en c = (r, c')"
  then show "bk_objects c' = bk_objects c" by (auto simp: bucketAPI_def bucket_create_def)
next
  fix b k uid n body c r c' assume "api_UploadPart bucketAPI b k uid n body c = (r, c')"
  then show "bk_objects c' = bk_objects c" by (auto simp: bucketAPI_def bucket_part_def)
next
  fix b k uid n body c etag sm c' assume "api_UploadPart bucketAPI b k uid n body c = (Inr (etag, sm), c')"
  then show "\<exists>t. etag = Some t \<and> bk_uploads c' uid = (bk_uploads c uid)(n \<mapsto> (body, t))"
    by (auto simp: bucketAPI_def bucket_part_def)
next
  fix b k uid n body c e c' m assume "api_UploadPart bucketAPI b k uid n body c = (Inl e, c')" "m \<noteq> n"
  then show "bk_uploads c' uid m = bk_uploads c uid m" by (auto simp: bucketAPI_def bucket_part_def)
next
  fix b k uid parts im inm c etag c' bodies
  assume "api_CompleteMultipartUpload bucketAPI b k uid parts im inm c = (Inr etag, c')"
    "assembled (bk_uploads c uid) parts bodies"
  then show "conditions_hold im inm (bk_objects c b k) \<and>
      bk_objects c' = stored (bk_objects c) b k (concat bodies, ToString etag)"
    by (auto simp: bucketAPI_def bucket_complete_def bucket_store_def ToString_def
        dest!: gather_assembled split: if_splits)
next
  fix b k uid parts im inm c e c' bodies
  assume "api_CompleteMultipartUpload bucketAPI b k uid parts im inm c = (Inl e, c')"
    "assembled (bk_uploads c uid) parts bodies"
  then show "bk_objects c' = bk_objects c \<or>
      (conditions_hold im inm (bk_objects c b k) \<and> mapS3 e \<noteq> ErrPrecondition \<and>
       (\<exists>t. bk_objects c' = stored (bk_objects c) b k (concat bodies, t)))"
    by (auto simp: bucketAPI_def bucket_complete_def bucket_store_def dest!: gather_assembled split: if_splits)
next
  fix b k uid c r c' assume "api_AbortMultipartUpload bucketAPI b k uid c = (r, c')"
  then show "bk_objects c' = bk_objects c" by (auto simp: bucketAPI_def)
next
  fix b k im c r c' assume "api_DeleteObject bucketAPI b k im c = (r, c')"
  then show "bk_objects c' = bk_objects c \<or>
      ((\<exists>bs t. bk_objects c b k = Some (bs, t) \<and> (im \<noteq> None \<longrightarrow> im = Some t)) \<and>
       bk_objects c' = removed (bk_objects c) b k)"
    by (auto simp: bucketAPI_def bucket_delete_def split: option.splits if_splits)
next
  fix b p tok c r c' assume "api_ListObjectsV2 bucketAPI b p tok c = (r, c')"
  then show "bk_objects c' = bk_objects c" by (auto simp: bucketAPI_def)
next
  fix b k pin c e c' assume "api_PutObject bucketAPI b k pin c = (Inl e, c')"
  then show "\<not> errors_Is (ae_Err e) ErrPrecondition"
    by (auto simp: bucketAPI_def bucket_put_def bucket_store_def split: if_splits)
next
  fix b k en c e c' assume "api_CreateMultipartUpload bucketAPI b k en c = (Inl e, c')"
  then show "\<not> errors_Is (ae_Err e) ErrPrecondition" by (simp add: bucketAPI_def bucket_create_def)
next
  fix b k uid n body c e c' assume "api_UploadPart bucketAPI b k uid n body c = (Inl e, c')"
  then show "\<not> errors_Is (ae_Err e) ErrPrecondition" by (simp add: bucketAPI_def bucket_part_def)
next
  fix b k uid parts im inm c e c'
  assume "api_CompleteMultipartUpload bucketAPI b k uid parts im inm c = (Inl e, c')"
  then show "\<not> errors_Is (ae_Err e) ErrPrecondition"
    by (auto simp: bucketAPI_def bucket_complete_def bucket_store_def split: option.splits if_splits)
qed

text \<open>A store on the bucket, with parts of two bytes, which uploads in parts from two bytes on.\<close>

definition sample_s3 :: "Bucket S3" where
  "sample_s3 =
     \<lparr>s3_client = bucketAPI, s3_bucket = ''bucket'', s3_loc = \<lparr>loc_Bucket = ''bucket'', loc_Prefix = ''team/repo''\<rparr>,
      s3_cfg = Defaults\<lparr>cf_MultipartThreshold := 2, cf_PartSize := 2\<rparr>, s3_encryption = [], s3_list_fuel = 1\<rparr>"

definition empty_bucket :: Bucket where
  "empty_bucket = \<lparr>bk_objects = (\<lambda>b k. None), bk_uploads = (\<lambda>u n. None), bk_next = 0\<rparr>"

interpretation bucket_remote: s3_remote bucketAPI bk_objects bk_uploads sample_s3
  by unfold_locales (simp add: sample_s3_def)

section \<open>Content ranges\<close>

lemma Atoi_dec [simp]: "n < 2 ^ 63 \<Longrightarrow> Atoi (dec n) = Some (int n)"
proof -
  assume n: "n < 2 ^ 63"
  have "hd (dec n) \<in> set (dec n)" by simp
  then have "is_digit (hd (dec n))" using dec_digits [of n] by (auto simp: list_all_iff)
  then have "hd (dec n) \<noteq> CHR ''-''" "hd (dec n) \<noteq> CHR ''+''" by (auto simp: is_digit_def)
  then have "\<not> HasPrefix (dec n) ''-''" "\<not> HasPrefix (dec n) ''+''"
    by (cases "dec n"; simp add: HasPrefix_def)+
  moreover have "n < 2 ^ 64" using n by simp
  ultimately show ?thesis using n by (simp add: Atoi_def Let_def)
qed

lemma CutByte_first: "x \<notin> set a \<Longrightarrow> CutByte (a @ x # b) x = (a, b, True)"
proof -
  assume "x \<notin> set a"
  then have "IndexByte (a @ x # b) x = Some (length a)" by (induction a) auto
  then show ?thesis by (simp add: CutByte_def)
qed

section \<open>Properties\<close>




text \<open>Two parts whose answers arrive in the opposite order.\<close>

definition swapped_upload :: "Bucket Upload" where
  "swapped_upload =
     (let st2 = launched ''c'' (launched ''ab'' (upload_init ''abc'' empty_bucket));
          c1 = snd (bucket_part ''bucket'' ''team/repo/k'' (Some ''u'') 2 ''c'' empty_bucket);
          c2 = snd (bucket_part ''bucket'' ''team/repo/k'' (Some ''u'') 1 ''ab'' c1);
          part = (\<lambda>n c. \<lparr>cp_ETag = Some (bucket_tag c), cp_PartNumber = n, cp_ChecksumSHA256 = None\<rparr>) in
      st2\<lparr>up_reading := False, up_inflight := [], up_parts := [part 2 empty_bucket, part 1 c1], up_total := 3, up_client := c2\<rparr>)"

lemma swapped_reachable:
  "(upload_step sample_s3 ''k'' (Some ''u'') 2 2 None)\<^sup>*\<^sup>* (upload_init ''abc'' empty_bucket) swapped_upload"
proof -
  let ?step = "upload_step sample_s3 ''k'' (Some ''u'') 2 2 None"
  let ?s0 = "upload_init ''abc'' empty_bucket"
  let ?s1 = "launched ''ab'' ?s0"
  let ?s2 = "(launched ''c'' ?s1)\<lparr>up_reading := False\<rparr>"
  let ?c1 = "snd (bucket_part ''bucket'' ''team/repo/k'' (Some ''u'') 2 ''c'' empty_bucket)"
  let ?c2 = "snd (bucket_part ''bucket'' ''team/repo/k'' (Some ''u'') 1 ''ab'' ?c1)"
  let ?p = "\<lambda>n c. \<lparr>cp_ETag = Some (bucket_tag c), cp_PartNumber = n, cp_ChecksumSHA256 = None\<rparr>"
  let ?s3 = "?s2\<lparr>up_inflight := [(1, ''ab'')], up_client := ?c1, up_results := [Inr (?p 2 empty_bucket, 1)]\<rparr>"
  let ?s4 = "?s3\<lparr>up_inflight := [], up_client := ?c2, up_results := [Inr (?p 2 empty_bucket, 1), Inr (?p 1 ?c1, 2)]\<rparr>"
  let ?s5 = "collected (Inr (?p 2 empty_bucket, 1)) (?s4\<lparr>up_results := [Inr (?p 1 ?c1, 2)]\<rparr>)"
  have "?step ?s0 ?s1"
    using upload_step.launch [of 2 ?s0 2 sample_s3 "''k''" "Some ''u''" None]
    by (simp add: reads_on_def upload_init_def)
  moreover have "?step ?s1 ?s2"
    using upload_step.launch_last [of 2 ?s1 2 None sample_s3 "''k''" "Some ''u''"]
    by (simp add: reads_on_def upload_init_def launched_def)
  moreover have "?step ?s2 ?s3"
    using upload_step.respond [of ?s2 "[(1, ''ab'')]" 2 "''c''" "[]" sample_s3 "''k''" "Some ''u''" "Inr (?p 2 empty_bucket)" ?c1 2 2 None]
    by (simp add: upload_init_def launched_def uploadPart_def bindP_def callP_def sample_s3_def bucketAPI_def
        bucket_part_def s3_key_def Locator_Key_def)
  moreover have "?step ?s3 ?s4"
    using upload_step.respond [of ?s3 "[]" 1 "''ab''" "[]" sample_s3 "''k''" "Some ''u''" "Inr (?p 1 ?c1)" ?c2 2 2 None]
    by (simp add: upload_init_def launched_def uploadPart_def bindP_def callP_def sample_s3_def bucketAPI_def
        bucket_part_def s3_key_def Locator_Key_def)
  moreover have "?step ?s4 ?s5"
    using upload_step.accept [of ?s4 "Inr (?p 2 empty_bucket, 1)" "[Inr (?p 1 ?c1, 2)]" sample_s3 "''k''" "Some ''u''" 2 2 None] by simp
  moreover have "?step ?s5 swapped_upload"
    using upload_step.accept [of ?s5 "Inr (?p 1 ?c1, 2)" "[]" sample_s3 "''k''" "Some ''u''" 2 2 None]
    by (simp add: swapped_upload_def Let_def upload_init_def launched_def)
  ultimately show ?thesis by (meson converse_rtranclp_into_rtranclp rtranclp.rtrancl_refl)
qed


text \<open>
  C22: the concurrent upload comes to an end. With at least one worker and non-empty parts, no schedule
  is longer than three steps per byte and a constant, and a schedule that cannot go on has either
  uploaded everything or recorded an error, with no upload left in flight.
\<close>

theorem multipart_always_ends:
  assumes "0 < ps" and "0 < workers"
    and "(upload_step s key uid ps workers rerr ^^ n) (upload_init b c) st"
  shows "n \<le> 3 * length b + 4 \<and>
    ((\<nexists>st'. upload_step s key uid ps workers rerr st st') \<longrightarrow>
       up_inflight st = [] \<and> up_results st = [] \<and> (upload_finished st \<or> up_error st \<noteq> None))"
proof
  show "n \<le> 3 * length b + 4"
    using upload_steps_measure [OF assms(1,3)] by (simp add: upload_measure_def upload_init_def)
  show "(\<nexists>st'. upload_step s key uid ps workers rerr st st') \<longrightarrow>
       up_inflight st = [] \<and> up_results st = [] \<and> (upload_finished st \<or> up_error st \<noteq> None)"
    unfolding upload_finished_def using upload_stuck [OF assms(1,2), of s key uid rerr st] by blast
qed

theorem multipart_always_ends_witness:
  "\<exists>n. (upload_step sample_s3 ''k'' (Some ''u'') 2 2 None ^^ n) (upload_init ''abc'' empty_bucket) swapped_upload \<and> n \<le> 13"
proof -
  from swapped_reachable obtain n
    where n: "(upload_step sample_s3 ''k'' (Some ''u'') 2 2 None ^^ n) (upload_init ''abc'' empty_bucket) swapped_upload"
    by (meson rtranclp_imp_relpowp)
  from multipart_always_ends [OF _ _ n] have "n \<le> 13" by simp
  with n show ?thesis by blast
qed



text \<open>
  Content ranges are read exactly. A range that the service reports as first byte, last byte and
  size is accepted with these numbers when it is a range of an object of that size, and rejected
  otherwise.
\<close>

theorem content_range_exact:
  assumes "a < 2 ^ 63" "b < 2 ^ 63" "n < 2 ^ 63"
  shows "parseContentRange (''bytes '' @ dec a @ ''-'' @ dec b @ ''/'' @ dec n) =
    (if a \<le> b \<and> b < n then Some (int a, int b, int n) else None)"
proof -
  have "CHR ''/'' \<notin> set (dec a @ ''-'' @ dec b)" "CHR ''-'' \<notin> set (dec a)"
    by (simp_all add: dec_char_not is_digit_def)
  from CutByte_first [OF this(1), of "dec n"] CutByte_first [OF this(2), of "dec b"] show ?thesis
    using assms by (auto simp: parseContentRange_def HasPrefix_def TrimPrefix_def)
qed

theorem content_range_exact_witness:
  "parseContentRange ''bytes 5-9/10'' = Some (5, 9, 10) \<and> parseContentRange ''bytes 5-10/10'' = None"
proof -
  have d: "dec 5 = ''5''" "dec 9 = ''9''" "dec 10 = ''10''" by code_simp+
  from content_range_exact [of 5 9 10] content_range_exact [of 5 10 10] show ?thesis unfolding d by simp
qed

section \<open>Range reads from the bucket\<close>

lemma range_header_parses:
  assumes "0 \<le> lo" "lo \<le> hi" "hi < n" "n < 2 ^ 63"
  shows "parseContentRange (range_header lo hi n) = Some (lo, hi, n)"
proof -
  have "nat lo < 2 ^ 63" "nat hi < 2 ^ 63" "nat n < 2 ^ 63" "nat lo \<le> nat hi" "nat hi < nat n"
    using assms by (simp_all add: nat_less_iff)
  from content_range_exact [OF this(1-3)] this(4,5) assms show ?thesis by (simp add: range_header_def)
qed

interpretation bucket_ranges: s3_ranges bucketAPI bk_objects bk_uploads sample_s3
proof unfold_locales
  fix b k rng out lo hi n and c c' :: Bucket
  assume get: "api_GetObject bucketAPI b k None (Some rng) c = (Inr out, c')"
    and range0: "parseContentRange (ToString (go_ContentRange out)) = Some (lo, hi, n)"
  from get obtain body t lo' hi' where o: "bk_objects c b k = Some (body, t)" "bucket_range rng = Some (lo', hi')"
    "0 \<le> lo'" "lo' \<le> hi'" "hi' < int (length body)" "length body < 2 ^ 63"
    "go_Body out = (take (nat (hi' - lo' + 1)) (drop (nat lo') body), None)"
    "go_ContentRange out = Some (range_header lo' hi' (int (length body)))"
    by (auto simp: bucketAPI_def bucket_get_def split: option.splits if_splits)
  have "int (length body) < 2 ^ 63" using o(6) by simp
  from range_header_parses [OF o(3-5) this] range0 o(8) have "lo = lo'" "hi = hi'" "n = int (length body)"
    by (simp_all add: ToString_def)
  with o show "\<exists>body t. bk_objects c b k = Some (body, t) \<and> n = int (length body) \<and>
      (snd (go_Body out) = None \<longrightarrow> fst (go_Body out) = take (nat (hi - lo + 1)) (drop (nat lo) body))" by simp
qed

end
