(* ===== verification/Git3_LfsProps.thy ===== *)
theory Git3_LfsProps
  imports Git3_Lfs
begin

text \<open>
  Properties of the Git LFS agent: what an upload and a download that are reported as complete have
  established, and one reply for every transfer request. Stores whose range reads return the bytes
  of the object are the locale \<open>ranged_store\<close>.
\<close>

section \<open>Uploads\<close>

lemma storeObjects_simps [simp]:
  "obs_Head (storeObjects S) = st_Head S" "obs_OpenRange (storeObjects S) = st_OpenRange S"
  "obs_Put (storeObjects S) = st_Put S"
  by (simp_all add: storeObjects_def)

context ranged_store
begin

lemma copyRange_ok:
  assumes "lfs_copyRange (storeObjects S) k lo hi tot s = ((bs, None), s')" "0 \<le> lo" "lo \<le> hi"
  shows "view s' = view s \<and> (\<exists>b t. view s k = Some (b, t) \<and> int (length b) = tot \<and>
    bs = take (nat (hi - lo + 1)) (drop (nat lo) b))"
proof -
  from assms(1) obtain part where part: "st_OpenRange S k lo hi s = (Inr part, s')" "rg_TotalSize part = tot"
    and copy: "copyLimited (rg_Body part) (hi - lo + 2) = (bs, None)" "int (length bs) = hi - lo + 1"
    by (auto simp: lfs_copyRange_def Let_def failIf_def add.commute
        split: sum.splits prod.splits if_splits option.splits)
  from copy assms(3) have "bs = fst (rg_Body part)" "snd (rg_Body part) = None"
    by (auto simp: copyLimited_def split: if_splits)
  with range_exact [OF part(1) assms(2,3)] part(2) range_view [OF part(1)] show ?thesis by auto
qed

lemma hashRanges_ok:
  assumes "0 < chunk"
  shows "\<forall>s bs s'. 0 \<le> a \<longrightarrow> hashRanges (storeObjects S) k sz (spans chunk sz a) s = (Inr bs, s') \<longrightarrow>
    view s' = view s \<and> (a < sz \<longrightarrow> (\<exists>b t. view s k = Some (b, t) \<and> int (length b) = sz \<and> bs = drop (nat a) b)) \<and>
    (\<not> a < sz \<longrightarrow> bs = [])"
proof (rule spans_induct [where chunk = chunk and sz = sz and a = a and P = "\<lambda>a xs. \<forall>s bs s'. 0 \<le> a \<longrightarrow>
    hashRanges (storeObjects S) k sz xs s = (Inr bs, s') \<longrightarrow>
    view s' = view s \<and> (a < sz \<longrightarrow> (\<exists>b t. view s k = Some (b, t) \<and> int (length b) = sz \<and> bs = drop (nat a) b)) \<and>
    (\<not> a < sz \<longrightarrow> bs = [])"])
  show "0 < chunk" by (rule assms)
next
  fix a b xs
  assume ab: "a \<le> b" "b < sz"
    and IH: "\<forall>s bs s'. 0 \<le> b + 1 \<longrightarrow> hashRanges (storeObjects S) k sz xs s = (Inr bs, s') \<longrightarrow>
      view s' = view s \<and> (b + 1 < sz \<longrightarrow> (\<exists>b' t. view s k = Some (b', t) \<and> int (length b') = sz \<and> bs = drop (nat (b + 1)) b')) \<and>
      (\<not> b + 1 < sz \<longrightarrow> bs = [])"
  show "\<forall>s bs s'. 0 \<le> a \<longrightarrow> hashRanges (storeObjects S) k sz ((a, b) # xs) s = (Inr bs, s') \<longrightarrow>
      view s' = view s \<and> (a < sz \<longrightarrow> (\<exists>b t. view s k = Some (b, t) \<and> int (length b) = sz \<and> bs = drop (nat a) b)) \<and>
      (\<not> a < sz \<longrightarrow> bs = [])"
  proof (intro allI impI)
    fix s bs s'
    assume "0 \<le> a" and run: "hashRanges (storeObjects S) k sz ((a, b) # xs) s = (Inr bs, s')"
    then obtain cs s1 ds where c: "lfs_copyRange (storeObjects S) k a b sz s = ((cs, None), s1)"
      and r: "hashRanges (storeObjects S) k sz xs s1 = (Inr ds, s')" "bs = cs @ ds"
      by (auto simp: bindP_Inr_iff split: prod.splits option.splits)
    from copyRange_ok [OF c \<open>0 \<le> a\<close> ab(1)] obtain body t where body: "view s1 = view s" "view s k = Some (body, t)"
      "int (length body) = sz" "cs = take (nat (b - a + 1)) (drop (nat a) body)" by blast
    from IH r(1) \<open>0 \<le> a\<close> ab have rest: "view s' = view s1"
      "b + 1 < sz \<longrightarrow> (\<exists>b' t. view s1 k = Some (b', t) \<and> int (length b') = sz \<and> ds = drop (nat (b + 1)) b')"
      "\<not> b + 1 < sz \<longrightarrow> ds = []" by auto
    have "ds = drop (nat (b + 1)) body" using rest(2,3) body by (cases "b + 1 < sz") auto
    moreover have "nat (b + 1) = nat (b - a + 1) + nat a" using \<open>0 \<le> a\<close> ab by simp
    ultimately have "cs @ ds = drop (nat a) body" using body(4) by (metis append_take_drop_id drop_drop)
    with body rest(1) r(2) ab show "view s' = view s \<and>
        (a < sz \<longrightarrow> (\<exists>b t. view s k = Some (b, t) \<and> int (length b) = sz \<and> bs = drop (nat a) b)) \<and> (\<not> a < sz \<longrightarrow> bs = [])"
      by auto
  qed
qed auto

lemma verifyRemote_ok:
  assumes "verifyRemote H (storeObjects S) k sz oid chunk s = (Inr u, s')" "0 < chunk" "0 < sz"
  shows "view s' = view s \<and> (\<exists>b t. view s k = Some (b, t) \<and> int (length b) = sz \<and> EncodeToString (H b) = oid)"
proof -
  from assms(1) obtain b where "hashRanges (storeObjects S) k sz (spans chunk sz 0) s = (Inr b, s')"
    "EncodeToString (H b) = oid"
    by (auto simp: verifyRemote_def bindP_Inr_iff checkP_Inr_iff)
  with hashRanges_ok [OF assms(2), of 0 k sz] assms(3) show ?thesis by fastforce
qed

text \<open>An upload that is reported as done, when the file reads the same every time.\<close>

lemma uploadRemote_ok:
  assumes "uploadRemote Fs H (storeObjects S) chunk req sz (s, g) = (Inr u, (s', g'))"
    and "0 < chunk" "0 < sz" and "\<And>g. fst (fs_Read Fs (rq_Path req) g) = (file, None)"
    and "int (length file) = sz" "EncodeToString (H file) = rq_OID req"
  shows "(\<exists>b t. view s' (objectKey (rq_OID req)) = Some (b, t) \<and> int (length b) = sz \<and> EncodeToString (H b) = rq_OID req) \<and>
    (\<forall>k. k \<noteq> objectKey (rq_OID req) \<longrightarrow> view s' k = view s k) \<and>
    (\<forall>v. view s (objectKey (rq_OID req)) = Some v \<longrightarrow> view s' (objectKey (rq_OID req)) = Some v)"
proof -
  let ?k = "objectKey (rq_OID req)" and ?ob = "storeObjects S"
  let ?o = "\<lparr>po_IfMatch = [], po_IfNoneMatch = True, po_ContentSHA256 = rq_OID req\<rparr>"
  have verify: "view s2 = view s1 \<and> (\<exists>b t. view s1 ?k = Some (b, t) \<and> int (length b) = sz \<and> EncodeToString (H b) = rq_OID req)"
    if "verifyRemote H ?ob ?k sz (rq_OID req) chunk s1 = (Inr u1, s2)" for s1 s2 u1
    using verifyRemote_ok [OF that assms(2,3)] .
  obtain h s1 where h: "st_Head S ?k s = (h, s1)" by (cases "st_Head S ?k s")
  note v1 = head_view [OF h]
  show ?thesis
  proof (cases h)
    case (Inr md)
    obtain y s2 where vr: "verifyRemote H ?ob ?k sz (rq_OID req) chunk s1 = (y, s2)"
      by (cases "verifyRemote H ?ob ?k sz (rq_OID req) chunk s1")
    from assms(1) h Inr have "y = Inr u" "s2 = s'"
      by (auto simp: uploadRemote_def Let_def tryP_def onStore_def vr checkP_Inr_iff)
    with verify [OF vr [unfolded this]] v1 show ?thesis by simp
  next
    case (Inl he)
    obtain g1 where sk: "fs_SeekStart Fs (rq_Path req) g = (Inr (), g1)" and nf: "errors_Is he ErrNotFound"
      using assms(1) h Inl
      by (auto simp: uploadRemote_def Let_def tryP_def onStore_run bindP_Inr_iff onLocal_iff split: if_splits)
    obtain g2 where rd: "fs_Read Fs (rq_Path req) g1 = ((file, None), g2)"
      using assms(4) [of g1] by (cases "fs_Read Fs (rq_Path req) g1") auto
    obtain p s2 where p: "st_Put S ?k (file, None) sz ?o s1 = (p, s2)" by (cases "st_Put S ?k (file, None) sz ?o s1")
    show ?thesis
    proof (cases p)
      case (Inr m)
      with assms(1) h Inl sk rd p nf have "s' = s2"
        by (simp add: uploadRemote_def Let_def tryP_def onStore_run bindP_def onLocal_def)
      with put_ok [OF p [unfolded Inr]] v1 assms(5,6) show ?thesis by (auto simp: put_allowed_def)
    next
      case (Inl pe)
      obtain y s3 where vr: "verifyRemote H ?ob ?k sz (rq_OID req) chunk s2 = (y, s3)"
        by (cases "verifyRemote H ?ob ?k sz (rq_OID req) chunk s2")
      from assms(1) h \<open>h = Inl he\<close> sk rd p nf Inl have "errors_Is pe ErrPrecondition" "y = Inr u" "s3 = s'"
        by (auto simp: uploadRemote_def Let_def tryP_def onStore_def bindP_def onLocal_def vr split: if_splits)
      with verify [OF vr [unfolded this(2,3)]] put_precondition [OF p [unfolded Inl]] v1 show ?thesis by auto
    qed
  qed
qed

lemma upload_ok:
  assumes "upload Fs H (storeObjects S) chunk req (s, g) = (Inr u, (s', g'))"
    and "0 < chunk" "rq_Size req = Some sz" "0 < sz"
    and "\<And>g. fst (fs_Read Fs (rq_Path req) g) = (file, None)"
  shows "(\<exists>b t. view s' (objectKey (rq_OID req)) = Some (b, t) \<and> int (length b) = sz \<and> EncodeToString (H b) = rq_OID req) \<and>
    (\<forall>k. k \<noteq> objectKey (rq_OID req) \<longrightarrow> view s' k = view s k) \<and>
    (\<forall>v. view s (objectKey (rq_OID req)) = Some v \<longrightarrow> view s' (objectKey (rq_OID req)) = Some v)"
proof -
  from assms(1) have v: "validateTransfer req True = Inr sz" using assms(3)
    by (auto simp: upload_def bindP_Inr_iff validateTransfer_def split: if_splits)
  from assms(1) v obtain g2 n d w2 where dg: "lfs_fileDigest Fs H (rq_Path req) g2 = (Inr (n, d), w2)" "n = sz" "d = rq_OID req"
    and up: "\<exists>u2 s2 g3. uploadRemote Fs H (storeObjects S) chunk req sz (s, w2) = (Inr u2, (s2, g3)) \<and> s2 = s'"
    by (auto simp: upload_def bindP_Inr_iff onLocal_iff finallyP_iff checkP_Inr_iff)
  from dg(1) obtain v0 g3 where sk: "fs_SeekStart Fs (rq_Path req) g2 = (Inr v0, g3)"
    and dg3: "(case fs_Read Fs (rq_Path req) g3 of ((b, Some e), g') \<Rightarrow> (Inl e, g')
      | ((b, None), g') \<Rightarrow> (Inr (int (length b), EncodeToString (H b)), g')) = (Inr (n, d), w2)"
    by (auto simp: lfs_fileDigest_def bindP_Inr_iff)
  obtain g4 where rd: "fs_Read Fs (rq_Path req) g3 = ((file, None), g4)"
    using assms(5) [of g3] by (cases "fs_Read Fs (rq_Path req) g3") auto
  from dg3 rd have n: "n = int (length file)" "d = EncodeToString (H file)" by simp_all
  with n dg have "int (length file) = sz" "EncodeToString (H file) = rq_OID req" by simp_all
  with up uploadRemote_ok [OF _ assms(2,4,5)] show ?thesis by blast
qed

end

section \<open>Downloads\<close>

lemma copyRange_length:
  "lfs_copyRange ob k lo hi tot s = ((bs, None), s') \<Longrightarrow> int (length bs) = hi - lo + 1"
  by (auto simp: lfs_copyRange_def Let_def failIf_def split: sum.splits prod.splits if_splits option.splits)

text \<open>The progress responses of a download that fetches all its ranges.\<close>

fun progressOf :: "string \<Rightarrow> int \<Rightarrow> (int \<times> int) list \<Rightarrow> response list" where
  "progressOf oid c [] = []"
| "progressOf oid c ((a, b) # xs) =
     lfs_progress oid (c + (b - a + 1)) (b - a + 1) # progressOf oid (c + (b - a + 1)) xs"

lemma downloadSpans_progress:
  "downloadSpans Fs ob oid k sz path c xs w = ((None, out), w') \<Longrightarrow> out = progressOf oid c xs"
proof (induction xs arbitrary: c w out w')
  case (Cons x xs)
  obtain a b where x: "x = (a, b)" by (cases x)
  obtain s g where w: "w = (s, g)" by (cases w)
  obtain bs err s1 where cp: "lfs_copyRange ob k a b sz s = ((bs, err), s1)"
    by (metis surj_pair)
  obtain u g1 where wr: "fs_WriteAt Fs path a bs g = (u, g1)" by (metis surj_pair)
  obtain e o2 w2 where dl: "downloadSpans Fs ob oid k sz path (c + int (length bs)) xs (s1, g1) = ((e, o2), w2)"
    by (metis surj_pair)
  from Cons.prems x w cp wr dl have ok: "err = None" "e = None" "out = lfs_progress oid (c + int (length bs)) (int (length bs)) # o2"
    by (auto simp: Let_def split: sum.splits option.splits)
  from copyRange_length [OF cp [unfolded ok(1)]] Cons.IH [OF dl [unfolded ok(2)]] ok(3) x show ?case by simp
qed simp

lemma progressOf_sum:
  assumes "0 < chunk"
  shows "a \<le> sz \<longrightarrow> (\<forall>c. sum_list (map rp_BytesSinceLast (progressOf oid c (spans chunk sz a))) = sz - a)"
  by (rule spans_induct [of chunk sz "\<lambda>a xs. a \<le> sz \<longrightarrow> (\<forall>c. sum_list (map rp_BytesSinceLast (progressOf oid c xs)) = sz - a)"])
    (auto simp: assms lfs_progress_def)

lemma downloadRanges_sum:
  assumes "downloadRanges Fs ob chunk oid k sz path w = ((None, out), w')" "0 < chunk" "0 \<le> sz"
  shows "sum_list (map rp_BytesSinceLast out) = sz"
proof (cases "sz = 0")
  case False
  with assms(1) have "downloadSpans Fs ob oid k sz path 0 (spans chunk sz 0) w = ((None, out), w')"
    by (simp add: downloadRanges_def)
  from downloadSpans_progress [OF this] progressOf_sum [OF assms(2), of 0 sz oid] assms(3) show ?thesis by simp
qed (use assms(1) in \<open>simp add: downloadRanges_def\<close>)

lemma verifyFile_ok:
  assumes "verifyFile Fs H path sz oid g = (Inr u, g')"
  shows "\<exists>b g1 g2. fs_Read Fs path g1 = ((b, None), g2) \<and> int (length b) = sz \<and>
    EncodeToString (H b) = oid \<and> g' = snd (fs_Close Fs path g2)"
proof -
  from assms obtain g0 g1 g2 n d r where fd: "lfs_fileDigest Fs H path g0 = (Inr (n, d), g2)"
    and cl: "fs_Close Fs path g2 = (r, g')" and nd: "n = sz" "d = oid"
    by (auto simp: verifyFile_def bindP_Inr_iff finallyP_iff checkP_Inr_iff)
  from fd obtain v g1 where sk: "fs_SeekStart Fs path g0 = (Inr v, g1)"
    and rd: "(case fs_Read Fs path g1 of ((b, Some e), g') \<Rightarrow> (Inl e, g')
      | ((b, None), g') \<Rightarrow> (Inr (int (length b), EncodeToString (H b)), g')) = (Inr (n, d), g2)"
    by (auto simp: lfs_fileDigest_def bindP_Inr_iff)
  obtain b e g3 where "fs_Read Fs path g1 = ((b, e), g3)" by (metis surj_pair)
  with rd have "fs_Read Fs path g1 = ((b, None), g2)" "n = int (length b)" "d = EncodeToString (H b)"
    by (auto split: option.splits)
  with nd cl show ?thesis by (intro exI [of _ b] exI [of _ g1] exI [of _ g2]) simp
qed

lemma downloadInto_ok:
  assumes "downloadInto Fs H ob chunk oid k sz path w = ((Inr u, out), w')" "0 < chunk" "0 \<le> sz"
  shows "sum_list (map rp_BytesSinceLast out) = sz \<and> (\<exists>b g1 g2. fs_Read Fs path g1 = ((b, None), g2) \<and>
    int (length b) = sz \<and> EncodeToString (H b) = oid \<and> snd w' = snd (fs_Close Fs path g2))"
proof -
  obtain t w1 where tr: "onLocal (fs_Truncate Fs path sz) w = (t, w1)" by (metis surj_pair)
  obtain e o2 w2 where dr: "downloadRanges Fs ob chunk oid k sz path w1 = ((e, o2), w2)" by (metis surj_pair)
  obtain r w3 where vf: "bindP (onLocal (fs_Sync Fs path)) (\<lambda>_. bindP (onLocal (fs_Close Fs path)) (\<lambda>_.
      onLocal (verifyFile Fs H path sz oid))) w2 = (r, w3)" by (metis surj_pair)
  from assms(1) tr dr vf have ok: "e = None" "o2 = out" "r = Inr u" "w3 = w'"
    by (auto simp: downloadInto_def split: sum.splits option.splits)
  from vf ok(3,4) obtain g where "verifyFile Fs H path sz oid g = (Inr u, snd w')"
    by (auto simp: bindP_Inr_iff onLocal_def split: prod.splits)
  from verifyFile_ok [OF this] downloadRanges_sum [OF dr [unfolded ok(1)] assms(2,3)] ok(2) show ?thesis by simp
qed

section \<open>What a reported transfer has established\<close>


text \<open>
  C25: a download that reports success has read the whole temporary file back from the disk, and what
  it read has the declared size and the digest of the OID; afterwards the file is only closed. The
  progress responses add up to the size of the object.
\<close>

theorem lfs_download_verified:
  assumes "download Fs H dir ob (chunkSize bd) req w = ((Inr path, out), w')"
  shows "\<exists>n b g1 g2. rq_Size req = Some n \<and> fs_Read Fs path g1 = ((b, None), g2) \<and> int (length b) = n \<and>
    EncodeToString (H b) = rq_OID req \<and>
    snd w' = snd (fs_Close Fs path (snd (fs_Close Fs path g2))) \<and>
    sum_list (map rp_BytesSinceLast out) = n"
proof -
  let ?start = "bindP (liftP (validateTransfer req False)) (\<lambda>sz.
       bindP (onStore (obs_Head ob (objectKey (rq_OID req)))) (\<lambda>md.
       checkP (failIf (md_Size md \<noteq> sz) (Errorf ''remote LFS object size mismatch'' []))
       (bindP (onLocal (fs_CreateTemp Fs dir ''git3-lfs-download-*'')) (\<lambda>path. returnP (path, sz)))))"
  obtain r w1 where st: "?start w = (r, w1)" by (rule prod.exhaust)
  show ?thesis
  proof (cases r)
    case (Inr ps)
    obtain p sz where ps: "ps = (p, sz)" by (cases ps)
    obtain d o2 w2 where di: "downloadInto Fs H ob (chunkSize bd) (rq_OID req) (objectKey (rq_OID req)) sz p w1 = ((d, o2), w2)"
      by (metis surj_pair)
    note run = assms [unfolded download_def Let_def st Inr ps sum.case prod.case di]
    from run obtain u where ok: "d = Inr u" "p = path" "o2 = out" "w' = snd (onLocal (fs_Close Fs path) w2)"
      by (cases d) auto
    from st [unfolded Inr ps] have "validateTransfer req False = Inr sz"
      by (simp only: bindP_Inr_iff) (clarsimp simp: bindP_Inr_iff liftP_def returnP_def checkP_Inr_iff)
    then have sz: "rq_Size req = Some sz" "0 \<le> sz"
      by (auto simp: validateTransfer_def split: if_splits option.splits)
    have "0 < chunkSize bd" by (simp add: chunkSize_def defaultChunkSize_def)
    from downloadInto_ok [OF di [unfolded ok(1)] this sz(2)] ok obtain b g1 g2 where
      "fs_Read Fs path g1 = ((b, None), g2)" "int (length b) = sz" "EncodeToString (H b) = rq_OID req"
      "snd w2 = snd (fs_Close Fs path g2)" "sum_list (map rp_BytesSinceLast out) = sz" by auto
    with sz ok(4) show ?thesis
      by (intro exI [of _ sz] exI [of _ b] exI [of _ g1] exI [of _ g2])
        (simp add: onLocal_def split: prod.splits)
  next
    case (Inl e)
    from assms [unfolded download_def Let_def st Inl sum.case prod.case] show ?thesis by simp
  qed
qed

section \<open>Concrete transfers\<close>

text \<open>Files that always read the same bytes, and a digest that is the same for all bytes.\<close>

definition constFiles :: "bytes \<Rightarrow> unit Files" where
  "constFiles b =
     \<lparr>fs_Open = \<lambda>_. returnP (), fs_Stat = \<lambda>_. returnP (True, False, int (length b)), fs_SeekStart = \<lambda>_. returnP (),
      fs_Read = \<lambda>_ g. ((b, None), g), fs_CreateTemp = \<lambda>d _. returnP (d @ ''/x''), fs_Truncate = \<lambda>_ _. returnP (),
      fs_WriteAt = \<lambda>_ _ _. returnP (), fs_Sync = \<lambda>_. returnP (), fs_Close = \<lambda>_. returnP (),
      fs_Remove = \<lambda>_. returnP (), fs_Abs = returnP\<rparr>"

definition zeroSum :: "bytes \<Rightarrow> bytes" where "zeroSum _ = replicate 32 (char_of (0 :: nat))"

definition abcRequest :: "string \<Rightarrow> request" where
  "abcRequest ev = \<lparr>rq_Event = ev, rq_Operation = [], rq_Remote = [], rq_OID = replicate 64 (CHR ''0''),
     rq_Size = Some 3, rq_Path = ''/f''\<rparr>"

definition abcStore :: Memory where
  "abcStore = snd (Memory_Put zeroSum (objectKey (replicate 64 (CHR ''0''))) (''abc'', None) 3
     \<lparr>po_IfMatch = [], po_IfNoneMatch = True, po_ContentSHA256 = replicate 64 (CHR ''0'')\<rparr> (NewMemory 0))"


theorem lfs_download_verified_witness:
  "\<exists>out w'. download (constFiles ''abc'') zeroSum ''/t'' (storeObjects (MemoryStore zeroSum))
      (chunkSize (\<lparr>bd_Store = None, bd_DownloadChunkSize = 2, bd_DownloadConcurrency = 1\<rparr> :: Memory Backend))
      (abcRequest ''download'') (abcStore, ()) = ((Inr ''/t/x'', out), w') \<and>
    map rp_BytesSinceLast out = [2, 1] \<and> sum_list (map rp_BytesSinceLast out) = 3"
proof -
  let ?bd = "\<lparr>bd_Store = None, bd_DownloadChunkSize = 2, bd_DownloadConcurrency = 1\<rparr> :: Memory Backend"
  let ?r = "download (constFiles ''abc'') zeroSum ''/t'' (storeObjects (MemoryStore zeroSum)) (chunkSize ?bd)
      (abcRequest ''download'') (abcStore, ())"
  have ok: "fst (fst ?r) = Inr ''/t/x'' \<and> map rp_BytesSinceLast (snd (fst ?r)) = [2, 1]" by code_simp
  obtain out w' where run: "?r = ((Inr ''/t/x'', out), w')" using ok by (metis fst_conv surj_pair)
  have "rq_Size (abcRequest ''download'') = Some 3" by (simp add: abcRequest_def)
  with lfs_download_verified [OF run] have "sum_list (map rp_BytesSinceLast out) = 3" by auto
  with ok run show ?thesis by (intro exI [of _ out] exI [of _ w']) simp
qed

section \<open>One reply for every request\<close>

lemma downloadSpans_events:
  "list_all (\<lambda>r. rp_Event r = ''progress'') (snd (fst (downloadSpans Fs ob oid k sz path c xs w)))"
proof (induction xs arbitrary: c w)
  case (Cons x xs)
  then show ?case
    by (cases x; cases w) (simp add: Let_def lfs_progress_def split: prod.splits sum.splits option.splits, metis fst_conv snd_conv)
qed simp

lemma download_events:
  "list_all (\<lambda>r. rp_Event r = ''progress'') (snd (fst (download Fs H dir ob chunk req w)))"
proof -
  have into: "list_all (\<lambda>r. rp_Event r = ''progress'') (snd (fst (downloadInto Fs H ob chunk oid k sz p w1)))" for oid k sz p w1
    using downloadSpans_events [of Fs ob oid k sz p 0 "spans chunk sz 0"]
    by (auto simp: downloadInto_def downloadRanges_def split: prod.splits sum.splits option.splits if_splits)
      (metis fst_conv snd_conv)+
  have step: "list_all P (snd (fst (case x of (Inl e, w1) \<Rightarrow> ((Inl e, []), w1)
      | (Inr ps, w1) \<Rightarrow> (case ps of (p, sz) \<Rightarrow> (case D p sz w1 of
          ((Inr _, out), w2) \<Rightarrow> ((Inr p, out), F p w2) | ((Inl e, out), w2) \<Rightarrow> ((Inl e, out), G p w2))))))"
    if "\<And>p sz w1. list_all P (snd (fst (D p sz w1)))" for P x D F G
    by (cases x) (use that in \<open>auto split: prod.splits sum.splits\<close>, (metis fst_conv snd_conv)+)
  show ?thesis unfolding download_def Let_def by (rule step) (rule into)
qed

definition answered :: "response list \<Rightarrow> string list" where
  "answered out = map rp_OID (filter (\<lambda>r. rp_Event r = ''complete'') out)"

lemma answered_append [simp]: "answered (xs @ ys) = answered xs @ answered ys"
  by (simp add: answered_def)

lemma answered_progress:
  "list_all (\<lambda>r. rp_Event r = ''progress'') out \<Longrightarrow> answered out = []"
  by (induction out) (auto simp: answered_def)

lemma answered_complete [simp]: "answered (lfs_complete oid r # out) = oid # answered out"
  by (simp add: answered_def lfs_complete_def noResponse_def split: sum.split)

lemma transfer_answered: "answered (snd (fst (transfer Fs H dir op0 ob chunk req w))) = []"
  using answered_progress [OF download_events [of Fs H dir ob chunk req w]]
  by (simp add: transfer_def answered_def split: prod.splits sum.splits)

text \<open>
  C26: an LFS session replies to every transfer request with exactly one \<open>complete\<close> response, in the order
  of the requests, whether the transfer fails or not, and ends without an error at the terminate message;
  nothing after that message is read.
\<close>

theorem lfs_one_reply:
  assumes "list_all2 (\<lambda>l r. decodeRequest decode l = Inr r \<and> rq_Event r = op0) ls rs"
    and "op0 \<noteq> ''terminate''" and "decodeRequest decode t = Inr tr" and "rq_Event tr = ''terminate''"
  shows "\<exists>out w'. serve decode Fs H dir op0 ob chunk scErr (ls @ t # unread) w = ((None, out), w') \<and>
    answered out = map rq_OID rs"
  using assms(1)
proof (induction ls rs arbitrary: w rule: list_all2_induct)
  case Nil
  then show ?case using assms(3,4) by (simp add: answered_def)
next
  case (Cons l ls r rs)
  obtain res out1 w1 where tr: "transfer Fs H dir op0 ob chunk r w = ((res, out1), w1)" by (metis surj_pair)
  from Cons(3) [of w1] obtain out2 w2 where
    rest: "serve decode Fs H dir op0 ob chunk scErr (ls @ t # unread) w1 = ((None, out2), w2)" "answered out2 = map rq_OID rs"
    by auto
  have "answered out1 = []" using transfer_answered [of Fs H dir op0 ob chunk r w] tr by simp
  then show ?case using Cons(1) assms(2) tr rest by simp
qed

theorem lfs_one_reply_witness:
  "\<exists>out w'. serve (\<lambda>l. Inr (abcRequest l)) (constFiles ''abd'') zeroSum ''/t'' ''upload''
      (storeObjects (MemoryStore zeroSum)) 2 None ([''upload'', ''upload''] @ ''terminate'' # [''junk''])
      (NewMemory 0, ()) = ((None, out), w') \<and>
    answered out = [replicate 64 (CHR ''0''), replicate 64 (CHR ''0'')]"
proof -
  have "decodeRequest (\<lambda>l. Inr (abcRequest l)) ''upload'' = Inr (abcRequest ''upload'')"
    "decodeRequest (\<lambda>l. Inr (abcRequest l)) ''terminate'' = Inr (abcRequest ''terminate'')"
    by (simp_all add: decodeRequest_def)
  then show ?thesis
    using lfs_one_reply [of "\<lambda>l. Inr (abcRequest l)" "''upload''" "[''upload'', ''upload'']"
        "[abcRequest ''upload'', abcRequest ''upload'']" "''terminate''" "abcRequest ''terminate''"
        "constFiles ''abd''" zeroSum "''/t''" "storeObjects (MemoryStore zeroSum)" 2 None "[''junk'']" "(NewMemory 0, ())"]
    by (simp add: abcRequest_def)
qed

end
