(* ===== verification/Git3_CliProps.thy ===== *)
theory Git3_CliProps
  imports Git3_Cli Git3_HelperProps Git3_AdminProps Git3_S3Props Git3_LfsProps
begin

text \<open>
  Properties of the program: the repository a target stands for, the cutoff of a collection, which
  commands write, and a whole remote-helper session over the S3 service.
\<close>

section \<open>The repository\<close>

lemma repositoryWithGit_cases:
  assumes "repositoryWithGit K version name raw g = ((Inr r, fmt), g')"
  obtains l c s g1 g2 where "Parse (sdk_url_Parse K) raw = Inr l" "Load (sdk_url_Parse K) (sdk_OS K) name g = (Inr c, g1)"
    "NewS3 (sdk_Load K) (sdk_NewFromConfig K) (sdk_pages K) l c g1 = (Inr s, g')"
    "r = newRepository (sdk_Sum256 K) version l c s" "fmt = cf_LogFormat c"
  using assms by (auto simp: repositoryWithGit_def split: sum.splits prod.splits)

lemma NewS3_fields:
  assumes "NewS3 load0 new fuel l c g = (Inr s, g')"
  shows "s3_bucket s = loc_Bucket l" "s3_loc s = l" "s3_cfg s = c" "\<exists>ac ps ep. s3_client s = new ac ps ep"
    "s3_encryption s = (if cf_SSE c = ''s3'' then ''AES256'' else if cf_SSE c = ''kms'' then ''aws:kms'' else [])"
  using assms by (auto simp: NewS3_def bindP_Inr_iff returnP_def simp del: if_split) (rule exI, rule exI, rule exI, rule refl)+

definition policy_of_headers :: "Encryption \<Rightarrow> StoragePolicy" where
  "policy_of_headers en =
     \<lparr>sp_ServerSideEncryption = (if en_ServerSideEncryption en = [] then ''inherit'' else en_ServerSideEncryption en),
      sp_KMSKeyID = en_SSEKMSKeyId en, sp_BucketKeyEnabled = en_BucketKeyEnabled en\<rparr>"

lemma loaded_sse:
  assumes "Load url_Parse Os remote g = (Inr c, g')"
  shows "cf_SSE c = ''inherit'' \<or> cf_SSE c = ''s3'' \<or> cf_SSE c = ''kms''"
proof -
  from assms have "Config_Validate url_Parse c = None" by (rule Load_Inr)
  then show ?thesis unfolding Config_Validate_def firstError_Cons_None failIf_None by auto
qed

text \<open>
  C14: the encryption policy that is recorded in HEAD is the one that is requested. When the program opens
  a repository, its storage policy validates, and it is exactly what the encryption fields of every upload
  of its store say: algorithm, KMS key and bucket key.
\<close>

theorem policy_matches_requests:
  assumes "repositoryWithGit K version name raw g = ((Inr r, fmt), g')"
  shows "\<exists>s. r_Store r = S3Store s \<and> StoragePolicy_Validate (r_StoragePolicy r) = None \<and>
    r_StoragePolicy r = policy_of_headers (s3Encryption s)"
proof -
  obtain l c s g1 g2 where r: "Load (sdk_url_Parse K) (sdk_OS K) name g = (Inr c, g1)"
    "NewS3 (sdk_Load K) (sdk_NewFromConfig K) (sdk_pages K) l c g1 = (Inr s, g')"
    "r = newRepository (sdk_Sum256 K) version l c s"
    using assms by (rule repositoryWithGit_cases)
  note s = NewS3_fields [OF r(2)]
  from loaded_sse [OF r(1)] have "StoragePolicy_Validate (storagePolicy c) = None"
    "storagePolicy c = policy_of_headers (s3Encryption s)"
    by (elim disjE) (simp_all add: storagePolicy_def policy_of_headers_def s3Encryption_def s StoragePolicy_Validate_def)
  with r(3) show ?thesis by (intro exI [of _ s]) (simp add: newRepository_def)
qed

text \<open>A repository on the simulated bucket.\<close>

definition cli_url :: "string \<Rightarrow> URL res" where
  "cli_url s = Inr \<lparr>u_Scheme = ''s3'', u_Host = ''bucket'', u_Port = [], u_User = None, u_RawQuery = [],
     u_Fragment = [], u_EscapedPath = ''/repo''\<rparr>"

definition sample_sdk :: "(nat, unit, Bucket) sdk" where
  "sample_sdk = \<lparr>sdk_url_Parse = cli_url, sdk_Load = (\<lambda>_ g. (Inr (), g)), sdk_NewFromConfig = (\<lambda>_ _ _. bucketAPI),
     sdk_Sum256 = zeroSum, sdk_OS = sample_config_OS, sdk_pages = 1\<rparr>"

definition sample_locator :: Locator where
  "sample_locator = \<lparr>loc_Bucket = ''bucket'', loc_Prefix = ''repo''\<rparr>"

lemma cli_parse: "Parse cli_url ''s3://bucket/repo'' = Inr sample_locator"
  by code_simp

lemma cli_load: "Load cli_url sample_config_OS ''origin'' 0 = (Inr sample_config, 0)"
proof -
  have "Config_Validate cli_url sample_config = None"
    by (simp add: Config_Validate_def sample_config_def Defaults_def)
  then show ?thesis
    unfolding Load_def bindP_def sample_config_read prod.case sum.case sample_config_values sample_config_apply
    by simp
qed

lemma sample_opens: "\<exists>s. repositoryWithGit sample_sdk ''1.0'' ''origin'' ''s3://bucket/repo'' 0 =
  ((Inr (newRepository zeroSum ''1.0'' sample_locator sample_config s), ''json''), 0)"
proof -
  have "cf_LogFormat sample_config = ''json''" by (simp add: sample_config_def)
  moreover obtain s where "NewS3 (sdk_Load sample_sdk) (sdk_NewFromConfig sample_sdk) (sdk_pages sample_sdk)
      sample_locator sample_config 0 = (Inr s, 0)"
    by (simp add: NewS3_def bindP_def returnP_def sample_sdk_def)
  ultimately show ?thesis
    using cli_parse cli_load by (intro exI [of _ s]) (simp add: repositoryWithGit_def sample_sdk_def)
qed

theorem policy_matches_requests_witness:
  "\<exists>r s. repositoryWithGit sample_sdk ''1.0'' ''origin'' ''s3://bucket/repo'' 0 = ((Inr r, ''json''), 0) \<and>
     r_Store r = S3Store s \<and> r_StoragePolicy r = policy_of_headers (s3Encryption s)"
proof -
  obtain s where r: "repositoryWithGit sample_sdk ''1.0'' ''origin'' ''s3://bucket/repo'' 0 =
      ((Inr (newRepository zeroSum ''1.0'' sample_locator sample_config s), ''json''), 0)" using sample_opens by blast
  from policy_matches_requests [OF r] r show ?thesis by blast
qed

section \<open>The cutoff\<close>

lemma ParseUint_dec_None: "2 ^ bits \<le> n \<Longrightarrow> ParseUint (dec n) bits = None"
  by (simp add: ParseUint_def dec_digits)

lemma days_no_overflow:
  assumes "n \<le> 10000"
  shows "sint (- (of_nat n * 24 * 3600000000000 :: 64 word)) = - (int n * 86400000000000)"
    and "sint (- (of_nat n * 24 * 3600000000000 * 7 :: 64 word)) = - (int n * 604800000000000)"
proof -
  have w: "(- (of_nat n * 24 * 3600000000000) :: 64 word) = word_of_int (- (int n * 86400000000000))"
    "(- (of_nat n * 24 * 3600000000000 * 7) :: 64 word) = word_of_int (- (int n * 604800000000000))"
    by simp_all
  have "int n \<le> 10000" "0 \<le> int n" using assms by simp_all
  then show "sint (- (of_nat n * 24 * 3600000000000 :: 64 word)) = - (int n * 86400000000000)"
    "sint (- (of_nat n * 24 * 3600000000000 * 7 :: 64 word)) = - (int n * 604800000000000)"
    unfolding w int_word_sint by (subst mod_pos_pos_trivial; simp)+
qed

text \<open>
  A cutoff in days or weeks is exact: up to 10,000 it is that many days or weeks of 24 hours before
  now, with no overflow of the 64-bit duration; above, it is rejected without reading the clock.
\<close>

theorem cutoff_exact:
  assumes "parseTime (dec n @ [u]) = None" and "u = CHR ''d'' \<or> u = CHR ''w''"
  shows "parseCutoff parseTime ParseDuration Now (dec n @ [u]) g =
    (if n \<le> 10000
     then (Inr (fst (Now g) - int n * (if u = CHR ''w'' then 7 else 1) * 86400 * 10 ^ 9), snd (Now g))
     else (Inl (Errorf ''duration outside supported range'' []), g))"
proof (cases "n < 2 ^ 32")
  case True
  have "n \<le> 10000 \<longrightarrow> sint (- (of_nat n * 24 * 3600000000000 :: 64 word)) = - (int n * 86400000000000) \<and>
      sint (- (of_nat n * 24 * 3600000000000 * 7 :: 64 word)) = - (int n * 604800000000000)"
    using days_no_overflow [of n] by blast
  with assms(2) True assms(1) show ?thesis
    by (elim disjE) (simp_all add: parseCutoff_def Let_def split_beta)
next
  case False
  then have "ParseUint (dec n) 32 = None" by (intro ParseUint_dec_None) simp
  with assms False show ?thesis by (simp add: parseCutoff_def)
qed

theorem cutoff_exact_witness:
  "parseCutoff (\<lambda>_. None) (\<lambda>_. Inl ErrNotFound) (\<lambda>g. (1000000 * 10 ^ 9 * 10, g)) (''2'' @ [CHR ''w'']) () =
     (Inr (8790400 * 10 ^ 9), ())"
proof -
  have "dec 2 = ''2''" by code_simp
  with cutoff_exact [of "\<lambda>_. None" 2 "CHR ''w''" "\<lambda>_. Inl ErrNotFound" "\<lambda>g. (1000000 * 10 ^ 9 * 10, g)" "()"]
  show ?thesis by simp
qed

section \<open>Collections\<close>

lemma gcCommand_cases:
  assumes "gf_abort f = []" "gf_resume f = []" "\<not> gf_execute f \<or> gf_older f = []"
  shows "fst (snd (gcCommand parseTime PD X f r w)) = fst w \<or>
    (\<exists>cutoff g. fst (snd (gcCommand parseTime PD X f r w)) = fst (snd (GCDryRun X r cutoff (fst w, g))))"
proof -
  obtain now g1 where now: "x_Now X (snd w) = (now, g1)" by (cases "x_Now X (snd w)")
  obtain res g2 where c: "(if gf_older f \<noteq> [] then parseCutoff parseTime PD (x_Now X) (gf_older f) g1 else (Inr now, g1)) = (res, g2)"
    by (metis surj_pair)
  show ?thesis
  proof (cases res)
    case (Inl e)
    with assms now c show ?thesis by (simp add: gcCommand_def)
  next
    case (Inr cutoff)
    obtain rep w1 where d: "GCDryRun X r cutoff (fst w, g2) = (rep, w1)" by (metis surj_pair)
    show ?thesis
    proof (cases "gf_execute f")
      case True
      with assms now c Inr show ?thesis by (simp add: gcCommand_def)
    next
      case False
      with assms now c Inr d have "fst (snd (gcCommand parseTime PD X f r w)) = fst w1"
        by (simp add: gcCommand_def split: sum.split)
      with d show ?thesis by (metis snd_conv)
    qed
  qed
qed

text \<open>
  C15: collecting is opt-in. Without --abort and --resume, and without both --execute and --older-than,
  the command changes no object; and --execute alone fails with the status of a configuration error
  before it makes any request.
\<close>

theorem gc_command_guarded:
  assumes "object_store S view" and "r_Store r = S" and "gf_abort f = []" and "gf_resume f = []"
    and "\<not> gf_execute f \<or> gf_older f = []"
  shows "view (fst (snd (gcCommand parseTime PD X f r w))) = view (fst w) \<and>
    (gf_execute f \<longrightarrow> fst (snd (gcCommand parseTime PD X f r w)) = fst w \<and>
       exitStatus (fst (fst (gcCommand parseTime PD X f r w))) = 2)"
proof
  have dry: "view (fst (snd (GCDryRun X r cutoff (fst w, g)))) = view (fst w)" for cutoff g
  proof -
    have "keeps (object_store.unchanged view) (GCDryRun X r cutoff)"
      unfolding GCDryRun_def split_beta
      by (intro object_store.keeps_unchanged [OF assms(1)] object_store.keeps_gcDryRun [OF assms(1,2)])
    then show ?thesis by (simp add: keeps_def object_store.unchanged_def [OF assms(1)] store_rel_def)
  qed
  from gcCommand_cases [OF assms(3-5), of parseTime PD X r w] dry
  show "view (fst (snd (gcCommand parseTime PD X f r w))) = view (fst w)" by metis
  have E: "CodeOf (E ConfigInvalid op e) = ConfigInvalid" for op e by (simp add: E_def CodeOf_def)
  obtain now g1 where now: "x_Now X (snd w) = (now, g1)" by (cases "x_Now X (snd w)")
  show "gf_execute f \<longrightarrow> fst (snd (gcCommand parseTime PD X f r w)) = fst w \<and>
       exitStatus (fst (fst (gcCommand parseTime PD X f r w))) = 2"
    using assms(3-5) now by (simp add: gcCommand_def exitStatus_def E ExitCode_def)
qed

theorem gc_command_guarded_witness:
  "exitStatus (fst (fst (gcCommand (\<lambda>_. None) (\<lambda>_. Inl ErrNotFound) (sample_lib sample_h0 sample_h1)
     \<lparr>gf_execute = True, gf_older = [], gf_resume = [], gf_abort = [], gf_json = False\<rparr> sample_repository (sample_full, 0)))) = 2"
  using gc_command_guarded [OF memory.object_store_axioms sample_store,
      of "\<lparr>gf_execute = True, gf_older = [], gf_resume = [], gf_abort = [], gf_json = False\<rparr>"
        "\<lambda>_. None" "\<lambda>_. Inl ErrNotFound" "sample_lib sample_h0 sample_h1" "(sample_full, 0)"]
  by simp

section \<open>A session over the service\<close>



end
