(* ===== verification/Git3_Progress.thy ===== *)
theory Git3_Progress
  imports Git3_Helper
begin

text \<open>
  Progress on the terminal (\<^verbatim>\<open>src/internal/helper/progress.go\<close>). The writer behind it is the text
  written so far, and writing does not fail; the clock is an argument, in nanoseconds, and does not
  run backwards. A \<^verbatim>\<open>float64\<close> is a fraction whose denominator is a power of two: \<open>f64\<close> rounds
  a fraction to 53 bits, ties to even, as every division, multiplication and conversion here does.
  The exponents that occur are far inside the range of a double, so no operation overflows.
\<close>

section \<open>Floating point\<close>

type_synonym fraction = "nat \<times> nat"

text \<open>The nearest integer to a fraction, the even one of two.\<close>

definition round_even :: "nat \<Rightarrow> nat \<Rightarrow> nat" where
  "round_even p q =
     (let n = p div q; r = p mod q in if 2 * r > q \<or> 2 * r = q \<and> odd n then n + 1 else n)"

text \<open>The power of two that brings a fraction into the range from \<open>2 ^ 52\<close> to \<open>2 ^ 53\<close>.\<close>

fun bits :: "nat \<Rightarrow> nat" where
  "bits n = (if n = 0 then 0 else Suc (bits (n div 2)))"

declare bits.simps [simp del]

definition scale_by :: "fraction \<Rightarrow> int \<Rightarrow> fraction" where
  "scale_by x s = (if s \<ge> 0 then (fst x * 2 ^ nat s, snd x) else (fst x, snd x * 2 ^ nat (- s)))"

definition mantissa_shift :: "fraction \<Rightarrow> int" where
  "mantissa_shift x =
     (let s = 53 + int (bits (snd x)) - int (bits (fst x)); y = scale_by x s in
      if fst y \<ge> 2 ^ 53 * snd y then s - 1 else s)"

definition f64 :: "fraction \<Rightarrow> fraction" where
  "f64 x =
     (if fst x = 0 then (0, 1)
      else (let s = mantissa_shift x; y = scale_by x s in scale_by (round_even (fst y) (snd y), 1) (- s)))"

definition f_div :: "fraction \<Rightarrow> fraction \<Rightarrow> fraction" where
  "f_div x y = f64 (fst x * snd y, snd x * fst y)"

definition f_mul :: "fraction \<Rightarrow> fraction \<Rightarrow> fraction" where
  "f_mul x y = f64 (fst x * fst y, snd x * snd y)"

definition f_add :: "fraction \<Rightarrow> fraction \<Rightarrow> fraction" where
  "f_add x y = f64 (fst x * snd y + fst y * snd x, snd x * snd y)"

definition f_of :: "nat \<Rightarrow> fraction" where "f_of n = f64 (n, 1)"

definition f_le :: "fraction \<Rightarrow> fraction \<Rightarrow> bool" where
  "f_le x y \<longleftrightarrow> fst x * snd y \<le> fst y * snd x"

definition f_trunc :: "fraction \<Rightarrow> nat" where "f_trunc x = fst x div snd x"

text \<open>\<^verbatim>\<open>%.1f\<close>.\<close>

definition f_fixed1 :: "fraction \<Rightarrow> string" where
  "f_fixed1 x = (let n = round_even (10 * fst x) (snd x) in dec (n div 10) @ ''.'' @ dec (n mod 10))"

section \<open>Text\<close>

fun scaleUnit :: "nat \<Rightarrow> fraction \<Rightarrow> nat \<Rightarrow> fraction \<times> nat" where
  "scaleUnit 0 x i = (x, i)"
| "scaleUnit (Suc n) x i = (if f_le (1024, 1) x then scaleUnit n (f_div x (1024, 1)) (Suc i) else (x, i))"

definition unitNames :: "string list" where "unitNames = [''KiB'', ''MiB'', ''GiB'', ''TiB'']"

text \<open>The index starts at minus one and the loop stops at the last unit: four rounds at most.\<close>

definition formatBytes :: "nat \<Rightarrow> string" where
  "formatBytes v =
     (if v < 1024 then dec v @ '' B''
      else (case scaleUnit 4 (f_of v) 0 of (x, i) \<Rightarrow> f_fixed1 x @ '' '' @ unitNames ! (i - 1)))"

definition percentOf :: "nat \<Rightarrow> nat \<Rightarrow> nat" where
  "percentOf current tot = min 100 (f_trunc (f_mul (f_div (f_of current) (f_of tot)) (100, 1)))"

text \<open>\<^verbatim>\<open>Duration.Seconds\<close>.\<close>

definition Seconds :: "nat \<Rightarrow> fraction" where
  "Seconds d = f_add (f_of (d div 10 ^ 9)) (f_div (f_of (d mod 10 ^ 9)) (f_of (10 ^ 9)))"

definition rateText :: "nat \<Rightarrow> nat \<Rightarrow> string" where
  "rateText current d =
     (let elapsed = Seconds d in
      if f_le (f64 (1, 100)) elapsed
      then '', '' @ formatBytes (f_trunc (f_div (f_of current) elapsed)) @ ''/s'' else [])"

definition pad3 :: "nat \<Rightarrow> string" where "pad3 n = replicate (3 - length (dec n)) (CHR '' '') @ dec n"

text \<open>
  The percentage is cut off after the product is rounded, so it can fall one below the exact value:
  29 of 100 is shown as 28%.
\<close>

lemmas float_defs = f64_def mantissa_shift_def scale_by_def round_even_def f_div_def f_mul_def f_add_def
  f_of_def f_trunc_def f_le_def Let_def

lemma percent_of_29: "percentOf 29 100 = 28" "percentOf 50 100 = 50" "percentOf 100 100 = 100"
  by (simp_all add: percentOf_def float_defs bits.simps)

section \<open>The terminal\<close>

record terminalProgress =
  tp_out :: string
  tp_phase :: string
  tp_started :: time
  tp_last :: "time option"
  tp_lineOpen :: bool
  tp_native :: bool

definition newTerminal :: terminalProgress where
  "newTerminal = \<lparr>tp_out = [], tp_phase = [], tp_started = 0, tp_last = None, tp_lineOpen = False, tp_native = False\<rparr>"

definition emit :: "string \<Rightarrow> terminalProgress \<Rightarrow> terminalProgress" where
  "emit t p = p\<lparr>tp_out := tp_out p @ t\<rparr>"

definition progressRefreshInterval :: time where "progressRefreshInterval = 100000000"

definition tp_Write :: "bytes \<Rightarrow> terminalProgress \<Rightarrow> terminalProgress" where
  "tp_Write b p =
     (let p1 = (if tp_lineOpen p \<and> \<not> tp_native p then (emit [NL] p)\<lparr>tp_lineOpen := False\<rparr> else p);
          p2 = emit b p1 in
      if b \<noteq> [] then p2\<lparr>tp_lineOpen := last b \<noteq> NL, tp_native := last b \<noteq> NL\<rparr> else p2)"

text \<open>The line of an event with a total.\<close>

definition progressLine :: "ProgressEvent \<Rightarrow> nat \<Rightarrow> string" where
  "progressLine ev d =
     (let tot = unat (pe_Total ev); current = min (unat (pe_Current ev)) tot;
          show_amount = (if pe_Unit ev = ProgressUnitBytes then formatBytes else dec) in
      pe_Phase ev @ '': '' @ pad3 (percentOf current tot) @ ''% ('' @ show_amount current @ ''/'' @ show_amount tot @ '')'' @
      (if pe_Unit ev = ProgressUnitBytes \<and> current > 0 then rateText current d else []))"

definition tp_Update :: "ProgressEvent \<Rightarrow> time \<Rightarrow> terminalProgress \<Rightarrow> terminalProgress" where
  "tp_Update ev now p =
     (if pe_Phase ev = [] then p
      else
       (let p1 = (if tp_lineOpen p \<and> tp_native p then (emit [NL] p)\<lparr>tp_lineOpen := False, tp_native := False\<rparr> else p);
            p2 = (if pe_Phase ev \<noteq> tp_phase p1
                  then (if tp_lineOpen p1 then emit [NL] p1 else p1)
                         \<lparr>tp_phase := pe_Phase ev, tp_started := now, tp_last := None, tp_lineOpen := False, tp_native := False\<rparr>
                  else p1) in
        if \<not> pe_Done ev \<and> pe_Current ev < pe_Total ev \<and>
           (case tp_last p2 of None \<Rightarrow> False | Some l \<Rightarrow> now - l < progressRefreshInterval)
        then p2
        else if pe_Total ev = 0 then
          (emit (pe_Phase ev @ (if pe_Done ev then '': done.'' @ [NL] else ''...'' @ [CR])) p2)
            \<lparr>tp_lineOpen := \<not> pe_Done ev, tp_native := False, tp_last := Some now\<rparr>
        else
          (emit (progressLine ev (nat (now - tp_started p2)) @ (if pe_Done ev then '', done.'' @ [NL] else [CR])) p2)
            \<lparr>tp_lineOpen := \<not> pe_Done ev, tp_native := False, tp_last := Some now\<rparr>))"

section \<open>Clean lines\<close>

datatype tp_call = Native bytes | Progress ProgressEvent time

fun tp_do :: "tp_call \<Rightarrow> terminalProgress \<Rightarrow> terminalProgress" where
  "tp_do (Native b) p = tp_Write b p"
| "tp_do (Progress ev now) p = tp_Update ev now p"

definition at_line_start :: "string \<Rightarrow> bool" where
  "at_line_start s \<longleftrightarrow> s = [] \<or> last s = NL"

lemma at_line_start_simps [simp]: "at_line_start []" "at_line_start (s @ [NL])" "at_line_start (s @ t @ [NL])"
  by (simp_all add: at_line_start_def)

lemma CR_NL [simp]: "CR \<noteq> NL" "NL \<noteq> CR"
  by (simp_all add: NL_def)

text \<open>
  What the flags mean: the line is open exactly when the text does not end a line, native text is
  on an open line, and an open line of its own ends with a carriage return.
\<close>

definition tp_ok :: "terminalProgress \<Rightarrow> bool" where
  "tp_ok p \<longleftrightarrow> (tp_lineOpen p \<longleftrightarrow> \<not> at_line_start (tp_out p)) \<and> (tp_native p \<longrightarrow> tp_lineOpen p) \<and>
     (tp_lineOpen p \<and> \<not> tp_native p \<longrightarrow> last (tp_out p) = CR)"

lemma tp_ok_new: "tp_ok newTerminal"
  by (simp add: tp_ok_def newTerminal_def)

lemma tp_ok_Write: "tp_ok p \<Longrightarrow> tp_ok (tp_Write b p)"
  by (auto simp: tp_ok_def tp_Write_def emit_def Let_def at_line_start_def)

text \<open>The three stages of an update: closing a native line, changing the phase, printing.\<close>

definition tp_close :: "terminalProgress \<Rightarrow> terminalProgress" where
  "tp_close p = (if tp_lineOpen p \<and> tp_native p then (emit [NL] p)\<lparr>tp_lineOpen := False, tp_native := False\<rparr> else p)"

definition tp_enter :: "string \<Rightarrow> time \<Rightarrow> terminalProgress \<Rightarrow> terminalProgress" where
  "tp_enter phase now p =
     (if phase \<noteq> tp_phase p
      then (if tp_lineOpen p then emit [NL] p else p)
             \<lparr>tp_phase := phase, tp_started := now, tp_last := None, tp_lineOpen := False, tp_native := False\<rparr>
      else p)"

definition tp_text :: "ProgressEvent \<Rightarrow> time \<Rightarrow> terminalProgress \<Rightarrow> string" where
  "tp_text ev now p =
     (if pe_Total ev = 0 then pe_Phase ev @ (if pe_Done ev then '': done.'' else ''...'')
      else progressLine ev (nat (now - tp_started p)) @ (if pe_Done ev then '', done.'' else [])) @
     [if pe_Done ev then NL else CR]"

definition tp_print :: "ProgressEvent \<Rightarrow> time \<Rightarrow> terminalProgress \<Rightarrow> terminalProgress" where
  "tp_print ev now p =
     (if \<not> pe_Done ev \<and> pe_Current ev < pe_Total ev \<and>
         (case tp_last p of None \<Rightarrow> False | Some l \<Rightarrow> now - l < progressRefreshInterval)
      then p
      else (emit (tp_text ev now p) p)\<lparr>tp_lineOpen := \<not> pe_Done ev, tp_native := False, tp_last := Some now\<rparr>)"

lemma tp_Update_stages:
  "tp_Update ev now p =
     (if pe_Phase ev = [] then p else tp_print ev now (tp_enter (pe_Phase ev) now (tp_close p)))"
  by (simp add: tp_Update_def tp_print_def tp_enter_def tp_close_def tp_text_def Let_def)

lemma tp_close_ok:
  assumes "tp_ok p"
  shows "tp_ok (tp_close p) \<and> \<not> tp_native (tp_close p) \<and> tp_phase (tp_close p) = tp_phase p \<and>
    (\<exists>sep \<in> {[], [NL]}. tp_out (tp_close p) = tp_out p @ sep)"
  using assms by (auto simp: tp_close_def tp_ok_def emit_def)

lemma tp_enter_ok:
  assumes "tp_ok p" "\<not> tp_native p"
  shows "tp_ok (tp_enter phase now p) \<and> \<not> tp_native (tp_enter phase now p) \<and>
    (tp_lineOpen (tp_enter phase now p) \<longrightarrow> tp_phase p = phase) \<and>
    (\<exists>sep \<in> {[], [NL]}. tp_out (tp_enter phase now p) = tp_out p @ sep \<and> (sep \<noteq> [] \<longrightarrow> tp_lineOpen p))"
  using assms by (auto simp: tp_enter_def tp_ok_def emit_def)

lemma tp_print_ok:
  assumes "tp_ok p" "\<not> tp_native p"
  shows "tp_ok (tp_print ev now p) \<and> (\<exists>t. tp_out (tp_print ev now p) = tp_out p @ t \<and> (t \<noteq> [] \<longrightarrow> t = tp_text ev now p))"
  using assms by (auto simp: tp_print_def tp_ok_def emit_def tp_text_def at_line_start_def)

lemma tp_Update_ok:
  assumes "tp_ok p"
  shows "tp_ok (tp_Update ev now p)"
    and "\<exists>sep t. tp_out (tp_Update ev now p) = tp_out p @ sep @ t \<and> sep \<in> {[], [NL]} \<and>
      (t = [] \<or> (at_line_start (tp_out p @ sep) \<or> sep = [] \<and> last (tp_out p) = CR \<and> tp_phase p = pe_Phase ev) \<and>
        take (length (pe_Phase ev)) t = pe_Phase ev \<and> last t = (if pe_Done ev then NL else CR))"
proof -
  let ?c = "tp_close p" and ?e = "tp_enter (pe_Phase ev) now (tp_close p)"
  from tp_close_ok [OF assms] obtain s1 where c: "tp_ok ?c" "\<not> tp_native ?c" "tp_phase ?c = tp_phase p"
    "s1 \<in> {[], [NL]}" "tp_out ?c = tp_out p @ s1" by blast
  from tp_enter_ok [OF c(1,2), of "pe_Phase ev" now] obtain s2 where e: "tp_ok ?e" "\<not> tp_native ?e"
    "tp_lineOpen ?e \<longrightarrow> tp_phase p = pe_Phase ev" "s2 \<in> {[], [NL]}" "tp_out ?e = tp_out p @ s1 @ s2"
    "s2 \<noteq> [] \<longrightarrow> tp_lineOpen ?c" using c(3,5) by auto
  from tp_print_ok [OF e(1,2), of ev now] obtain t where t: "tp_ok (tp_print ev now ?e)"
    "tp_out (tp_print ev now ?e) = tp_out ?e @ t" "t \<noteq> [] \<longrightarrow> t = tp_text ev now ?e" by blast
  show "tp_ok (tp_Update ev now p)" using t(1) assms by (simp add: tp_Update_stages)
  have sep: "s1 @ s2 \<in> {[], [NL]}"
    using c(1,4,5) e(4,6) by (auto simp: tp_ok_def)
  have start: "at_line_start (tp_out p @ s1 @ s2) \<or> s1 @ s2 = [] \<and> last (tp_out p) = CR \<and> tp_phase p = pe_Phase ev"
  proof (cases "tp_lineOpen ?e")
    case True
    with e(1,2,3) have "last (tp_out ?e) = CR" "tp_phase p = pe_Phase ev" by (auto simp: tp_ok_def)
    moreover from this(1) e(5) sep have "s1 @ s2 = []" by auto
    ultimately show ?thesis using e(5) by simp
  qed (use e(1,5) in \<open>simp add: tp_ok_def\<close>)
  have text_ok: "take (length (pe_Phase ev)) (tp_text ev now ?e) = pe_Phase ev"
    "last (tp_text ev now ?e) = (if pe_Done ev then NL else CR)"
    by (simp_all add: tp_text_def progressLine_def Let_def)
  show "\<exists>sep t. tp_out (tp_Update ev now p) = tp_out p @ sep @ t \<and> sep \<in> {[], [NL]} \<and>
      (t = [] \<or> (at_line_start (tp_out p @ sep) \<or> sep = [] \<and> last (tp_out p) = CR \<and> tp_phase p = pe_Phase ev) \<and>
        take (length (pe_Phase ev)) t = pe_Phase ev \<and> last t = (if pe_Done ev then NL else CR))"
  proof (cases "pe_Phase ev = []")
    case False
    with t(2) e(5) have "tp_out (tp_Update ev now p) = tp_out p @ (s1 @ s2) @ t" by (simp add: tp_Update_stages)
    with sep start text_ok t(3) show ?thesis
      by (intro exI [of _ "s1 @ s2"] exI [of _ t]) auto
  qed (auto simp: tp_Update_stages)
qed

lemma tp_run_ok: "tp_ok p \<Longrightarrow> tp_ok (fold tp_do calls p)"
proof (induction calls arbitrary: p)
  case (Cons c calls)
  then show ?case by (cases c) (simp_all add: tp_ok_Write tp_Update_ok)
qed simp



end
