(* ===== verification/Git3_HeadJson.thy ===== *)
theory Git3_HeadJson
  imports Git3_Sample
begin

text \<open>
  HEAD as JSON (\<^verbatim>\<open>src/internal/model/head_json.go\<close>): the two methods that keep the top-level fields a
  client does not know. From the JSON library they take: reading an object as a map from names to raw
  values, writing such a map, and the reading and writing of the struct without methods. All four
  are arguments.
\<close>

definition knownFields :: "string list" where
  "knownFields = [''formatVersion'', ''requiredFeatures'', ''repositoryId'', ''objectFormat'', ''logicalGeneration'',
     ''transactionId'', ''manifestRevision'', ''publicationId'', ''headSymref'', ''storagePolicy'', ''refSnapshot'',
     ''packset'', ''log'', ''gcBarrier'']"

definition Head_UnmarshalJSON ::
  "(bytes \<Rightarrow> Head res) \<Rightarrow> (bytes \<Rightarrow> (string, bytes) fmap res) \<Rightarrow> bytes \<Rightarrow> Head res"
where
  "Head_UnmarshalJSON readAlias readFields b =
     (case readAlias b of
        Inl e \<Rightarrow> Inl e
      | Inr a \<Rightarrow>
         (case readFields b of
            Inl e \<Rightarrow> Inl e
          | Inr raw \<Rightarrow> Inr (a\<lparr>h_Extra := fold fmdrop knownFields raw\<rparr>)))"

definition Head_MarshalJSON ::
  "(Head \<Rightarrow> bytes res) \<Rightarrow> (bytes \<Rightarrow> (string, bytes) fmap res) \<Rightarrow> ((string, bytes) fmap \<Rightarrow> bytes res) \<Rightarrow> Head \<Rightarrow> bytes res"
where
  "Head_MarshalJSON writeAlias readFields writeFields h =
     (case writeAlias (h\<lparr>h_Extra := fmempty\<rparr>) of
        Inl e \<Rightarrow> Inl e
      | Inr b \<Rightarrow>
         (case readFields b of
            Inl e \<Rightarrow> Inl e
          | Inr known \<Rightarrow> writeFields (h_Extra h ++\<^sub>f known)))"

lemma fmlookup_fold_fmdrop: "fmlookup (fold fmdrop ks m) k = (if k \<in> set ks then None else fmlookup m k)"
  by (induction ks arbitrary: m) auto



end
