(* ===== verification/Git3_Pool.thy ===== *)
theory Git3_Pool
  imports Git3_LfsProps "HOL-Library.Multiset"
begin

text \<open>
  Concurrent downloads: the worker pools of \<^verbatim>\<open>downloadVerified\<close> in \<^verbatim>\<open>src/internal/engine/engine.go\<close> and of
  \<^verbatim>\<open>downloadRanges\<close> in \<^verbatim>\<open>src/internal/lfs/agent.go\<close>. Both hand the ranges of an object to workers over an
  unbuffered channel; each worker copies its range into the file at its offset; the first failure
  cancels the rest. The pool is a step relation over the operation \<open>cp\<close> that copies one range: every
  sequence of steps is a schedule. The theories of the engine and of the agent fetch the ranges one
  after the other; here every schedule is shown to end, and to end with the same file.
\<close>

section \<open>States and steps\<close>

record 'w Pool =
  pl_todo :: "(int \<times> int) list"
  pl_idle :: nat
  pl_busy :: "(int \<times> int) list"
  pl_file :: bytes
  pl_copied :: "(int \<times> int) list"
  pl_error :: "goerr option"
  pl_world :: 'w

definition pool_init :: "nat \<Rightarrow> (int \<times> int) list \<Rightarrow> bytes \<Rightarrow> 'w \<Rightarrow> 'w Pool" where
  "pool_init workers jobs f w =
     \<lparr>pl_todo = jobs, pl_idle = workers, pl_busy = [], pl_file = f, pl_copied = [], pl_error = None, pl_world = w\<rparr>"

text \<open>Writing at an offset of a file; the file has its full size from the start.\<close>

definition write_at :: "int \<Rightarrow> bytes \<Rightarrow> bytes \<Rightarrow> bytes" where
  "write_at a bs f = take (nat a) f @ bs @ drop (nat a + length bs) f"

text \<open>
  \<open>take\<close>: an idle worker receives the next range. \<open>stop\<close>: after a failure the feeder may give up.
  \<open>copied\<close> and \<open>failed\<close>: a worker has copied its range or failed; a worker that failed leaves, and the first error
  is kept. \<open>aborted\<close>: after a failure the cancelled context may end a copy that is under way.
\<close>

inductive pool_step :: "(int \<Rightarrow> int \<Rightarrow> 'w \<Rightarrow> (bytes \<times> goerr option) \<times> 'w) \<Rightarrow> 'w Pool \<Rightarrow> 'w Pool \<Rightarrow> bool" for cp where
  take: "pl_todo st = x # xs \<Longrightarrow> 0 < pl_idle st \<Longrightarrow>
    pool_step cp st (st\<lparr>pl_todo := xs, pl_idle := pl_idle st - 1, pl_busy := pl_busy st @ [x]\<rparr>)"
| stop: "pl_error st = Some e \<Longrightarrow> pl_todo st \<noteq> [] \<Longrightarrow> pool_step cp st (st\<lparr>pl_todo := []\<rparr>)"
| copied: "pl_busy st = before @ (a, b) # after \<Longrightarrow> cp a b (pl_world st) = ((bs, None), w') \<Longrightarrow>
    pool_step cp st (st\<lparr>pl_busy := before @ after, pl_world := w', pl_file := write_at a bs (pl_file st),
      pl_copied := pl_copied st @ [(a, b)], pl_idle := Suc (pl_idle st)\<rparr>)"
| failed: "pl_busy st = before @ (a, b) # after \<Longrightarrow> cp a b (pl_world st) = ((bs, Some e), w') \<Longrightarrow>
    pool_step cp st (st\<lparr>pl_busy := before @ after, pl_world := w', pl_file := write_at a bs (pl_file st),
      pl_error := (case pl_error st of None \<Rightarrow> Some e | Some e0 \<Rightarrow> Some e0)\<rparr>)"
| aborted: "pl_busy st = before @ x # after \<Longrightarrow> pl_error st = Some e \<Longrightarrow>
    pool_step cp st (st\<lparr>pl_busy := before @ after, pl_file := f\<rparr>)"

definition pool_finished :: "'w Pool \<Rightarrow> bool" where
  "pool_finished st \<longleftrightarrow> pl_todo st = [] \<and> pl_busy st = []"

section \<open>Every schedule ends\<close>

definition pool_measure :: "'w Pool \<Rightarrow> nat" where
  "pool_measure st = 2 * length (pl_todo st) + length (pl_busy st)"

lemma pool_step_measure: "pool_step cp st st' \<Longrightarrow> pool_measure st' < pool_measure st"
  by (induction rule: pool_step.induct) (auto simp: pool_measure_def)

lemma pool_steps_measure: "(pool_step cp ^^ n) st st' \<Longrightarrow> n + pool_measure st' \<le> pool_measure st"
proof (induction n arbitrary: st')
  case (Suc n)
  then obtain st1 where "(pool_step cp ^^ n) st st1" "pool_step cp st1 st'" by auto
  with Suc.IH pool_step_measure [OF this(2)] show ?case by fastforce
qed simp

text \<open>While nothing has failed, every worker is idle or busy.\<close>

definition pool_alive :: "nat \<Rightarrow> 'w Pool \<Rightarrow> bool" where
  "pool_alive workers st \<longleftrightarrow> (pl_error st = None \<longrightarrow> pl_idle st + length (pl_busy st) = workers)"

lemma pool_alive_step: "pool_step cp st st' \<Longrightarrow> pool_alive workers st \<Longrightarrow> pool_alive workers st'"
  by (induction rule: pool_step.induct) (auto simp: pool_alive_def split: option.splits)

lemma pool_progress:
  assumes "pool_alive workers st" "0 < workers" "\<not> pool_finished st"
  shows "\<exists>st'. pool_step cp st st'"
proof (cases "pl_busy st")
  case Nil
  with assms(3) obtain x xs where todo: "pl_todo st = x # xs" by (cases "pl_todo st") (auto simp: pool_finished_def)
  show ?thesis
  proof (cases "pl_error st")
    case None
    with assms(1,2) Nil have "0 < pl_idle st" by (simp add: pool_alive_def)
    with todo show ?thesis by (blast intro: pool_step.take)
  next
    case (Some e)
    with todo have "pool_step cp st (st\<lparr>pl_todo := []\<rparr>)" by (intro pool_step.stop) simp_all
    then show ?thesis by blast
  qed
next
  case (Cons x xs)
  obtain a b where x: "x = (a, b)" by (cases x)
  have busy: "pl_busy st = [] @ (a, b) # xs" using Cons x by simp
  obtain bs err w' where cp: "cp a b (pl_world st) = ((bs, err), w')" by (metis surj_pair)
  show ?thesis
  proof (cases err)
    case None
    from pool_step.copied [where st = st and before = "[]" and a = a and b = b and after = xs and cp = cp, OF busy cp [unfolded None]] show ?thesis by blast
  next
    case (Some e)
    from pool_step.failed [where st = st and before = "[]" and a = a and b = b and after = xs and cp = cp, OF busy cp [unfolded Some]] show ?thesis by blast
  qed
qed

lemma pool_alive_steps:
  assumes "(pool_step cp)\<^sup>*\<^sup>* st st'" "pool_alive workers st"
  shows "pool_alive workers st'"
  using assms by (induction rule: rtranclp_induct) (auto intro: pool_alive_step)

section \<open>Every schedule writes the same file\<close>

text \<open>
  The invariant while nothing has failed: every byte of a copied range is the byte of the object, the file
  has its size, and each range is waiting, under way or copied.
\<close>

definition pool_inv :: "('w \<Rightarrow> bool) \<Rightarrow> bytes \<Rightarrow> (int \<times> int) list \<Rightarrow> 'w Pool \<Rightarrow> bool" where
  "pool_inv ok body jobs st \<longleftrightarrow> ok (pl_world st) \<and>
     (pl_error st = None \<longrightarrow> length (pl_file st) = length body \<and>
        mset (pl_todo st) + mset (pl_busy st) + mset (pl_copied st) = mset jobs \<and>
        (\<forall>(a, b) \<in> set (pl_copied st). \<forall>i. a \<le> int i \<and> int i \<le> b \<longrightarrow> pl_file st ! i = body ! i))"

lemma nth_write_at:
  assumes "nat a + length bs \<le> length f" "i < length f"
  shows "write_at a bs f ! i = (if nat a \<le> i \<and> i < nat a + length bs then bs ! (i - nat a) else f ! i)"
  using assms by (auto simp: write_at_def nth_append min_def)

lemma length_write_at: "nat a + length bs \<le> length f \<Longrightarrow> length (write_at a bs f) = length f"
  by (simp add: write_at_def)

text \<open>
  What the operation must do: keep a property of the world, and copy the bytes of the object whenever it
  copies one of the ranges, which lie inside the object.
\<close>

definition copies :: "(int \<Rightarrow> int \<Rightarrow> 'w \<Rightarrow> (bytes \<times> goerr option) \<times> 'w) \<Rightarrow> ('w \<Rightarrow> bool) \<Rightarrow> bytes \<Rightarrow> (int \<times> int) list \<Rightarrow> bool" where
  "copies cp ok body jobs \<longleftrightarrow>
     (\<forall>a b w x w'. ok w \<longrightarrow> cp a b w = (x, w') \<longrightarrow> ok w') \<and>
     (\<forall>(a, b) \<in> set jobs. 0 \<le> a \<and> a \<le> b \<and> b < int (length body) \<and>
        (\<forall>w bs w'. ok w \<longrightarrow> cp a b w = ((bs, None), w') \<longrightarrow> bs = take (nat (b - a + 1)) (drop (nat a) body)))"

lemma copies_world: "copies cp ok body jobs \<Longrightarrow> ok w \<Longrightarrow> cp a b w = (x, w') \<Longrightarrow> ok w'"
  unfolding copies_def by blast

lemma copies_job:
  assumes "copies cp ok body jobs" "(a, b) \<in> set jobs"
  shows "0 \<le> a" "a \<le> b" "b < int (length body)"
    and "ok w \<Longrightarrow> cp a b w = ((bs, None), w') \<Longrightarrow> bs = take (nat (b - a + 1)) (drop (nat a) body)"
  using assms unfolding copies_def by blast+

lemma pool_inv_copied:
  assumes inv: "pool_inv ok body jobs st"
    and busy: "pl_busy st = before @ (a, b) # after" and run: "cp a b (pl_world st) = ((bs, None), w')"
    and cps: "copies cp ok body jobs"
  shows "pool_inv ok body jobs (st\<lparr>pl_busy := before @ after, pl_world := w', pl_file := write_at a bs (pl_file st),
      pl_copied := pl_copied st @ [(a, b)], pl_idle := Suc (pl_idle st)\<rparr>)"
proof -
  have ok: "ok (pl_world st)" using inv by (simp add: pool_inv_def)
  show ?thesis
  proof (cases "pl_error st")
    case None
    with inv have i: "length (pl_file st) = length body"
      "mset (pl_todo st) + mset (pl_busy st) + mset (pl_copied st) = mset jobs"
      "\<forall>(a, b) \<in> set (pl_copied st). \<forall>i. a \<le> int i \<and> int i \<le> b \<longrightarrow> pl_file st ! i = body ! i"
      by (simp_all add: pool_inv_def)
    have "(a, b) \<in># mset jobs" unfolding i(2) [symmetric] busy by simp
    then have job: "(a, b) \<in> set jobs" by simp
    note ab = copies_job(1-3) [OF cps job]
    have bs: "bs = take (nat (b - a + 1)) (drop (nat a) body)" by (rule copies_job(4) [OF cps job ok run])
    have len: "length bs = nat (b - a + 1)" "nat a + length bs \<le> length (pl_file st)"
      unfolding bs i(1) using ab by auto
    have new: "write_at a bs (pl_file st) ! j = (if a \<le> int j \<and> int j \<le> b then body ! j else pl_file st ! j)"
      if "j < length body" for j
    proof -
      have "nat a \<le> j \<and> j < nat a + length bs \<longleftrightarrow> a \<le> int j \<and> int j \<le> b" using ab len(1) by linarith
      moreover have "bs ! (j - nat a) = body ! j" if "a \<le> int j" "int j \<le> b"
        using that ab unfolding bs by (subst nth_take) (auto simp: nth_drop)
      ultimately show ?thesis using nth_write_at [OF len(2), of j] that i(1) by simp
    qed
    have "pl_file (st\<lparr>pl_file := write_at a bs (pl_file st)\<rparr>) ! j = body ! j"
      if "(c, d) \<in> set (pl_copied st @ [(a, b)])" "c \<le> int j" "int j \<le> d" for c d j
    proof -
      have "(c, d) \<in># mset jobs" unfolding i(2) [symmetric] busy using that(1) by auto
      then have "d < int (length body)" by (intro copies_job(3) [OF cps, of c d]) simp
      with that(3) have "j < length body" by simp
      with new [OF this] that i(3) show ?thesis by auto
    qed
    with copies_world [OF cps ok run] i(1,2) busy length_write_at [OF len(2)] ab show ?thesis
      by (auto simp: pool_inv_def)
  qed (use copies_world [OF cps ok run] in \<open>simp add: pool_inv_def\<close>)
qed

lemma pool_inv_step:
  assumes "pool_step cp st st'" "pool_inv ok body jobs st"
    and cps: "copies cp ok body jobs"
  shows "pool_inv ok body jobs st'"
  using assms(1,2)
proof (induction rule: pool_step.induct)
  case (copied st before a b after bs w')
  show ?case by (rule pool_inv_copied [OF copied(3,1,2) cps])
next
  case (failed st before a b after bs e w')
  from copies_world [OF cps _ failed(2)] failed(3) show ?case by (auto simp: pool_inv_def split: option.split)
qed (auto simp: pool_inv_def)

lemma pool_inv_steps:
  assumes "(pool_step cp)\<^sup>*\<^sup>* st st'" "pool_inv ok body jobs st"
    and "copies cp ok body jobs"
  shows "pool_inv ok body jobs st'"
  using assms(1,2)
proof (induction rule: rtranclp_induct)
  case (step y z)
  show ?case by (rule pool_inv_step [OF step(2) step.IH [OF step.prems] assms(3)])
qed

text \<open>The spans of an object, whatever the schedule: if nothing has failed in the end, the file is the object.\<close>

lemma pool_exact:
  assumes run: "(pool_step cp)\<^sup>*\<^sup>* (pool_init workers (spans chunk sz 0) f w) st" "pool_finished st" "pl_error st = None"
    and "0 < chunk" "int (length body) = sz" "length f = length body" "ok w"
    and world: "\<And>a b w x w'. ok w \<Longrightarrow> cp a b w = (x, w') \<Longrightarrow> ok w'"
    and exact: "\<And>a b w bs w'. ok w \<Longrightarrow> 0 \<le> a \<Longrightarrow> a \<le> b \<Longrightarrow> b < sz \<Longrightarrow> cp a b w = ((bs, None), w') \<Longrightarrow>
      bs = take (nat (b - a + 1)) (drop (nat a) body)"
  shows "pl_file st = body \<and> mset (pl_copied st) = mset (spans chunk sz 0) \<and> ok (pl_world st)"
proof -
  let ?jobs = "spans chunk sz 0"
  have inside: "\<forall>(a, b) \<in> set ?jobs. 0 \<le> a \<and> a \<le> b \<and> b < sz \<and> b - a < chunk" by (rule spans_bounds [OF assms(4)])
  have cps: "copies cp ok body ?jobs"
    unfolding copies_def
  proof (intro conjI allI impI)
    show "ok w'" if "ok w" "cp a b w = (x, w')" for a b w x w' using world that .
    show "\<forall>(a, b) \<in> set ?jobs. 0 \<le> a \<and> a \<le> b \<and> b < int (length body) \<and>
        (\<forall>w bs w'. ok w \<longrightarrow> cp a b w = ((bs, None), w') \<longrightarrow> bs = take (nat (b - a + 1)) (drop (nat a) body))"
    proof clarify
      fix a b assume "(a, b) \<in> set ?jobs"
      with inside have ab: "0 \<le> a" "a \<le> b" "b < sz" by auto
      then show "0 \<le> a \<and> a \<le> b \<and> b < int (length body) \<and>
        (\<forall>w bs w'. ok w \<longrightarrow> cp a b w = ((bs, None), w') \<longrightarrow> bs = take (nat (b - a + 1)) (drop (nat a) body))"
        using exact [of _ a b] assms(5) by simp
    qed
  qed
  have "pool_inv ok body ?jobs (pool_init workers ?jobs f w)"
    using assms(6,7) by (simp add: pool_inv_def pool_init_def)
  then have inv: "pool_inv ok body ?jobs st" by (rule pool_inv_steps [OF run(1) _ cps])
  with run(2,3) have i: "ok (pl_world st)" "length (pl_file st) = length body" "mset (pl_copied st) = mset ?jobs"
    "\<forall>(a, b) \<in> set (pl_copied st). \<forall>i. a \<le> int i \<and> int i \<le> b \<longrightarrow> pl_file st ! i = body ! i"
    by (simp_all add: pool_inv_def pool_finished_def)
  have "pl_file st ! j = body ! j" if "j < length body" for j
  proof -
    have "int j \<in> set [0..sz - 1]" using that assms(5) by simp
    then have "int j \<in> set (concat (map (\<lambda>(x, y). [x..y]) ?jobs))" unfolding spans_cover [OF assms(4)] .
    then obtain a b where "(a, b) \<in> set ?jobs" "a \<le> int j" "int j \<le> b" by auto
    moreover have "set (pl_copied st) = set ?jobs" using i(3) by (rule mset_eq_setD)
    ultimately have "(a, b) \<in> set (pl_copied st)" "a \<le> int j" "int j \<le> b" by simp_all
    with i(4) show ?thesis by blast
  qed
  then have "pl_file st = body" using i(2) by (intro nth_equalityI) simp_all
  with i(1,3) show ?thesis by simp
qed

section \<open>Executing a schedule\<close>

text \<open>A choice is the next range for an idle worker, or the number of the busy worker that ends its copy.\<close>

fun pool_choice :: "(int \<Rightarrow> int \<Rightarrow> 'w \<Rightarrow> (bytes \<times> goerr option) \<times> 'w) \<Rightarrow> nat option \<Rightarrow> 'w Pool \<Rightarrow> 'w Pool option" where
  "pool_choice cp None st =
     (case pl_todo st of
        [] \<Rightarrow> None
      | x # xs \<Rightarrow> (if 0 < pl_idle st
                   then Some (st\<lparr>pl_todo := xs, pl_idle := pl_idle st - 1, pl_busy := pl_busy st @ [x]\<rparr>) else None))"
| "pool_choice cp (Some i) st =
     (if i < length (pl_busy st) then
        (case pl_busy st ! i of (a, b) \<Rightarrow>
         (case cp a b (pl_world st) of
            ((bs, None), w') \<Rightarrow> Some (st\<lparr>pl_busy := take i (pl_busy st) @ drop (Suc i) (pl_busy st), pl_world := w',
                pl_file := write_at a bs (pl_file st), pl_copied := pl_copied st @ [(a, b)], pl_idle := Suc (pl_idle st)\<rparr>)
          | ((bs, Some e), w') \<Rightarrow> None))
      else None)"

fun pool_run :: "(int \<Rightarrow> int \<Rightarrow> 'w \<Rightarrow> (bytes \<times> goerr option) \<times> 'w) \<Rightarrow> nat option list \<Rightarrow> 'w Pool \<Rightarrow> 'w Pool option" where
  "pool_run cp [] st = Some st"
| "pool_run cp (c # cs) st = (case pool_choice cp c st of None \<Rightarrow> None | Some st' \<Rightarrow> pool_run cp cs st')"

lemma pool_choice_step: "pool_choice cp c st = Some st' \<Longrightarrow> pool_step cp st st'"
proof (cases c)
  case None
  moreover assume "pool_choice cp c st = Some st'"
  ultimately show ?thesis by (auto split: list.splits if_splits intro: pool_step.take [unfolded One_nat_def])
next
  case (Some i)
  moreover assume "pool_choice cp c st = Some st'"
  ultimately obtain a b bs w' where i: "i < length (pl_busy st)" "pl_busy st ! i = (a, b)"
    "cp a b (pl_world st) = ((bs, None), w')"
    and st': "st' = st\<lparr>pl_busy := take i (pl_busy st) @ drop (Suc i) (pl_busy st), pl_world := w',
                pl_file := write_at a bs (pl_file st), pl_copied := pl_copied st @ [(a, b)], pl_idle := Suc (pl_idle st)\<rparr>"
    by (auto split: if_splits prod.splits option.splits)
  have "pl_busy st = take i (pl_busy st) @ (a, b) # drop (Suc i) (pl_busy st)"
    using id_take_nth_drop [OF i(1)] i(2) by simp
  then show ?thesis unfolding st' by (rule pool_step.copied) (rule i(3))
qed

lemma pool_run_steps: "pool_run cp cs st = Some st' \<Longrightarrow> (pool_step cp ^^ length cs) st st'"
proof (induction cs arbitrary: st)
  case (Cons c cs)
  then obtain st1 where "pool_choice cp c st = Some st1" "pool_run cp cs st1 = Some st'"
    by (auto split: option.splits)
  with Cons.IH pool_choice_step [of cp c st st1] show ?case by (auto simp: relpowp_commute [symmetric])
qed simp

section \<open>The pools of the program\<close>

definition lfs_job :: "'s ObjectStore \<Rightarrow> string \<Rightarrow> int \<Rightarrow> int \<Rightarrow> int \<Rightarrow> 's \<Rightarrow> (bytes \<times> goerr option) \<times> 's" where
  "lfs_job ob oid sz a b = lfs_copyRange ob (objectKey oid) a b sz"

definition engine_job :: "'s Repository \<Rightarrow> ObjectRef \<Rightarrow> int \<Rightarrow> int \<Rightarrow> 's \<times> 'g \<Rightarrow> (bytes \<times> goerr option) \<times> ('s \<times> 'g)" where
  "engine_job r ref a b = copyRange r (or_Key ref) a b (or_Size ref)"

context ranged_store
begin

lemma lfs_world: "lfs_copyRange (storeObjects S) k a b sz s = (x, s') \<Longrightarrow> view s' = view s"
proof -
  assume run: "lfs_copyRange (storeObjects S) k a b sz s = (x, s')"
  obtain y s1 where op: "st_OpenRange S k a b s = (y, s1)" by (cases "st_OpenRange S k a b s")
  with run have "s' = s1"
    by (auto simp: lfs_copyRange_def Let_def split: sum.splits prod.splits option.splits if_splits)
  with range_view [OF op] show ?thesis by simp
qed

lemma engine_copyRange_ok:
  assumes "r_Store r = S" "copyRange r k lo hi tot w = ((bs, None), w')" "0 \<le> lo" "lo \<le> hi"
    and "view (fst w) k = Some (body, t)"
  shows "bs = take (nat (hi - lo + 1)) (drop (nat lo) body)"
proof -
  from assms(1,2) obtain part s1 where part: "st_OpenRange S k lo hi (fst w) = (Inr part, s1)"
    and copy: "copyLimited (rg_Body part) (hi - lo + 2) = (bs, None)" "int (length bs) = hi - lo + 1"
    by (auto simp: copyRange_def onStore_def Let_def failIf_def add.commute
        split: sum.splits prod.splits if_splits option.splits)
  from copy assms(4) have "bs = fst (rg_Body part)" "snd (rg_Body part) = None"
    by (auto simp: copyLimited_def split: if_splits)
  with range_exact [OF part(1) assms(3,4)] assms(5) show ?thesis by auto
qed

lemma lfs_pool_exact:
  assumes "view s (objectKey oid) = Some (body, t)"
    and "(pool_step (lfs_job (storeObjects S) oid (int (length body))))\<^sup>*\<^sup>*
           (pool_init workers (spans chunk (int (length body)) 0) f s) st" "pool_finished st" "pl_error st = None"
    and "0 < chunk" "length f = length body"
  shows "pl_file st = body \<and> mset (pl_copied st) = mset (spans chunk (int (length body)) 0) \<and>
    view (pl_world st) = view s"
proof (rule pool_exact [OF assms(2-5) refl assms(6)])
  show "view s' = view s" if "view s0 = view s" "lfs_job (storeObjects S) oid (int (length body)) a b s0 = (x, s')" for a b s0 x s'
    using lfs_world [OF that(2) [unfolded lfs_job_def]] that(1) by simp
  show "bs = take (nat (b - a + 1)) (drop (nat a) body)"
    if "view s0 = view s" "0 \<le> a" "a \<le> b" "b < int (length body)"
      "lfs_job (storeObjects S) oid (int (length body)) a b s0 = ((bs, None), s')" for a b s0 bs s'
    using copyRange_ok [OF that(5) [unfolded lfs_job_def] that(2,3)] that(1) assms(1) by auto
qed simp

lemma engine_pool_exact:
  assumes "r_Store r = S" "view (fst w) (or_Key ref) = Some (body, t)"
    and "(pool_step (engine_job r ref))\<^sup>*\<^sup>* (pool_init workers (spans chunk (int (length body)) 0) f w) st"
      "pool_finished st" "pl_error st = None"
    and "0 < chunk" "length f = length body"
  shows "pl_file st = body \<and> mset (pl_copied st) = mset (spans chunk (int (length body)) 0) \<and>
    view (fst (pl_world st)) = view (fst w)"
proof (rule pool_exact [OF assms(3-6) refl assms(7)])
  show "view (fst w') = view (fst w)" if "view (fst w0) = view (fst w)" "engine_job r ref a b w0 = (x, w')" for a b w0 x w'
    using copyRange_view [OF assms(1) that(2) [unfolded engine_job_def]] that(1) by simp
  show "bs = take (nat (b - a + 1)) (drop (nat a) body)"
    if "view (fst w0) = view (fst w)" "0 \<le> a" "a \<le> b" "engine_job r ref a b w0 = ((bs, None), w')" for a b w0 bs w'
    using engine_copyRange_ok [OF assms(1) that(4) [unfolded engine_job_def] that(2,3)] that(1) assms(2) by simp
qed simp

text \<open>The ranges one after the other, as the engine's model fetches them.\<close>

lemma engine_copyRanges_ok:
  assumes "r_Store r = S" "0 < chunk"
  shows "\<forall>(w :: 's \<times> 'g) bs w'. 0 \<le> a \<longrightarrow> view (fst w) k = Some (body, t) \<longrightarrow> int (length body) = sz \<longrightarrow>
    copyRanges r k tot (spans chunk sz a) w = ((bs, None), w') \<longrightarrow> bs = drop (nat a) body"
proof (rule spans_induct [where chunk = chunk and sz = sz and a = a and P = "\<lambda>a xs. \<forall>(w :: 's \<times> 'g) bs w'. 0 \<le> a \<longrightarrow>
    view (fst w) k = Some (body, t) \<longrightarrow> int (length body) = sz \<longrightarrow>
    copyRanges r k tot xs w = ((bs, None), w') \<longrightarrow> bs = drop (nat a) body"])
  fix a b xs
  assume ab: "a \<le> b" "b < sz" and IH: "\<forall>(w :: 's \<times> 'g) bs w'. 0 \<le> b + 1 \<longrightarrow> view (fst w) k = Some (body, t) \<longrightarrow> int (length body) = sz \<longrightarrow>
    copyRanges r k tot xs w = ((bs, None), w') \<longrightarrow> bs = drop (nat (b + 1)) body"
  show "\<forall>(w :: 's \<times> 'g) bs w'. 0 \<le> a \<longrightarrow> view (fst w) k = Some (body, t) \<longrightarrow> int (length body) = sz \<longrightarrow>
    copyRanges r k tot ((a, b) # xs) w = ((bs, None), w') \<longrightarrow> bs = drop (nat a) body"
  proof (intro allI impI)
    fix w w' :: "'s \<times> 'g" and bs
    assume h: "0 \<le> a" "view (fst w) k = Some (body, t)" "int (length body) = sz"
      and run: "copyRanges r k tot ((a, b) # xs) w = ((bs, None), w')"
    obtain cs e w1 where c: "copyRange r k a b tot w = ((cs, e), w1)" by (metis surj_pair)
    obtain ds e2 w2 where d: "copyRanges r k tot xs w1 = ((ds, e2), w2)" by (metis surj_pair)
    from run c d have ok: "e = None" "e2 = None" "bs = cs @ ds" by (auto split: option.splits)
    have "cs = take (nat (b - a + 1)) (drop (nat a) body)"
      by (rule engine_copyRange_ok [OF assms(1) c [unfolded ok(1)] h(1) ab(1) h(2)])
    moreover have "ds = drop (nat (b + 1)) body"
    proof (rule IH [rule_format, OF _ _ h(3) d [unfolded ok(2)]])
      show "view (fst w1) k = Some (body, t)" using copyRange_view [OF assms(1) c] h(2) by simp
    qed (use h(1) ab in simp)
    moreover have "nat (b + 1) = nat (b - a + 1) + nat a" using h(1) ab by simp
    ultimately show "bs = drop (nat a) body" unfolding ok(3) by (metis append_take_drop_id drop_drop)
  qed
qed (use assms(2) in auto)

end

lemma spans_sum:
  assumes "0 < chunk"
  shows "a \<le> sz \<longrightarrow> sum_list (map (\<lambda>(a, b). b - a + 1) (spans chunk sz a)) = sz - a"
  by (rule spans_induct [of chunk sz "\<lambda>a xs. a \<le> sz \<longrightarrow> sum_list (map (\<lambda>(a, b). b - a + 1) xs) = sz - a"])
    (simp_all add: assms)

text \<open>
  C27: the concurrent download of the engine writes the object. Whatever the interleaving of its workers, when
  they are done and none has failed, the file holds exactly the object, every range was copied once, no
  object of the store has changed; and a download that takes the ranges in order yields the same bytes.
\<close>

theorem engine_download_any_schedule:
  assumes "ranged_store S view" and "r_Store r = S" and "view (fst w) (or_Key ref) = Some (body, t)"
    and "uint (or_Size ref) = int (length body)"
    and "(pool_step (engine_job r ref))\<^sup>*\<^sup>* (pool_init workers (spans (chunkOf r) (uint (or_Size ref)) 0)
           (replicate (nat (uint (or_Size ref))) zero) w) st"
    and "pool_finished st" and "pl_error st = None"
  shows "pl_file st = body \<and> mset (pl_copied st) = mset (spans (chunkOf r) (uint (or_Size ref)) 0) \<and>
    view (fst (pl_world st)) = view (fst w) \<and>
    (\<forall>content w'. copyAll r ref w = (Inr content, w') \<longrightarrow> pl_file st = content)"
proof -
  have chunk: "0 < chunkOf r" by (simp add: chunkOf_def)
  note pool = ranged_store.engine_pool_exact [OF assms(1-3) assms(5) [unfolded assms(4)] assms(6,7) chunk]
  have "content = body" if seq: "copyAll r ref w = (Inr content, w')" for content w'
  proof -
    obtain k w2 where k: "copyRanges r (or_Key ref) (or_Size ref) (spans (chunkOf r) (uint (or_Size ref)) 0) w = (k, w2)"
      by (cases "copyRanges r (or_Key ref) (or_Size ref) (spans (chunkOf r) (uint (or_Size ref)) 0) w") auto
    with seq have "k = (content, None)"
      by (cases k) (auto simp: copyAll_def failP_def returnP_def split: option.splits)
    with k have "copyRanges r (or_Key ref) (or_Size ref) (spans (chunkOf r) (uint (or_Size ref)) 0) w = ((content, None), w2)"
      by simp
    from ranged_store.engine_copyRanges_ok [rule_format, OF assms(1,2) chunk order.refl assms(3) assms(4) [symmetric] this]
    show ?thesis by simp
  qed
  with pool assms(4) show ?thesis by simp
qed

theorem engine_download_any_schedule_witness:
  "\<exists>st. pool_run (engine_job sample_download_repo \<lparr>or_Key = ''k'', or_Size = 10, or_SHA256 = []\<rparr>)
      [None, None, Some 1, Some 0, None, Some 0]
      (pool_init 2 [(0, 3), (4, 7), (8, 9)] (replicate 10 (CHR ''-'')) (sample_memory, ())) = Some st \<and>
    pl_copied st = [(4, 7), (0, 3), (8, 9)] \<and> pl_file st = ''0123456789''"
proof -
  let ?ref = "\<lparr>or_Key = ''k'', or_Size = 10, or_SHA256 = []\<rparr> :: ObjectRef"
  let ?run = "pool_run (engine_job sample_download_repo ?ref) [None, None, Some 1, Some 0, None, Some 0]
      (pool_init 2 [(0, 3), (4, 7), (8, 9)] (replicate 10 (CHR ''-'')) (sample_memory, ()))"
  have "map_option (\<lambda>st. (pl_todo st, pl_busy st, pl_copied st)) ?run = Some ([], [], [(4, 7), (0, 3), (8, 9)])"
    "map_option (\<lambda>st. pl_error st = None) ?run = Some True"
    by code_simp+
  then obtain st where st: "?run = Some st" "pool_finished st" "pl_error st = None" "pl_copied st = [(4, 7), (0, 3), (8, 9)]"
    by (auto simp: pool_finished_def)
  have "spans (chunkOf sample_download_repo) (uint (or_Size ?ref)) 0 = [(0, 3), (4, 7), (8, 9)]" by code_simp
  then have "(pool_step (engine_job sample_download_repo ?ref))\<^sup>*\<^sup>* (pool_init 2
      (spans (chunkOf sample_download_repo) (uint (or_Size ?ref)) 0) (replicate (nat (uint (or_Size ?ref))) (CHR ''-''))
      (sample_memory, ())) st"
    using pool_run_steps [OF st(1)] by (auto dest: relpowp_imp_rtranclp)
  moreover have "memory_view (fst (sample_memory, ())) (or_Key ?ref) = Some (''0123456789'', ''t'')"
    by (simp add: memory_view_def sample_memory_def)
  ultimately have "pl_file st = ''0123456789''"
    using engine_download_any_schedule [OF memory_ranged.ranged_store_axioms [of id], of sample_download_repo
        "(sample_memory, ())" ?ref "''0123456789''" "''t''" 2 "CHR ''-''" st] st(2,3)
    by (simp add: sample_download_repo_def)
  with st show ?thesis by blast
qed

text \<open>
  C28: the concurrent download of an LFS object writes the object, whatever the interleaving of the workers, when
  they are done and none has failed; and the ranges whose progress is reported add up to its size.
\<close>

theorem lfs_download_any_schedule:
  assumes "ranged_store S view" and "view s (objectKey oid) = Some (body, t)" and "sz = int (length body)"
    and "(pool_step (lfs_job (storeObjects S) oid sz))\<^sup>*\<^sup>*
           (pool_init workers (spans (chunkSize bd) sz 0) (replicate (nat sz) zero) s) st"
    and "pool_finished st" and "pl_error st = None"
  shows "pl_file st = body \<and> view (pl_world st) = view s \<and> sum_list (map (\<lambda>(a, b). b - a + 1) (pl_copied st)) = sz"
proof -
  have chunk: "0 < chunkSize bd" by (simp add: chunkSize_def defaultChunkSize_def)
  have "length (replicate (nat sz) zero) = length body" using assms(3) by simp
  from ranged_store.lfs_pool_exact [OF assms(1,2) assms(4) [unfolded assms(3)] assms(5,6) chunk] assms(3)
  have pool: "pl_file st = body" "mset (pl_copied st) = mset (spans (chunkSize bd) sz 0)" "view (pl_world st) = view s" by simp_all
  have "sum_list (map (\<lambda>(a, b). b - a + 1) (spans (chunkSize bd) sz 0)) = sz"
    using spans_sum [OF chunk, of 0 sz] assms(3) by simp
  moreover have "sum_list (map (\<lambda>(a, b). b - a + 1) (pl_copied st)) = sum_list (map (\<lambda>(a, b). b - a + 1) (spans (chunkSize bd) sz 0))"
    unfolding sum_mset_sum_list [symmetric] mset_map pool(2) ..
  ultimately show ?thesis using pool by simp
qed

theorem lfs_download_any_schedule_witness:
  "\<exists>st. pool_run (lfs_job (storeObjects (MemoryStore zeroSum)) (replicate 64 (CHR ''0'')) 3) [None, None, Some 1, Some 0]
      (pool_init 4 [(0, 1), (2, 2)] (replicate 3 (CHR ''-'')) abcStore) = Some st \<and>
    pl_copied st = [(2, 2), (0, 1)] \<and> pl_file st = ''abc''"
proof -
  let ?oid = "replicate 64 (CHR ''0'')"
  let ?run = "pool_run (lfs_job (storeObjects (MemoryStore zeroSum)) ?oid 3) [None, None, Some 1, Some 0]
      (pool_init 4 [(0, 1), (2, 2)] (replicate 3 (CHR ''-'')) abcStore)"
  let ?bd = "\<lparr>bd_Store = None, bd_DownloadChunkSize = 2, bd_DownloadConcurrency = 4\<rparr> :: Memory Backend"
  have "map_option (\<lambda>st. (pl_todo st, pl_busy st, pl_copied st)) ?run = Some ([], [], [(2, 2), (0, 1)])"
    "map_option (\<lambda>st. pl_error st = None) ?run = Some True"
    by code_simp+
  then obtain st where st: "?run = Some st" "pool_finished st" "pl_error st = None" "pl_copied st = [(2, 2), (0, 1)]"
    by (auto simp: pool_finished_def)
  have spans: "spans (chunkSize ?bd) 3 0 = [(0, 1), (2, 2)]" by code_simp
  have "(pool_step (lfs_job (storeObjects (MemoryStore zeroSum)) ?oid 3))\<^sup>*\<^sup>* (pool_init 4
      (spans (chunkSize ?bd) 3 0) (replicate (nat 3) (CHR ''-'')) abcStore) st"
    unfolding spans using pool_run_steps [OF st(1)] by (auto dest: relpowp_imp_rtranclp)
  moreover have "map_option fst (memory_view abcStore (objectKey ?oid)) = Some ''abc''" by code_simp
  then obtain t where "memory_view abcStore (objectKey ?oid) = Some (''abc'', t)" by auto
  ultimately have "pl_file st = ''abc''"
    using lfs_download_any_schedule [OF memory_ranged.ranged_store_axioms [of zeroSum], of abcStore ?oid "''abc''" t 3 4 ?bd
        "CHR ''-''" st] st(2,3) by simp
  with st show ?thesis by blast
qed

text \<open>
  C29: a pool of workers always ends. A schedule has at most twice as many steps as there are ranges, whatever
  fails, and as long as a range is waiting or under way some step is possible.
\<close>

theorem download_pool_ends:
  assumes "0 < workers" and "(pool_step cp ^^ n) (pool_init workers jobs f w) st"
  shows "n \<le> 2 * length jobs \<and> (\<not> pool_finished st \<longrightarrow> (\<exists>st'. pool_step cp st st'))"
proof
  show "n \<le> 2 * length jobs"
    using pool_steps_measure [OF assms(2)] by (simp add: pool_measure_def pool_init_def)
  have "(pool_step cp)\<^sup>*\<^sup>* (pool_init workers jobs f w) st" using assms(2) by (rule relpowp_imp_rtranclp)
  from pool_alive_steps [OF this, of workers] have "pool_alive workers st" by (simp add: pool_alive_def pool_init_def)
  with pool_progress [of workers st cp] assms(1) show "\<not> pool_finished st \<longrightarrow> (\<exists>st'. pool_step cp st st')" by blast
qed

theorem download_pool_ends_witness:
  "\<exists>st'. pool_step (engine_job sample_download_repo \<lparr>or_Key = ''k'', or_Size = 10, or_SHA256 = []\<rparr>)
     (pool_init 1 [(0, 3)] [] (sample_memory, ())) st'"
proof -
  have "(pool_step (engine_job sample_download_repo \<lparr>or_Key = ''k'', or_Size = 10, or_SHA256 = []\<rparr>) ^^ 0)
     (pool_init 1 [(0, 3)] [] (sample_memory, ())) (pool_init 1 [(0, 3)] [] (sample_memory, ()))" by simp
  from download_pool_ends [OF _ this] show ?thesis by (simp add: pool_finished_def pool_init_def)
qed

end
