(* ===== verification/Spec2Isabelle.thy ===== *)
theory Spec2Isabelle
  imports Git3_CliProps Git3_Progress Git3_HeadJson Git3_Pool
begin

text \<open>
  A verification development of git3, a Git remote helper that keeps a repository, its packs and its
  LFS objects in an S3 bucket. All state that clients share is objects under one reserved prefix; the
  object HEAD is the only one that is ever replaced, by a conditional write, and everything else is
  written once. The development models this program from the entry points down to the calls of the
  S3 client, and proves what a user may rely on: pushes are not lost, readers see one consistent
  history, collection and compaction are invisible, transfers are verified.

  \<^bold>\<open>How the program fits together.\<close> \<^verbatim>\<open>cmd/git3/main.go\<close> turns a target into a locator, a configuration, an
  S3 store and an engine repository, and hands it to a command, to the remote helper or to the LFS
  agent. The helper speaks Git's line protocol and calls \<^verbatim>\<open>Advertise\<close>, \<^verbatim>\<open>Fetch\<close> and \<^verbatim>\<open>Push\<close> of the engine; the
  engine reads and publishes documents of the data model through the store interface, runs native
  \<^verbatim>\<open>git\<close> for packs, and keeps caches in the local state. The agent uses the store directly.

  \<^bold>\<open>Theories and sources\<close> (paths under \<^verbatim>\<open>src/internal\<close> unless given in full):

  \<^item> \<^verbatim>\<open>Git3_Prelude\<close>: bytes, maps, the Go string functions, decimal numbers; \<^verbatim>\<open>Git3_Utf8\<close>: UTF-8.
  \<^item> \<^verbatim>\<open>Git3_Errs\<close>: \<^verbatim>\<open>errs/errors.go\<close>, and programs: a program maps a state to an error or a value, and the
    next state; \<open>bindP\<close>, \<open>tryP\<close> and \<open>checkP\<close> are the three shapes of early return, and \<open>keeps R m\<close> says that a
    program keeps a relation between states whatever it returns.
  \<^item> \<^verbatim>\<open>Git3_Locator\<close>: \<^verbatim>\<open>locator/locator.go\<close>; \<^verbatim>\<open>Git3_Config\<close>: \<^verbatim>\<open>config/config.go\<close>.
  \<^item> \<^verbatim>\<open>Git3_Model\<close>, \<^verbatim>\<open>Git3_Snapshot\<close>, \<^verbatim>\<open>Git3_HeadJson\<close>: \<^verbatim>\<open>model/model.go\<close>, \<^verbatim>\<open>snapshot.go\<close>, \<^verbatim>\<open>head_json.go\<close>;
    \<^verbatim>\<open>Git3_Canonical\<close>: \<^verbatim>\<open>canonical/json.go\<close>.
  \<^item> \<^verbatim>\<open>Git3_Store\<close>: \<^verbatim>\<open>store/store.go\<close> and \<^verbatim>\<open>store/memory.go\<close>; \<^verbatim>\<open>Git3_S3\<close>, \<^verbatim>\<open>Git3_S3Laws\<close>, \<^verbatim>\<open>Git3_Multipart\<close>,
    \<^verbatim>\<open>Git3_S3Props\<close>: \<^verbatim>\<open>store/s3.go\<close>, the laws of the service, the concurrent multipart upload, the properties.
  \<^item> \<^verbatim>\<open>Git3_Git\<close>: \<^verbatim>\<open>git/git.go\<close> over the operating system as a record of operations; \<^verbatim>\<open>Git3_Local\<close>:
    \<^verbatim>\<open>local/state.go\<close>; \<^verbatim>\<open>Git3_Lib\<close>: all the engine takes from outside, and the world of an operation, the
    pair of store state and local state.
  \<^item> \<^verbatim>\<open>Git3_Remote\<close>, \<^verbatim>\<open>Git3_Fetch\<close>, \<^verbatim>\<open>Git3_Push\<close>, \<^verbatim>\<open>Git3_PushRead\<close>, \<^verbatim>\<open>Git3_Engine\<close>: \<^verbatim>\<open>engine/engine.go\<close>;
    \<^verbatim>\<open>Git3_Admin\<close>, \<^verbatim>\<open>Git3_AdminSafe\<close>, \<^verbatim>\<open>Git3_Maintenance\<close>, \<^verbatim>\<open>Git3_AdminProps\<close>: \<^verbatim>\<open>engine/admin.go\<close>;
    \<^verbatim>\<open>Git3_Sample\<close>: a concrete repository for the witnesses.
  \<^item> \<^verbatim>\<open>Git3_Helper\<close>, \<^verbatim>\<open>Git3_HelperProps\<close>: \<^verbatim>\<open>helper/helper.go\<close>; \<^verbatim>\<open>Git3_Progress\<close>: \<^verbatim>\<open>helper/progress.go\<close>.
  \<^item> \<^verbatim>\<open>Git3_Lfs\<close>, \<^verbatim>\<open>Git3_LfsProps\<close>: \<^verbatim>\<open>lfs/agent.go\<close> and \<^verbatim>\<open>lfs/install.go\<close>.
  \<^item> \<^verbatim>\<open>Git3_Pool\<close>: the download workers of \<^verbatim>\<open>engine/engine.go\<close> and \<^verbatim>\<open>lfs/agent.go\<close> as a step relation.
  \<^item> \<^verbatim>\<open>Git3_Cli\<close>, \<^verbatim>\<open>Git3_CliProps\<close>: \<^verbatim>\<open>src/cmd/git3/main.go\<close>.

  A Go struct is a record with the same fields, an interface a record of operations, a method a
  definition of the same name (with a prefix where the name is taken). Unsigned 64-bit counters are
  words; sizes and offsets, which the code keeps inside \<^verbatim>\<open>int64\<close>, are integers.

  \<^bold>\<open>Interfaces.\<close> \<open>object_store\<close> states what the engine relies on: each operation against the map from keys
  to body and tag, with conditional writes that may have happened although they report an error.
  \<open>reliable_store\<close> and \<open>atomic_store\<close> add that reads of a present object succeed and that no write is lost
  silently; \<open>ranged_store\<close> adds exact byte ranges. The in-memory store interprets all four. \<open>s3_service\<close> states
  the documented laws of the S3 client, \<open>s3_remote\<close> is a store over it and \<open>s3_ranges\<close> adds the law of range
  reads; sublocales show that they meet \<open>object_store\<close> and \<open>ranged_store\<close>; a simulated bucket interprets all three. Properties name the locale as a hypothesis
  and so hold for every store; their witnesses use the interpretations.

  \<^bold>\<open>What is shown.\<close> Publication and push: no lost update, exclusive success, exact effect on the refs, and
  a push followed by a read (C1, C2, C4, C7); reading refines an abstract reading function of the store
  contents and accepts only one consistent chain (C3, C6); a full log tail seals a page that readers reject
  (C5). Administration: collection keeps every live object and is invisible, also when it is interrupted and
  resumed (C9, C10, C34), compaction changes no ref and ends with small levels (C11, C12, C30, C31).
  Protocols: a whole helper session over S3 loses nothing (C13), dry runs are dry (C18), replies are framed
  (C19), LFS transfers are verified at both ends and answered once (C24 to C26). The S3 store meets the
  contract (C20), for every interleaving of part uploads (C21), which always end (C22), but multipart
  uploads are not checked against the declared size and digest (C23). Concurrent downloads write the
  object whatever the interleaving of their workers, and always end (C27 to C29). The rest states the data formats,
  the configuration and the terminal.

  \<^bold>\<open>Bounds.\<close> The walk along log pages runs on \<open>x_page_fuel\<close>; C8 shows that a bound above the number of objects
  is never reached, also on cyclic pages. \<open>scan_fuel\<close> is twice the tokens of a JSON text plus two, and every
  second step of the scan consumes a token. \<open>compactLevels\<close> runs on the number of packs plus one, which C30 shows to be
  enough. \<open>s3_list_fuel\<close> bounds the pages of a listing; what lies beyond it is reported as an error, and the
  contract holds for every value. The steps of a multipart upload need no fuel: \<open>upload_measure\<close> decreases.

  \<^bold>\<open>Simplifications.\<close> The download workers of the engine and of the LFS agent write disjoint ranges; the ranges
  are fetched one after the other. The retries inside the S3 client are part of one call. Readers yield
  their bytes and their error at once. Contexts are cancelled only through errors of the calls. Writing
  to standard output and standard error does not fail. The engine's progress calls are left out of the
  engine; \<^verbatim>\<open>Git3_Progress\<close> models what such calls and Git's messages do to the terminal, in any order.

  \<^bold>\<open>Not modelled.\<close> \<^verbatim>\<open>encoding/json\<close>, \<^verbatim>\<open>gowebpki/jcs\<close>, \<^verbatim>\<open>url.Parse\<close>, \<^verbatim>\<open>time.Parse\<close>, SHA-256, the AWS SDK, native
  \<^verbatim>\<open>git\<close>, the file system and the command-line library are arguments of the definitions; signals, the build
  metadata, and the loops that copy bytes between pipes are left out, as are the engine's
  calls of its progress sink.
\<close>

end
